(* ===== verification/Prelude.thy ===== *)
theory Prelude
  imports Main "HOL-Library.AList" "HOL-Library.List_Lexorder"
begin

text \<open>
  The vocabulary every component shares.

  A Python \<open>str\<close> is the list of its code points (\<open>pystr\<close>); \<open>S ''abc''\<close> is
  the model of a literal.  A \<open>bytes\<close> value is the list of its byte values.  A \<open>dict\<close> with string
  keys is an association list in insertion order with at most one entry per key; it is read with
  \<open>map_of\<close> and written with \<open>AList.update\<close>, which keeps the position of an
  existing key and appends a new one, exactly as \<open>d[k] = v\<close> does.  A function that may raise
  returns \<open>py_exc + 'a\<close>.

  The locale \<open>transition_invariant\<close> is the interface between a state machine of the development
  and its invariants: what a component owes (the invariant starts and is kept) and what its client
  gets (it holds in every reachable state).
\<close>

named_theorems dict_simps \<open>reading and writing dicts\<close>
named_theorems str_simps \<open>strings and their stripping\<close>
named_theorems res_simps \<open>results that may be an exception\<close>

section \<open>Python strings\<close>

type_synonym pystr = "nat list"
type_synonym bytes = "nat list"

definition S :: "string \<Rightarrow> pystr" where
  "S s = map of_char s"

lemma S_inj [simp]: "S a = S b \<longleftrightarrow> a = b"
  by (simp add: S_def inj_map_eq_map inj_def)

lemma S_Nil [simp]: "S [] = []" "S a = [] \<longleftrightarrow> a = []" "[] = S a \<longleftrightarrow> a = []"
  by (auto simp: S_def)

lemma length_S [simp]: "length (S a) = length a"
  by (simp add: S_def)

text \<open>Code points \<open>str.strip()\<close> removes (\<open>str.isspace\<close> of one character).\<close>

definition is_space :: "nat \<Rightarrow> bool" where
  "is_space c \<longleftrightarrow> (9 \<le> c \<and> c \<le> 13) \<or> (28 \<le> c \<and> c \<le> 32) \<or> c = 133 \<or> c = 160 \<or> c = 5760 \<or>
     (8192 \<le> c \<and> c \<le> 8202) \<or> c = 8232 \<or> c = 8233 \<or> c = 8239 \<or> c = 8287 \<or> c = 12288"

text \<open>\<open>s.lstrip(chars)\<close>, \<open>s.rstrip(chars)\<close>, \<open>s.strip()\<close>.\<close>

definition lstrip_by :: "(nat \<Rightarrow> bool) \<Rightarrow> pystr \<Rightarrow> pystr" where
  "lstrip_by p s = dropWhile p s"

definition rstrip_by :: "(nat \<Rightarrow> bool) \<Rightarrow> pystr \<Rightarrow> pystr" where
  "rstrip_by p s = rev (dropWhile p (rev s))"

definition py_strip :: "pystr \<Rightarrow> pystr" where
  "py_strip s = rstrip_by is_space (lstrip_by is_space s)"

lemma lstrip_by_Nil [simp]: "lstrip_by p [] = []"
  by (simp add: lstrip_by_def)

lemma rstrip_by_Nil [simp]: "rstrip_by p [] = []"
  by (simp add: rstrip_by_def)

lemma rstrip_by_snoc [str_simps]:
  "rstrip_by p (xs @ [x]) = (if p x then rstrip_by p xs else xs @ [x])"
  by (simp add: rstrip_by_def)

lemma rstrip_by_none [str_simps]: "\<forall>x \<in> set xs. \<not> p x \<Longrightarrow> rstrip_by p xs = xs"
  by (induction xs rule: rev_induct) (auto simp: rstrip_by_snoc)

lemma length_rstrip_by: "length (rstrip_by p s) \<le> length s"
  using length_dropWhile_le [of p "rev s"] by (simp add: rstrip_by_def)

lemma set_rstrip_by: "set (rstrip_by p s) \<subseteq> set s"
  by (auto simp: rstrip_by_def dest: set_dropWhileD)

lemma rstrip_by_idem [simp]: "rstrip_by p (rstrip_by p s) = rstrip_by p s"
  by (induction s rule: rev_induct) (auto simp: rstrip_by_snoc)

definition starts_with :: "pystr \<Rightarrow> pystr \<Rightarrow> bool" where
  "starts_with p s \<longleftrightarrow> take (length p) s = p"

definition ends_with :: "pystr \<Rightarrow> pystr \<Rightarrow> bool" where
  "ends_with p s \<longleftrightarrow> length p \<le> length s \<and> drop (length s - length p) s = p"

lemma starts_with_append [simp]: "starts_with p (p @ s)"
  by (simp add: starts_with_def)

section \<open>Exceptions as values\<close>

datatype py_exc =
    JSONDecodeError | ValueError | RecursionError | OSError | KeyError | TypeError
  | AttributeError | IndexError | OverflowError | ReError | SyntaxError | FileNotFoundError | OutOfFuel

text \<open>
  \<open>except (ValueError, RecursionError)\<close>: \<open>JSONDecodeError\<close> and the oversized-integer error are
  \<open>ValueError\<close>s.  \<open>OutOfFuel\<close> is no Python exception: it marks a model that was given too little
  fuel, and the components prove that it never comes out.
\<close>

definition is_value_error :: "py_exc \<Rightarrow> bool" where
  "is_value_error e \<longleftrightarrow> e = JSONDecodeError \<or> e = ValueError"

fun res_bind :: "'e + 'a \<Rightarrow> ('a \<Rightarrow> 'e + 'b) \<Rightarrow> 'e + 'b" where
  "res_bind (Inl e) f = Inl e"
| "res_bind (Inr a) f = f a"

lemma res_bind_cong [fundef_cong]:
  "m = m' \<Longrightarrow> (\<And>a. m' = Inr a \<Longrightarrow> f a = g a) \<Longrightarrow> res_bind m f = res_bind m' g"
  by (cases m') auto

lemma res_bind_Inr [res_simps]:
  "res_bind m f = Inr b \<longleftrightarrow> (\<exists>a. m = Inr a \<and> f a = Inr b)"
  by (cases m) auto

lemma res_bind_Inl [res_simps]:
  "res_bind m f = Inl e \<longleftrightarrow> m = Inl e \<or> (\<exists>a. m = Inr a \<and> f a = Inl e)"
  by (cases m) auto

lemma res_bind_assoc: "res_bind (res_bind m f) g = res_bind m (\<lambda>a. res_bind (f a) g)"
  by (cases m) auto

lemma res_bind_return [simp]: "res_bind m Inr = m"
  by (cases m) auto

text \<open>Running a check that may raise over a list, in order, and collecting the results.\<close>

fun res_map :: "('a \<Rightarrow> 'e + 'b) \<Rightarrow> 'a list \<Rightarrow> 'e + 'b list" where
  "res_map f [] = Inr []"
| "res_map f (x # xs) = res_bind (f x) (\<lambda>y. res_bind (res_map f xs) (\<lambda>ys. Inr (y # ys)))"

lemma res_map_cong [fundef_cong]:
  "xs = ys \<Longrightarrow> (\<And>x. x \<in> set ys \<Longrightarrow> f x = g x) \<Longrightarrow> res_map f xs = res_map g ys"
  by (induction xs arbitrary: ys) auto

lemma res_map_Inr:
  "res_map f xs = Inr ys \<longleftrightarrow> list_all2 (\<lambda>x y. f x = Inr y) xs ys"
  by (induction xs arbitrary: ys) (auto simp: res_bind_Inr list_all2_Cons1)

lemma res_map_all: "\<forall>x \<in> set xs. f x = Inr (g x) \<Longrightarrow> res_map f xs = Inr (map g xs)"
  by (induction xs) auto

lemma res_map_check:
  "(\<And>x. x \<in> set xs \<Longrightarrow> f x = (if P x then Inr (g x) else Inl e)) \<Longrightarrow>
     res_map f xs = (if \<forall>x \<in> set xs. P x then Inr (map g xs) else Inl e)"
proof (induction xs)
  case (Cons x xs)
  then have "f x = (if P x then Inr (g x) else Inl e)"
    and "res_map f xs = (if \<forall>x \<in> set xs. P x then Inr (map g xs) else Inl e)" by simp_all
  then show ?case by simp
qed simp

section \<open>Dicts\<close>

type_synonym 'v dict = "(pystr \<times> 'v) list"

abbreviation dget :: "'v dict \<Rightarrow> pystr \<Rightarrow> 'v option" where
  "dget d k \<equiv> map_of d k"

definition dset :: "pystr \<Rightarrow> 'v \<Rightarrow> 'v dict \<Rightarrow> 'v dict" where
  "dset k v d = AList.update k v d"

definition dkeys :: "'v dict \<Rightarrow> pystr list" where
  "dkeys d = map fst d"

definition dict_ok :: "'v dict \<Rightarrow> bool" where
  "dict_ok d \<longleftrightarrow> distinct (dkeys d)"

text \<open>\<open>dict(pairs)\<close>: the last pair of a key wins, at the position of its first one.\<close>

definition dict_of :: "(pystr \<times> 'v) list \<Rightarrow> 'v dict" where
  "dict_of ps = fold (\<lambda>(k, v). dset k v) ps []"

text \<open>\<open>d.setdefault(k, v)\<close> as a statement.\<close>

definition dsetdefault :: "pystr \<Rightarrow> 'v \<Rightarrow> 'v dict \<Rightarrow> 'v dict" where
  "dsetdefault k v d = (case dget d k of None \<Rightarrow> dset k v d | Some _ \<Rightarrow> d)"

lemma dget_dset [dict_simps]: "dget (dset k v d) k' = (if k' = k then Some v else dget d k')"
  by (auto simp: dset_def update_conv')

lemma dget_dset_fun: "map_of (dset k v d) = (map_of d)(k \<mapsto> v)"
  by (simp add: dset_def update_conv')

lemma dkeys_dset [dict_simps]:
  "dkeys (dset k v d) = (if k \<in> set (dkeys d) then dkeys d else dkeys d @ [k])"
  by (induction d) (auto simp: dkeys_def dset_def)

lemma dict_ok_Nil [simp]: "dict_ok []"
  by (simp add: dict_ok_def dkeys_def)

lemma dict_ok_dset [simp]: "dict_ok d \<Longrightarrow> dict_ok (dset k v d)"
  by (auto simp: dict_ok_def dkeys_dset)

lemma dget_None: "dget d k = None \<longleftrightarrow> k \<notin> set (dkeys d)"
  by (simp add: dkeys_def map_of_eq_None_iff)

lemma dget_dsetdefault [dict_simps]:
  "dget (dsetdefault k v d) k' =
     (if k' = k then Some (case dget d k of None \<Rightarrow> v | Some w \<Rightarrow> w) else dget d k')"
  by (auto simp: dsetdefault_def dget_dset split: option.splits)

lemma dict_ok_dsetdefault [simp]: "dict_ok d \<Longrightarrow> dict_ok (dsetdefault k v d)"
  by (auto simp: dsetdefault_def split: option.splits)

lemma dset_in: "dict_ok d \<Longrightarrow> (k, v) \<in> set d \<longleftrightarrow> dget d k = Some v"
  by (simp add: dict_ok_def dkeys_def)

lemma set_dset: "set (dset k v d) \<subseteq> insert (k, v) (set d)"
  by (induction d) (auto simp: dset_def)

lemma dset_append: "k \<notin> set (dkeys d) \<Longrightarrow> dset k v d = d @ [(k, v)]"
  by (induction d) (auto simp: dset_def dkeys_def)

lemma dict_of_snoc: "dict_of (ps @ [(k, v)]) = dset k v (dict_of ps)"
  by (simp add: dict_of_def)

lemma dict_ok_dict_of [simp]: "dict_ok (dict_of ps)"
proof (induction ps rule: rev_induct)
  case Nil
  then show ?case by (simp add: dict_of_def)
next
  case (snoc p ps)
  then show ?case by (cases p) (simp add: dict_of_snoc)
qed

lemma set_dict_of: "set (dict_of ps) \<subseteq> set ps"
proof (induction ps rule: rev_induct)
  case Nil
  then show ?case by (simp add: dict_of_def)
next
  case (snoc p ps)
  then show ?case using set_dset [of "fst p" "snd p" "dict_of ps"]
    by (cases p) (auto simp: dict_of_snoc)
qed

lemma dict_of_id: "dict_ok ps \<Longrightarrow> dict_of ps = ps"
proof (induction ps rule: rev_induct)
  case Nil
  then show ?case by (simp add: dict_of_def)
next
  case (snoc p ps)
  then show ?case
    by (cases p) (auto simp: dict_of_snoc dict_ok_def dkeys_def intro!: dset_append [unfolded dkeys_def])
qed

lemma map_of_snoc: "map_of (ps @ [(k, v)]) k' = (case map_of ps k' of None \<Rightarrow> (if k' = k then Some v else None) | Some w \<Rightarrow> Some w)"
  by (auto simp: map_add_def split: option.splits)

lemma dget_dict_of: "dget (dict_of ps) k = map_of (rev ps) k"
proof (induction ps rule: rev_induct)
  case Nil
  then show ?case by (simp add: dict_of_def)
next
  case (snoc p ps)
  then show ?case by (cases p) (simp add: dict_of_snoc dget_dset)
qed

section \<open>State machines and their invariants\<close>

inductive reachable :: "('s \<Rightarrow> bool) \<Rightarrow> ('s \<Rightarrow> 's \<Rightarrow> bool) \<Rightarrow> 's \<Rightarrow> bool"
  for init step where
  start: "init s \<Longrightarrow> reachable init step s"
| step: "reachable init step s \<Longrightarrow> step s t \<Longrightarrow> reachable init step t"

locale transition_invariant =
  fixes init :: "'s \<Rightarrow> bool" and step :: "'s \<Rightarrow> 's \<Rightarrow> bool" and inv :: "'s \<Rightarrow> bool"
  assumes inv_init: "init s \<Longrightarrow> inv s"
    and inv_step: "inv s \<Longrightarrow> step s t \<Longrightarrow> inv t"
begin

lemma inv_reachable: "reachable init step s \<Longrightarrow> inv s"
  by (induction rule: reachable.induct) (auto intro: inv_init inv_step)

lemma inv_steps: "step\<^sup>*\<^sup>* s t \<Longrightarrow> inv s \<Longrightarrow> inv t"
  by (induction rule: rtranclp.induct) (auto intro: inv_step)

end

lemma reachable_rtranclp: "step\<^sup>*\<^sup>* s t \<Longrightarrow> reachable init step s \<Longrightarrow> reachable init step t"
  by (induction rule: rtranclp.induct) (auto intro: reachable.step)

end
