(* ===== verification/Json_Value.thy ===== *)
theory Json_Value
  imports Prelude "HOL-Library.Log_Nat" "HOL-Library.Multiset"
begin

text \<open>
  JSON values as Python holds them after \<open>json.loads\<close>: \<open>None\<close>, booleans, unbounded integers,
  floats, strings, lists and dicts.  A float is an IEEE binary64 value: a rational that
  \<open>round_double\<close> leaves alone, an infinity or a NaN (the sign of zero is not kept).  The
  operations here are the parts of the language the code applies to such values: \<open>isinstance\<close>
  tests, truth, \<open>==\<close>, and the sorting of keys that \<open>sort_keys=True\<close> asks for.
\<close>

section \<open>Floats\<close>

datatype pyfloat = Fin rat | PInf | NInf | NaN

definition round_half_even :: "rat \<Rightarrow> int" where
  "round_half_even x =
     (let f = \<lfloor>x\<rfloor>; r = x - of_int f
      in if r < 1/2 then f else if 1/2 < r then f + 1 else if even f then f else f + 1)"

text \<open>The exponent \<open>e\<close> with \<open>2 powi e \<le> x < 2 powi (e + 1)\<close>, for \<open>0 < x\<close>.\<close>

definition binary_exponent :: "rat \<Rightarrow> int" where
  "binary_exponent x =
     (let (n, d) = quotient_of x; k = bitlen n - bitlen d
      in if x < 2 powi k then k - 1 else k)"

definition round_double :: "rat \<Rightarrow> pyfloat" where
  "round_double x =
     (if x = 0 then Fin 0
      else let q = max (binary_exponent \<bar>x\<bar> - 52) (-1074);
               y = of_int (round_half_even (x / 2 powi q)) * 2 powi q
           in if 2 ^ 1024 \<le> y then PInf else if y \<le> - (2 ^ 1024) then NInf else Fin y)"

section \<open>Values\<close>

datatype json =
    JNull
  | JBool bool
  | JInt int
  | JFloat pyfloat
  | JStr pystr
  | JList "json list"
  | JObj "(pystr \<times> json) list"

type_synonym obj = "json dict"

lemma json_induct [case_names JNull JBool JInt JFloat JStr JList JObj]:
  assumes "P JNull" and "\<And>b. P (JBool b)" and "\<And>i. P (JInt i)" and "\<And>f. P (JFloat f)"
    and "\<And>s. P (JStr s)"
    and "\<And>xs. (\<And>x. x \<in> set xs \<Longrightarrow> P x) \<Longrightarrow> P (JList xs)"
    and "\<And>ps. (\<And>k v. (k, v) \<in> set ps \<Longrightarrow> P v) \<Longrightarrow> P (JObj ps)"
  shows "P j"
proof (induction j)
  case (JObj ps)
  then show ?case by (intro assms(7)) (auto simp: snds.simps)
qed (use assms in auto)

lemma size_json_list [termination_simp]: "x \<in> set xs \<Longrightarrow> size x < Suc (size_list size xs)"
  by (induction xs) auto

lemma size_json_zip [termination_simp]:
  "(x, y) \<in> set (zip xs ys) \<Longrightarrow> size x < Suc (size_list size xs)"
  by (auto dest: set_zip_leftD intro: size_json_list)

lemma size_json_obj [termination_simp]:
  "(k, v) \<in> set ps \<Longrightarrow> size v < Suc (size_list (size_prod (\<lambda>_. 0) size) ps)"
  by (induction ps) auto

subsection \<open>\<open>isinstance\<close>\<close>

fun is_dict :: "json \<Rightarrow> bool" where
  "is_dict (JObj _) = True" | "is_dict _ = False"

fun is_list :: "json \<Rightarrow> bool" where
  "is_list (JList _) = True" | "is_list _ = False"

fun is_str :: "json \<Rightarrow> bool" where
  "is_str (JStr _) = True" | "is_str _ = False"

fun is_bool :: "json \<Rightarrow> bool" where
  "is_bool (JBool _) = True" | "is_bool _ = False"

text \<open>\<open>bool\<close> is a subclass of \<open>int\<close>: \<open>isinstance(True, int)\<close> holds, and \<open>True\<close> counts as 1.\<close>

fun as_int :: "json \<Rightarrow> int option" where
  "as_int (JInt i) = Some i"
| "as_int (JBool b) = Some (if b then 1 else 0)"
| "as_int _ = None"

text \<open>\<open>isinstance(v, int) and not isinstance(v, bool)\<close>.\<close>

fun as_proper_int :: "json \<Rightarrow> int option" where
  "as_proper_int (JInt i) = Some i"
| "as_proper_int _ = None"

fun as_str :: "json \<Rightarrow> pystr option" where
  "as_str (JStr s) = Some s"
| "as_str _ = None"

fun as_dict :: "json \<Rightarrow> obj option" where
  "as_dict (JObj d) = Some d"
| "as_dict _ = None"

lemma as_proper_int_Some [simp]: "as_proper_int v = Some i \<longleftrightarrow> v = JInt i"
  by (cases v) auto

lemma as_str_Some [simp]: "as_str v = Some s \<longleftrightarrow> v = JStr s"
  by (cases v) auto

lemma as_dict_Some [simp]: "as_dict v = Some d \<longleftrightarrow> v = JObj d"
  by (cases v) auto

lemma is_dict_iff: "is_dict v \<longleftrightarrow> (\<exists>d. v = JObj d)"
  by (cases v) auto

lemma is_list_iff: "is_list v \<longleftrightarrow> (\<exists>xs. v = JList xs)"
  by (cases v) auto

lemma is_str_iff: "is_str v \<longleftrightarrow> (\<exists>s. v = JStr s)"
  by (cases v) auto

lemma is_bool_iff: "is_bool v \<longleftrightarrow> (\<exists>b. v = JBool b)"
  by (cases v) auto

subsection \<open>Truth and equality\<close>

fun truthy :: "json \<Rightarrow> bool" where
  "truthy JNull = False"
| "truthy (JBool b) = b"
| "truthy (JInt i) = (i \<noteq> 0)"
| "truthy (JFloat f) = (f \<noteq> Fin 0)"
| "truthy (JStr s) = (s \<noteq> [])"
| "truthy (JList xs) = (xs \<noteq> [])"
| "truthy (JObj ps) = (ps \<noteq> [])"

text \<open>The number a value stands for in a comparison; \<open>int\<close> and \<open>float\<close> compare exactly.\<close>

fun as_number :: "json \<Rightarrow> pyfloat option" where
  "as_number (JBool b) = Some (Fin (if b then 1 else 0))"
| "as_number (JInt i) = Some (Fin (of_int i))"
| "as_number (JFloat f) = Some f"
| "as_number _ = None"

fun py_eq :: "json \<Rightarrow> json \<Rightarrow> bool" where
  "py_eq JNull w = (w = JNull)"
| "py_eq (JStr s) w = (w = JStr s)"
| "py_eq (JList xs) w =
     (case w of JList ys \<Rightarrow> length xs = length ys \<and> list_all (\<lambda>(x, y). py_eq x y) (zip xs ys)
      | _ \<Rightarrow> False)"
| "py_eq (JObj ps) w =
     (case w of
        JObj qs \<Rightarrow> length ps = length qs \<and>
          list_all (\<lambda>(k, v). case map_of qs k of None \<Rightarrow> False | Some u \<Rightarrow> py_eq v u) ps
      | _ \<Rightarrow> False)"
| "py_eq v w =
     (case (as_number v, as_number w) of
        (Some a, Some b) \<Rightarrow> a = b \<and> a \<noteq> NaN
      | _ \<Rightarrow> False)"

subsection \<open>Well-formed values: every dict has each key once\<close>

fun wf_json :: "json \<Rightarrow> bool" where
  "wf_json (JList xs) = (\<forall>x \<in> set xs. wf_json x)"
| "wf_json (JObj ps) = (dict_ok ps \<and> (\<forall>(k, v) \<in> set ps. wf_json v))"
| "wf_json _ = True"

subsection \<open>Nesting\<close>

text \<open>The depth of the deepest value, the value itself being at depth 1.\<close>

fun nesting :: "json \<Rightarrow> nat" where
  "nesting (JList xs) = Suc (foldr max (map nesting xs) 0)"
| "nesting (JObj ps) = Suc (foldr max (map (\<lambda>(k, v). nesting v) ps) 0)"
| "nesting _ = 1"

text \<open>The number of containers around the deepest value: what the scanner recurses on.\<close>

fun containers :: "json \<Rightarrow> nat" where
  "containers (JList xs) = Suc (foldr max (map containers xs) 0)"
| "containers (JObj ps) = Suc (foldr max (map (\<lambda>(k, v). containers v) ps) 0)"
| "containers _ = 0"

lemma foldr_max_le: "foldr max xs 0 \<le> (n::nat) \<longleftrightarrow> (\<forall>x \<in> set xs. x \<le> n)"
  by (induction xs) auto

lemma nesting_pos: "1 \<le> nesting j"
  by (cases j) auto

lemma nesting_List: "nesting (JList xs) \<le> n \<longleftrightarrow> (\<exists>m. n = Suc m \<and> (\<forall>x \<in> set xs. nesting x \<le> m))"
  by (cases n) (auto simp: foldr_max_le)

lemma nesting_Obj:
  "nesting (JObj ps) \<le> n \<longleftrightarrow> (\<exists>m. n = Suc m \<and> (\<forall>(k, v) \<in> set ps. nesting v \<le> m))"
  by (cases n) (auto simp: foldr_max_le)

lemma containers_List:
  "containers (JList xs) \<le> n \<longleftrightarrow> (\<exists>m. n = Suc m \<and> (\<forall>x \<in> set xs. containers x \<le> m))"
  by (cases n) (auto simp: foldr_max_le)

lemma containers_Obj:
  "containers (JObj ps) \<le> n \<longleftrightarrow> (\<exists>m. n = Suc m \<and> (\<forall>(k, v) \<in> set ps. containers v \<le> m))"
  by (cases n) (auto simp: foldr_max_le)

lemma containers_le_nesting: "containers j \<le> nesting j"
proof (induction j rule: json_induct)
  case (JList xs)
  have "containers x \<le> foldr max (map nesting xs) 0" if "x \<in> set xs" for x
    using JList [OF that] that foldr_max_le [of "map nesting xs" "foldr max (map nesting xs) 0"]
    by force
  then show ?case by (simp add: foldr_max_le)
next
  case (JObj ps)
  have "containers v \<le> foldr max (map (\<lambda>(k, v). nesting v) ps) 0" if "(k, v) \<in> set ps" for k v
    using JObj [OF that] that
      foldr_max_le [of "map (\<lambda>(k, v). nesting v) ps" "foldr max (map (\<lambda>(k, v). nesting v) ps) 0"]
    by force
  then show ?case by (auto simp: foldr_max_le)
qed auto

lemma nesting_le_containers: "nesting j \<le> Suc (containers j)"
proof (induction j rule: json_induct)
  case (JList xs)
  have "nesting x \<le> Suc (foldr max (map containers xs) 0)" if "x \<in> set xs" for x
    using JList [OF that] that
      foldr_max_le [of "map containers xs" "foldr max (map containers xs) 0"] by force
  then show ?case by (simp add: foldr_max_le)
next
  case (JObj ps)
  have "nesting v \<le> Suc (foldr max (map (\<lambda>(k, v). containers v) ps) 0)" if "(k, v) \<in> set ps" for k v
    using JObj [OF that] that
      foldr_max_le [of "map (\<lambda>(k, v). containers v) ps" "foldr max (map (\<lambda>(k, v). containers v) ps) 0"]
    by force
  then show ?case by (auto simp: foldr_max_le)
qed auto

subsection \<open>Sorted keys\<close>

text \<open>\<open>sort_keys=True\<close> serialises every dict in the order of its keys.\<close>

fun canon :: "json \<Rightarrow> json" where
  "canon (JList xs) = JList (map canon xs)"
| "canon (JObj ps) = JObj (sort_key fst (map (\<lambda>(k, v). (k, canon v)) ps))"
| "canon j = j"

lemma dkeys_sort: "set (dkeys (sort_key fst d)) = set (dkeys d)"
  by (simp add: dkeys_def)

lemma dict_ok_sort [simp]: "dict_ok (sort_key fst d) = dict_ok d"
proof -
  have "mset (map fst (sort_key fst d)) = mset (map fst d)" by simp
  then have "distinct (map fst (sort_key fst d)) = distinct (map fst d)"
    by (metis mset_eq_imp_distinct_iff)
  then show ?thesis by (simp add: dict_ok_def dkeys_def)
qed

lemma dget_sort: "dict_ok d \<Longrightarrow> dget (sort_key fst d) k = dget d k"
proof -
  assume "dict_ok d"
  then have "distinct (map fst d)" and "distinct (map fst (sort_key fst d))"
    using dict_ok_sort [of d] by (auto simp: dict_ok_def dkeys_def)
  then show ?thesis by (metis map_of_inject_set set_sort)
qed

lemma dict_ok_map_snd [simp]: "dict_ok (map (\<lambda>(k, v). (k, f v)) d) = dict_ok d"
  by (simp add: dict_ok_def dkeys_def comp_def case_prod_unfold)

lemma wf_canon [simp]: "wf_json j \<Longrightarrow> wf_json (canon j)"
  by (induction j rule: json_induct) auto

end
