(* ===== verification/Json_Text.thy ===== *)
theory Json_Text
  imports Json_Value
begin

text \<open>
  What the code uses of Python's \<open>json\<close> module: \<open>loads\<close> (the scanner of CPython with its
  recursion limit, its \<open>parse_int\<close> hook and the building of dicts) and \<open>dumps\<close> (ASCII output,
  optional indentation, sorted keys).  The scanner works on the code points of the text.  It first
  yields the raw tree, in which an object is the list of its pairs as written; \<open>collapse\<close> then
  builds the dicts, or a hook such as \<open>reject_duplicate_keys\<close> refuses them.

  \<open>scan_value\<close> and its companions recurse on fuel; \<open>loads\<close> passes more than twice the length of the text,
  and \<open>loads_no_fuel_error\<close> shows that this is always enough.  The argument \<open>depth\<close> is the number of
  nested containers the interpreter's recursion limit leaves room for.
\<close>

section \<open>Scanning\<close>

definition is_digit :: "nat \<Rightarrow> bool" where
  "is_digit c \<longleftrightarrow> 48 \<le> c \<and> c \<le> 57"

definition is_ws :: "nat \<Rightarrow> bool" where
  "is_ws c \<longleftrightarrow> c = 32 \<or> c = 9 \<or> c = 10 \<or> c = 13"

definition skip_ws :: "pystr \<Rightarrow> pystr" where
  "skip_ws s = dropWhile is_ws s"

definition hex_val :: "nat \<Rightarrow> nat option" where
  "hex_val c = (if 48 \<le> c \<and> c \<le> 57 then Some (c - 48)
     else if 97 \<le> c \<and> c \<le> 102 then Some (c - 87)
     else if 65 \<le> c \<and> c \<le> 70 then Some (c - 55) else None)"

definition hex4 :: "pystr \<Rightarrow> (nat \<times> pystr) option" where
  "hex4 s = (case s of
     a # b # c # d # r \<Rightarrow>
       (case (hex_val a, hex_val b, hex_val c, hex_val d) of
          (Some w, Some x, Some y, Some z) \<Rightarrow> Some (4096 * w + 256 * x + 16 * y + z, r)
        | _ \<Rightarrow> None)
   | _ \<Rightarrow> None)"

definition is_high :: "nat \<Rightarrow> bool" where
  "is_high u \<longleftrightarrow> 55296 \<le> u \<and> u < 56320"

definition is_low :: "nat \<Rightarrow> bool" where
  "is_low u \<longleftrightarrow> 56320 \<le> u \<and> u < 57344"

definition low_follow :: "pystr \<Rightarrow> (nat \<times> pystr) option" where
  "low_follow s = (case s of
     x # y # r \<Rightarrow>
       (if x = 92 \<and> y = 117
        then (case hex4 r of
                Some (l, r') \<Rightarrow> if is_low l then Some (l, r') else None
              | None \<Rightarrow> None)
        else None)
   | _ \<Rightarrow> None)"

definition scan_u :: "pystr \<Rightarrow> py_exc + nat \<times> pystr" where
  "scan_u s = (case hex4 s of
     None \<Rightarrow> Inl JSONDecodeError
   | Some (u, r) \<Rightarrow>
       if is_high u
       then (case low_follow r of
               Some (l, r') \<Rightarrow> Inr (65536 + (u - 55296) * 1024 + (l - 56320), r')
             | None \<Rightarrow> Inr (u, r))
       else Inr (u, r))"

definition simple_unescape :: "nat \<Rightarrow> nat option" where
  "simple_unescape e =
     (if e = 34 \<or> e = 92 \<or> e = 47 then Some e
      else if e = 98 then Some 8 else if e = 102 then Some 12 else if e = 110 then Some 10
      else if e = 114 then Some 13 else if e = 116 then Some 9 else None)"

text \<open>One character of a string, written plainly or as an escape.\<close>

definition scan_unit :: "pystr \<Rightarrow> py_exc + nat \<times> pystr" where
  "scan_unit s = (case s of
     [] \<Rightarrow> Inl JSONDecodeError
   | c # r \<Rightarrow>
       if c = 92
       then (case r of
               [] \<Rightarrow> Inl JSONDecodeError
             | e # r1 \<Rightarrow>
                 if e = 117 then scan_u r1
                 else (case simple_unescape e of
                         None \<Rightarrow> Inl JSONDecodeError
                       | Some ch \<Rightarrow> Inr (ch, r1)))
       else if c < 32 then Inl JSONDecodeError
       else Inr (c, r))"

lemma hex4_length: "hex4 s = Some (u, r) \<Longrightarrow> length s = length r + 4"
  by (auto simp: hex4_def split: list.splits option.splits)

lemma low_follow_length: "low_follow s = Some (u, r) \<Longrightarrow> length s = length r + 6"
  by (auto simp: low_follow_def split: list.splits option.splits if_splits dest: hex4_length)

lemma scan_u_length: "scan_u s = Inr (u, r) \<Longrightarrow> length r < length s"
  by (auto simp: scan_u_def split: option.splits if_splits dest!: hex4_length low_follow_length)

lemma scan_unit_length: "scan_unit s = Inr (u, r) \<Longrightarrow> length r < length s"
  by (auto simp: scan_unit_def split: list.splits if_splits option.splits dest: scan_u_length)

lemma scan_unit_length_Cons [termination_simp]:
  "scan_unit (c # s) = Inr (u, r) \<Longrightarrow> length r < Suc (length s)"
  using scan_unit_length [of "c # s" u r] by simp

text \<open>The rest of a string literal, after its opening quote.\<close>

fun scan_string :: "pystr \<Rightarrow> py_exc + pystr \<times> pystr" where
  "scan_string [] = Inl JSONDecodeError"
| "scan_string (c # s) =
     (if c = 34 then Inr ([], s)
      else res_bind (scan_unit (c # s)) (\<lambda>(u, r).
             res_bind (scan_string r) (\<lambda>(t, r'). Inr (u # t, r'))))"

lemma scan_string_length: "scan_string s = Inr (t, r) \<Longrightarrow> length r < length s"
proof (induction s arbitrary: t r rule: scan_string.induct)
  case (2 c s)
  show ?case
  proof (cases "c = 34")
    case True
    with "2.prems" show ?thesis by simp
  next
    case False
    with "2.prems" obtain u r1 t' where u: "scan_unit (c # s) = Inr (u, r1)"
      and t: "scan_string r1 = Inr (t', r)"
      by (auto simp: res_simps)
    from "2.IH" [OF False u _ t] scan_unit_length [OF u] show ?thesis by simp
  qed
qed simp

subsection \<open>Numbers\<close>

definition digits_val :: "pystr \<Rightarrow> int" where
  "digits_val ds = foldl (\<lambda>a c. 10 * a + int (c - 48)) 0 ds"

text \<open>\<open>int(token)\<close> for a token \<open>-?digits\<close>.\<close>

definition int_of_token :: "pystr \<Rightarrow> int" where
  "int_of_token t = (case t of
     [] \<Rightarrow> 0 | c # ds \<Rightarrow> if c = 45 then - digits_val ds else digits_val (c # ds))"

text \<open>
  The interpreter's own conversion: it raises \<open>ValueError\<close> past the digit limit \<open>cap\<close>, and a limit
  of 0 means that there is none.
\<close>

definition builtin_int :: "nat \<Rightarrow> pystr \<Rightarrow> py_exc + int" where
  "builtin_int cap t =
     (if cap \<noteq> 0 \<and> cap < length (lstrip_by ((=) 45) t) then Inl ValueError else Inr (int_of_token t))"

definition scan_frac :: "pystr \<Rightarrow> pystr \<times> pystr" where
  "scan_frac s = (case s of
     p # d # r \<Rightarrow> if p = 46 \<and> is_digit d
       then (p # takeWhile is_digit (d # r), dropWhile is_digit (d # r)) else ([], s)
   | _ \<Rightarrow> ([], s))"

definition scan_exp :: "pystr \<Rightarrow> pystr \<times> pystr" where
  "scan_exp s = (case s of
     e # r \<Rightarrow>
       if e = 101 \<or> e = 69
       then (let (sg, r1) = (case r of x # r' \<Rightarrow> if x = 43 \<or> x = 45 then ([x], r') else ([], r)
                              | [] \<Rightarrow> ([], []))
             in case r1 of
                  d # r2 \<Rightarrow> if is_digit d
                    then (e # sg @ takeWhile is_digit r1, dropWhile is_digit r1) else ([], s)
                | [] \<Rightarrow> ([], s))
       else ([], s)
   | [] \<Rightarrow> ([], s))"

text \<open>\<open>float(token)\<close>, the token being given as sign, integer, fraction and exponent parts.\<close>

definition float_of_token :: "pystr \<Rightarrow> pystr \<Rightarrow> pystr \<Rightarrow> pystr \<Rightarrow> pyfloat" where
  "float_of_token sg ip fp ep =
     (let m = digits_val (ip @ drop 1 fp);
          e10 = int_of_token (lstrip_by ((=) 43) (drop 1 ep)) - int (length (drop 1 fp))
      in round_double ((if sg = [] then 1 else -1) * of_int m * 10 powi e10))"

text \<open>Sign and integer part; a leading 0 stands alone.\<close>

definition scan_int_part :: "pystr \<Rightarrow> (pystr \<times> pystr \<times> pystr) option" where
  "scan_int_part s =
     (let (sg, r) = (case s of c # r' \<Rightarrow> if c = 45 then ([45], r') else ([], s) | [] \<Rightarrow> ([], []))
      in case r of
           [] \<Rightarrow> None
         | c # r1 \<Rightarrow>
             if \<not> is_digit c then None
             else if c = 48 then Some (sg, [48], r1)
             else Some (sg, takeWhile is_digit r, dropWhile is_digit r))"

definition scan_number :: "(pystr \<Rightarrow> py_exc + int) \<Rightarrow> pystr \<Rightarrow> py_exc + json \<times> pystr" where
  "scan_number ph s = (case scan_int_part s of
     None \<Rightarrow> Inl JSONDecodeError
   | Some (sg, ip, r) \<Rightarrow>
       (let (fp, r3) = scan_frac r; (ep, r4) = scan_exp r3
        in if fp = [] \<and> ep = [] then res_bind (ph (sg @ ip)) (\<lambda>i. Inr (JInt i, r4))
           else Inr (JFloat (float_of_token sg ip fp ep), r4)))"

lemma scan_frac_length: "scan_frac s = (fp, r) \<Longrightarrow> length r \<le> length s"
  using length_dropWhile_le [of is_digit "tl s"]
  by (auto simp: scan_frac_def split: list.splits if_splits)

lemma scan_exp_length: "scan_exp s = (ep, r) \<Longrightarrow> length r \<le> length s"
  using length_dropWhile_le [of is_digit "tl s"] length_dropWhile_le [of is_digit "tl (tl s)"]
  by (auto simp: scan_exp_def Let_def split: list.splits if_splits prod.splits)

lemma scan_int_part_length: "scan_int_part s = Some (sg, ip, r) \<Longrightarrow> length r < length s"
  using length_dropWhile_le [of is_digit "tl s"] length_dropWhile_le [of is_digit "tl (tl s)"]
  by (auto simp: scan_int_part_def Let_def split: list.splits if_splits)

lemma scan_number_length:
  assumes "scan_number ph s = Inr (j, r)" shows "length r < length s"
proof -
  obtain sg ip r2 where i: "scan_int_part s = Some (sg, ip, r2)"
    using assms by (auto simp: scan_number_def split: option.splits)
  obtain fp r3 where f: "scan_frac r2 = (fp, r3)" by fastforce
  obtain ep r4 where e: "scan_exp r3 = (ep, r4)" by fastforce
  from assms i f e have "r = r4" by (auto simp: scan_number_def res_simps split: if_splits)
  with scan_int_part_length [OF i] scan_frac_length [OF f] scan_exp_length [OF e]
  show ?thesis by simp
qed

subsection \<open>Values\<close>

definition keyword :: "pystr \<Rightarrow> (json \<times> pystr) option" where
  "keyword s =
     (if starts_with (S ''null'') s then Some (JNull, drop 4 s)
      else if starts_with (S ''true'') s then Some (JBool True, drop 4 s)
      else if starts_with (S ''false'') s then Some (JBool False, drop 5 s)
      else if starts_with (S ''NaN'') s then Some (JFloat NaN, drop 3 s)
      else if starts_with (S ''Infinity'') s then Some (JFloat PInf, drop 8 s)
      else if starts_with (S ''-Infinity'') s then Some (JFloat NInf, drop 9 s)
      else None)"

definition scan_atom :: "(pystr \<Rightarrow> py_exc + int) \<Rightarrow> pystr \<Rightarrow> py_exc + json \<times> pystr" where
  "scan_atom ph s = (case keyword s of Some r \<Rightarrow> Inr r | None \<Rightarrow> scan_number ph s)"

text \<open>
  \<open>scan_value\<close> reads one value; \<open>scan_elems\<close> the elements of an array up to its bracket, and
  \<open>scan_members\<close> the pairs of an object up to its brace, each at least one.
\<close>

fun scan_value :: "(pystr \<Rightarrow> py_exc + int) \<Rightarrow> nat \<Rightarrow> nat \<Rightarrow> pystr \<Rightarrow> py_exc + json \<times> pystr"
  and scan_elems :: "(pystr \<Rightarrow> py_exc + int) \<Rightarrow> nat \<Rightarrow> nat \<Rightarrow> pystr \<Rightarrow> py_exc + json list \<times> pystr"
  and scan_members ::
    "(pystr \<Rightarrow> py_exc + int) \<Rightarrow> nat \<Rightarrow> nat \<Rightarrow> pystr \<Rightarrow> py_exc + (pystr \<times> json) list \<times> pystr"
where
  "scan_value ph 0 depth s = Inl OutOfFuel"
| "scan_value ph (Suc n) depth s = (case s of
     [] \<Rightarrow> Inl JSONDecodeError
   | c # r \<Rightarrow>
       if c = 34 then res_bind (scan_string r) (\<lambda>(t, r'). Inr (JStr t, r'))
       else if c = 91
       then (if depth = 0 then Inl RecursionError
             else if starts_with [93] (skip_ws r) then Inr (JList [], tl (skip_ws r))
             else res_bind (scan_elems ph n (depth - 1) (skip_ws r)) (\<lambda>(xs, r'). Inr (JList xs, r')))
       else if c = 123
       then (if depth = 0 then Inl RecursionError
             else if starts_with [125] (skip_ws r) then Inr (JObj [], tl (skip_ws r))
             else res_bind (scan_members ph n (depth - 1) (skip_ws r)) (\<lambda>(ps, r'). Inr (JObj ps, r')))
       else scan_atom ph s)"
| "scan_elems ph 0 depth s = Inl OutOfFuel"
| "scan_elems ph (Suc n) depth s =
     res_bind (scan_value ph n depth s) (\<lambda>(x, r). case skip_ws r of
         [] \<Rightarrow> Inl JSONDecodeError
       | c # r' \<Rightarrow>
           if c = 93 then Inr ([x], r')
           else if c = 44
           then res_bind (scan_elems ph n depth (skip_ws r')) (\<lambda>(xs, r2). Inr (x # xs, r2))
           else Inl JSONDecodeError)"
| "scan_members ph 0 depth s = Inl OutOfFuel"
| "scan_members ph (Suc n) depth s = (case s of
     [] \<Rightarrow> Inl JSONDecodeError
   | q # r \<Rightarrow>
       if q \<noteq> 34 then Inl JSONDecodeError
       else res_bind (scan_string r) (\<lambda>(k, r1). case skip_ws r1 of
           [] \<Rightarrow> Inl JSONDecodeError
         | c # r2 \<Rightarrow>
             if c \<noteq> 58 then Inl JSONDecodeError
             else res_bind (scan_value ph n depth (skip_ws r2)) (\<lambda>(v, r3). case skip_ws r3 of
                 [] \<Rightarrow> Inl JSONDecodeError
               | d # r4 \<Rightarrow>
                   if d = 125 then Inr ([(k, v)], r4)
                   else if d = 44
                   then res_bind (scan_members ph n depth (skip_ws r4))
                          (\<lambda>(ps, r5). Inr ((k, v) # ps, r5))
                   else Inl JSONDecodeError)))"

text \<open>\<open>JSONDecoder.decode\<close>: one value, with white space around it and nothing after it.\<close>

definition parse_raw :: "(pystr \<Rightarrow> py_exc + int) \<Rightarrow> nat \<Rightarrow> pystr \<Rightarrow> py_exc + json" where
  "parse_raw ph depth s =
     (if starts_with [65279] s then Inl JSONDecodeError
      else res_bind (scan_value ph (Suc (2 * length s)) depth (skip_ws s)) (\<lambda>(j, r).
             if skip_ws r = [] then Inr j else Inl JSONDecodeError))"

text \<open>Building dicts from the raw tree: the last of several pairs with one key wins.\<close>

fun collapse :: "json \<Rightarrow> json" where
  "collapse (JList xs) = JList (map collapse xs)"
| "collapse (JObj ps) = JObj (dict_of (map (\<lambda>(k, v). (k, collapse v)) ps))"
| "collapse j = j"

definition loads :: "(pystr \<Rightarrow> py_exc + int) \<Rightarrow> nat \<Rightarrow> pystr \<Rightarrow> py_exc + json" where
  "loads ph depth s = res_bind (parse_raw ph depth s) (\<lambda>j. Inr (collapse j))"

section \<open>Serialising\<close>

fun dec_nat :: "nat \<Rightarrow> pystr" where
  "dec_nat n = (if n < 10 then [48 + n] else dec_nat (n div 10) @ [48 + n mod 10])"

declare dec_nat.simps [simp del]

text \<open>\<open>str(i)\<close>\<close>

definition dec_int :: "int \<Rightarrow> pystr" where
  "dec_int i = (if i < 0 then 45 # dec_nat (nat (- i)) else dec_nat (nat i))"

definition hex_digit :: "nat \<Rightarrow> nat" where
  "hex_digit n = (if n < 10 then 48 + n else 87 + n)"

definition u_escape :: "nat \<Rightarrow> pystr" where
  "u_escape n = [92, 117, hex_digit (n div 4096), hex_digit (n div 256 mod 16),
                 hex_digit (n div 16 mod 16), hex_digit (n mod 16)]"

text \<open>One character of a string with \<open>ensure_ascii\<close>.\<close>

definition esc :: "nat \<Rightarrow> pystr" where
  "esc c =
     (if c = 34 then [92, 34] else if c = 92 then [92, 92]
      else if c = 10 then [92, 110] else if c = 13 then [92, 114] else if c = 9 then [92, 116]
      else if c = 12 then [92, 102] else if c = 8 then [92, 98]
      else if 32 \<le> c \<and> c \<le> 126 then [c]
      else if c < 65536 then u_escape c
      else u_escape (55296 + (c - 65536) div 1024) @ u_escape (56320 + (c - 65536) mod 1024))"

definition dump_string :: "pystr \<Rightarrow> pystr" where
  "dump_string s = 34 # concat (map esc s) @ [34]"

fun join :: "pystr \<Rightarrow> pystr list \<Rightarrow> pystr" where
  "join s [] = []"
| "join s [x] = x"
| "join s (x # y # xs) = x @ s @ join s (y # xs)"

text \<open>The line break of an indented output at a level, nothing without \<open>indent\<close>.\<close>

definition newline :: "nat option \<Rightarrow> nat \<Rightarrow> pystr" where
  "newline ind lvl = (case ind of None \<Rightarrow> [] | Some k \<Rightarrow> 10 # replicate (k * lvl) 32)"

definition item_sep :: "nat option \<Rightarrow> nat \<Rightarrow> pystr" where
  "item_sep ind lvl = (case ind of None \<Rightarrow> [44, 32] | Some k \<Rightarrow> 44 # newline ind lvl)"

fun dump :: "(pyfloat \<Rightarrow> pystr) \<Rightarrow> nat option \<Rightarrow> nat \<Rightarrow> json \<Rightarrow> pystr" where
  "dump fr ind lvl JNull = S ''null''"
| "dump fr ind lvl (JBool b) = (if b then S ''true'' else S ''false'')"
| "dump fr ind lvl (JInt i) = dec_int i"
| "dump fr ind lvl (JFloat f) = fr f"
| "dump fr ind lvl (JStr s) = dump_string s"
| "dump fr ind lvl (JList xs) =
     (if xs = [] then [91, 93]
      else 91 # newline ind (Suc lvl) @
        join (item_sep ind (Suc lvl)) (map (dump fr ind (Suc lvl)) xs) @ newline ind lvl @ [93])"
| "dump fr ind lvl (JObj ps) =
     (if ps = [] then [123, 125]
      else 123 # newline ind (Suc lvl) @
        join (item_sep ind (Suc lvl))
          (map (\<lambda>(k, v). dump_string k @ [58, 32] @ dump fr ind (Suc lvl) v) ps) @
        newline ind lvl @ [125])"

text \<open>
  \<open>json.dumps(j, sort_keys=True)\<close> and \<open>json.dumps(j, indent=2, sort_keys=True)\<close>; \<open>fr\<close> is \<open>repr\<close> of
  a float.
\<close>

definition dumps :: "(pyfloat \<Rightarrow> pystr) \<Rightarrow> json \<Rightarrow> pystr" where
  "dumps fr j = dump fr None 0 (canon j)"

definition dumps_indent2 :: "(pyfloat \<Rightarrow> pystr) \<Rightarrow> json \<Rightarrow> pystr" where
  "dumps_indent2 fr j = dump fr (Some 2) 0 (canon j)"

end
