(* ===== verification/Json_Roundtrip.thy ===== *)
theory Json_Roundtrip
  imports Json_Text
begin

text \<open>
  Facts about the scanner and the serialiser: how much text a scan consumes, that the fuel is
  enough, how the result depends on the recursion limit (\<open>scan_depth_mono\<close>, \<open>scan_depth_least\<close>,
  \<open>scan_depth_bound\<close>), that \<open>loads\<close> reads back what \<open>dumps\<close> wrote (\<open>loads_dumps\<close>, with or without
  indentation), and that the unindented text is one line of printable ASCII.
\<close>

section \<open>Scanning consumes text\<close>

lemma skip_ws_length: "length (skip_ws s) \<le> length s"
  by (simp add: skip_ws_def length_dropWhile_le)

lemma skip_ws_Cons: "skip_ws s = c # r \<Longrightarrow> length r < length s"
  using skip_ws_length [of s] by simp

lemma starts_with_length: "starts_with p s \<Longrightarrow> length p \<le> length s"
  by (metis starts_with_def length_take min.cobounded1 min_def)

lemma keyword_length: "keyword s = Some (j, r) \<Longrightarrow> length r < length s"
  by (auto simp: keyword_def split: if_splits dest: starts_with_length)

lemma scan_atom_length: "scan_atom ph s = Inr (j, r) \<Longrightarrow> length r < length s"
  by (auto simp: scan_atom_def split: option.splits dest: keyword_length scan_number_length)

lemma scan_value_InrE:
  assumes "scan_value ph (Suc n) d s = Inr (j, r)"
  obtains
    (str) t r' where "s = 34 # r'" "scan_string r' = Inr (t, r)" "j = JStr t"
  | (empty_list) r' d' where "s = 91 # r'" "d = Suc d'" "starts_with [93] (skip_ws r')"
      "r = tl (skip_ws r')" "j = JList []"
  | (list) r' d' xs where "s = 91 # r'" "d = Suc d'" "\<not> starts_with [93] (skip_ws r')"
      "scan_elems ph n d' (skip_ws r') = Inr (xs, r)" "j = JList xs"
  | (empty_obj) r' d' where "s = 123 # r'" "d = Suc d'" "starts_with [125] (skip_ws r')"
      "r = tl (skip_ws r')" "j = JObj []"
  | (obj) r' d' ps where "s = 123 # r'" "d = Suc d'" "\<not> starts_with [125] (skip_ws r')"
      "scan_members ph n d' (skip_ws r') = Inr (ps, r)" "j = JObj ps"
  | (atom) c r' where "s = c # r'" "c \<noteq> 34" "c \<noteq> 91" "c \<noteq> 123" "scan_atom ph s = Inr (j, r)"
proof -
  obtain c r' where s: "s = c # r'" using assms by (cases s) auto
  obtain d' where "d = 0 \<or> d = Suc d'" by (cases d) auto
  with assms s that show thesis
    by (auto simp: res_simps split: if_splits)
qed

lemma scan_elems_InrE:
  assumes "scan_elems ph (Suc n) d s = Inr (xs, r)"
  obtains
    (last) x r1 where "scan_value ph n d s = Inr (x, r1)" "skip_ws r1 = 93 # r" "xs = [x]"
  | (more) x r1 r2 ys where "scan_value ph n d s = Inr (x, r1)" "skip_ws r1 = 44 # r2"
      "scan_elems ph n d (skip_ws r2) = Inr (ys, r)" "xs = x # ys"
proof -
  obtain x r1 where x: "scan_value ph n d s = Inr (x, r1)"
    using assms by (auto simp: res_simps)
  show thesis
  proof (cases "skip_ws r1")
    case Nil
    with assms x show ?thesis by simp
  next
    case (Cons c r')
    with assms x that show ?thesis by (auto simp: res_simps split: if_splits)
  qed
qed

lemma scan_members_InrE:
  assumes "scan_members ph (Suc n) d s = Inr (ps, r)"
  obtains
    (last) s' k r1 r2 v r3 where "s = 34 # s'" "scan_string s' = Inr (k, r1)" "skip_ws r1 = 58 # r2"
      "scan_value ph n d (skip_ws r2) = Inr (v, r3)" "skip_ws r3 = 125 # r" "ps = [(k, v)]"
  | (more) s' k r1 r2 v r3 r4 qs where "s = 34 # s'" "scan_string s' = Inr (k, r1)"
      "skip_ws r1 = 58 # r2" "scan_value ph n d (skip_ws r2) = Inr (v, r3)" "skip_ws r3 = 44 # r4"
      "scan_members ph n d (skip_ws r4) = Inr (qs, r)" "ps = (k, v) # qs"
proof -
  obtain s' where s: "s = 34 # s'" using assms by (cases s) (auto split: if_splits)
  with assms obtain k r1 where k: "scan_string s' = Inr (k, r1)" by (auto simp: res_simps)
  show thesis
  proof (cases "skip_ws r1")
    case Nil
    with assms s k show ?thesis by simp
  next
    case (Cons c r2)
    with assms s k obtain v r3 where c: "c = 58" and v: "scan_value ph n d (skip_ws r2) = Inr (v, r3)"
      by (auto simp: res_simps split: if_splits)
    show ?thesis
    proof (cases "skip_ws r3")
      case Nil
      with assms s k Cons c v show ?thesis by simp
    next
      case (Cons e r4)
      with assms s k \<open>skip_ws r1 = c # r2\<close> c v that show ?thesis
        by (auto simp: res_simps split: if_splits)
    qed
  qed
qed

lemma scan_lengths:
  "scan_value ph n d s = Inr (j, r) \<Longrightarrow> length r < length s"
  "scan_elems ph n d s = Inr (xs, r) \<Longrightarrow> length r < length s"
  "scan_members ph n d s = Inr (ps, r) \<Longrightarrow> length r < length s"
proof (induction n arbitrary: d s j r xs ps)
  case (Suc n)
  {
    case 1
    then show ?case
    proof (cases rule: scan_value_InrE)
      case (list r' d' xs)
      then show ?thesis using Suc.IH(2) [OF list(4)] skip_ws_length [of r'] by simp
    next
      case (obj r' d' ps)
      then show ?thesis using Suc.IH(3) [OF obj(4)] skip_ws_length [of r'] by simp
    next
      case (empty_list r' d')
      then show ?thesis using skip_ws_length [of r'] by simp
    next
      case (empty_obj r' d')
      then show ?thesis using skip_ws_length [of r'] by simp
    qed (auto dest: scan_string_length scan_atom_length)
  next
    case 2
    then show ?case
    proof (cases rule: scan_elems_InrE)
      case (last x r1)
      then show ?thesis using Suc.IH(1) [OF last(1)] skip_ws_Cons [OF last(2)] by simp
    next
      case (more x r1 r2 ys)
      then show ?thesis
        using Suc.IH(1) [OF more(1)] skip_ws_Cons [OF more(2)] skip_ws_length [of r2] Suc.IH(2) [OF more(3)]
        by simp
    qed
  next
    case 3
    then show ?case
    proof (cases rule: scan_members_InrE)
      case (last s' k r1 r2 v r3)
      then show ?thesis
        using scan_string_length [OF last(2)] skip_ws_Cons [OF last(3)] skip_ws_length [of r2]
          Suc.IH(1) [OF last(4)] skip_ws_Cons [OF last(5)] by simp
    next
      case (more s' k r1 r2 v r3 r4 qs)
      then show ?thesis
        using scan_string_length [OF more(2)] skip_ws_Cons [OF more(3)] skip_ws_length [of r2]
          Suc.IH(1) [OF more(4)] skip_ws_Cons [OF more(5)] skip_ws_length [of r4] Suc.IH(3) [OF more(6)]
        by simp
    qed
  }
qed simp_all

section \<open>The recursion limit\<close>

lemma scan_depth_mono:
  "scan_value ph n d s \<noteq> Inl RecursionError \<Longrightarrow> d \<le> d' \<Longrightarrow> scan_value ph n d' s = scan_value ph n d s"
  "scan_elems ph n d s \<noteq> Inl RecursionError \<Longrightarrow> d \<le> d' \<Longrightarrow> scan_elems ph n d' s = scan_elems ph n d s"
  "scan_members ph n d s \<noteq> Inl RecursionError \<Longrightarrow> d \<le> d' \<Longrightarrow>
     scan_members ph n d' s = scan_members ph n d s"
proof (induction n arbitrary: d d' s)
  case (Suc n)
  {
    case 1
    show ?case
    proof (cases s)
      case s: (Cons c r)
      show ?thesis
      proof (cases d)
        case 0
        with 1 s show ?thesis by (auto split: if_splits)
      next
        case (Suc d1)
        then obtain d1' where d': "d' = Suc d1'" and le: "d1 \<le> d1'"
          using 1 by (cases d') auto
        have "scan_elems ph n d1' (skip_ws r) = scan_elems ph n d1 (skip_ws r)"
          if "c = 91" "\<not> starts_with [93] (skip_ws r)"
          using 1 s Suc that le by (intro Suc.IH(2)) (auto split: if_splits)
        moreover have "scan_members ph n d1' (skip_ws r) = scan_members ph n d1 (skip_ws r)"
          if "c = 123" "\<not> starts_with [125] (skip_ws r)"
          using 1 s Suc that le by (intro Suc.IH(3)) (auto split: if_splits)
        ultimately show ?thesis using s Suc d' by simp
      qed
    qed simp
  next
    case 2
    then have v: "scan_value ph n d' s = scan_value ph n d s"
      by (intro Suc.IH(1)) auto
    show ?case
    proof (cases "scan_value ph n d s")
      case (Inr p)
      obtain x r where p: "p = (x, r)" by (cases p)
      have "scan_elems ph n d' (skip_ws r') = scan_elems ph n d (skip_ws r')"
        if "skip_ws r = 44 # r'" for r'
        using 2 Inr p that by (intro Suc.IH(2)) auto
      with v Inr p show ?thesis by (auto split: list.splits)
    qed (simp add: v)
  next
    case 3
    show ?case
    proof (cases "s \<noteq> [] \<and> hd s = 34")
      case True
      then obtain r where s: "s = 34 # r" by (cases s) auto
      have v: "scan_value ph n d' (skip_ws r2) = scan_value ph n d (skip_ws r2)"
        if "scan_string r = Inr (k, r1)" "skip_ws r1 = 58 # r2" for k r1 r2
        using 3 s that by (intro Suc.IH(1)) auto
      have m: "scan_members ph n d' (skip_ws r4) = scan_members ph n d (skip_ws r4)"
        if "scan_string r = Inr (k, r1)" "skip_ws r1 = 58 # r2"
          "scan_value ph n d (skip_ws r2) = Inr (w, r3)" "skip_ws r3 = 44 # r4" for k r1 r2 w r3 r4
        using 3 s that by (intro Suc.IH(3)) auto
      have "res_bind (scan_value ph n d' (skip_ws r2)) (F d') = res_bind (scan_value ph n d (skip_ws r2)) (F d)"
        if "scan_string r = Inr (k, r1)" "skip_ws r1 = 58 # r2"
          "F = (\<lambda>d (v, r3). case skip_ws r3 of [] \<Rightarrow> Inl JSONDecodeError
               | e # r4 \<Rightarrow> if e = 125 then Inr ([(k, v)], r4)
                   else if e = 44 then res_bind (scan_members ph n d (skip_ws r4)) (\<lambda>(ps, r5). Inr ((k, v) # ps, r5))
                   else Inl JSONDecodeError)" for k r1 r2 F
        using v [OF that(1,2)] m [OF that(1,2)] that(3)
        by (cases "scan_value ph n d (skip_ws r2)") (auto split: list.splits)
      then show ?thesis
        by (cases "scan_string r") (auto simp: s split: list.splits)
    next
      case False
      then show ?thesis by (auto split: list.splits)
    qed
  }
qed simp_all

lemma scan_depth_least:
  "scan_value ph n d s = Inr (j, r) \<Longrightarrow> containers j \<le> d' \<Longrightarrow> scan_value ph n d' s = Inr (j, r)"
  "scan_elems ph n d s = Inr (xs, r) \<Longrightarrow> \<forall>x \<in> set xs. containers x \<le> d' \<Longrightarrow>
     scan_elems ph n d' s = Inr (xs, r)"
  "scan_members ph n d s = Inr (ps, r) \<Longrightarrow> \<forall>(k, v) \<in> set ps. containers v \<le> d' \<Longrightarrow>
     scan_members ph n d' s = Inr (ps, r)"
proof (induction n arbitrary: d d' s j r xs ps)
  case (Suc n)
  {
    case 1
    from 1(1) show ?case
    proof (cases rule: scan_value_InrE)
      case (list r' d1 xs)
      with 1 obtain d2 where "d' = Suc d2" "\<forall>x \<in> set xs. containers x \<le> d2"
        by (auto simp: containers_List simp del: containers.simps)
      with list Suc.IH(2) [OF list(4)] show ?thesis by simp
    next
      case (obj r' d1 ps)
      with 1 obtain d2 where "d' = Suc d2" "\<forall>(k, v) \<in> set ps. containers v \<le> d2"
        by (auto simp: containers_Obj simp del: containers.simps)
      with obj Suc.IH(3) [OF obj(4)] show ?thesis by simp
    next
      case (empty_list r' d1)
      with 1 show ?thesis by (cases d') auto
    next
      case (empty_obj r' d1)
      with 1 show ?thesis by (cases d') auto
    qed auto
  next
    case 2
    from 2(1) show ?case
    proof (cases rule: scan_elems_InrE)
      case (last x r1)
      with 2 Suc.IH(1) [OF last(1)] show ?thesis by simp
    next
      case (more x r1 r2 ys)
      with 2 Suc.IH(1) [OF more(1)] Suc.IH(2) [OF more(3)] show ?thesis by simp
    qed
  next
    case 3
    from 3(1) show ?case
    proof (cases rule: scan_members_InrE)
      case (last s' k r1 r2 v r3)
      with 3 Suc.IH(1) [OF last(4)] show ?thesis by simp
    next
      case (more s' k r1 r2 v r3 r4 qs)
      with 3 Suc.IH(1) [OF more(4)] Suc.IH(3) [OF more(6)] show ?thesis by simp
    qed
  }
qed simp_all

lemma scan_depth_bound:
  "scan_value ph n d s = Inr (j, r) \<Longrightarrow> containers j \<le> d"
  "scan_elems ph n d s = Inr (xs, r) \<Longrightarrow> x \<in> set xs \<Longrightarrow> containers x \<le> d"
  "scan_members ph n d s = Inr (ps, r) \<Longrightarrow> (k, v) \<in> set ps \<Longrightarrow> containers v \<le> d"
proof (induction n arbitrary: d s j r xs ps x k v)
  case (Suc n)
  {
    case 1
    then show ?case
    proof (cases rule: scan_value_InrE)
      case (list r' d1 xs)
      with Suc.IH(2) [OF list(4)] show ?thesis by (simp add: foldr_max_le)
    next
      case (obj r' d1 ps)
      with Suc.IH(3) [OF obj(4)] show ?thesis by (auto simp: foldr_max_le)
    next
      case (atom c r')
      then show ?thesis by (auto simp: scan_atom_def keyword_def scan_number_def Let_def res_simps
        split: if_splits option.splits prod.splits)
    qed auto
  next
    case 2
    from 2(1) show ?case
      by (cases rule: scan_elems_InrE) (use 2(2) Suc.IH(1,2) in auto)
  next
    case 3
    from 3(1) show ?case
      by (cases rule: scan_members_InrE) (use 3(2) Suc.IH(1,3) in auto)
  }
qed simp_all

section \<open>Enough fuel\<close>

lemma scan_string_no_fuel: "scan_string s \<noteq> Inl OutOfFuel"
proof (induction s rule: scan_string.induct)
  case (2 c s)
  have "scan_unit (c # s) \<noteq> Inl OutOfFuel"
    by (auto simp: scan_unit_def scan_u_def split: list.splits option.splits if_splits)
  with 2 show ?case by (auto simp: res_simps)
qed simp

lemma scan_atom_no_fuel: "(\<And>t. ph t \<noteq> Inl OutOfFuel) \<Longrightarrow> scan_atom ph s \<noteq> Inl OutOfFuel"
  by (auto simp: scan_atom_def scan_number_def Let_def res_simps split: option.splits prod.splits if_splits)

lemma scan_no_fuel:
  assumes ph: "\<And>t. ph t \<noteq> Inl OutOfFuel"
  shows "2 * length s < n \<Longrightarrow> scan_value ph n d s \<noteq> Inl OutOfFuel"
    and "2 * length s + 1 < n \<Longrightarrow> scan_elems ph n d s \<noteq> Inl OutOfFuel"
    and "2 * length s + 1 < n \<Longrightarrow> scan_members ph n d s \<noteq> Inl OutOfFuel"
proof (induction n arbitrary: d s)
  case (Suc n)
  {
    case 1
    show ?case
    proof (cases s)
      case (Cons c r)
      then have "2 * length (skip_ws r) + 1 < n" using 1 skip_ws_length [of r] by simp
      with Cons Suc.IH(2,3) show ?thesis
        by (auto simp: res_simps scan_string_no_fuel scan_atom_no_fuel ph)
    qed simp
  next
    case 2
    have "scan_elems ph n d (skip_ws r') \<noteq> Inl OutOfFuel"
      if "scan_value ph n d s = Inr (x, r)" "skip_ws r = c # r'" for x r c r'
      using 2 scan_lengths(1) [OF that(1)] skip_ws_Cons [OF that(2)] skip_ws_length [of r']
      by (intro Suc.IH(2)) simp
    moreover have "scan_value ph n d s \<noteq> Inl OutOfFuel"
      using 2 by (intro Suc.IH(1)) simp
    ultimately show ?case by (auto simp: res_simps split: list.splits)
  next
    case 3
    have v: "scan_value ph n d (skip_ws r2) \<noteq> Inl OutOfFuel"
      if "s = q # r" "scan_string r = Inr (k, r1)" "skip_ws r1 = c # r2" for q r k r1 c r2
      using 3 that(1) scan_string_length [OF that(2)] skip_ws_Cons [OF that(3)] skip_ws_length [of r2]
      by (intro Suc.IH(1)) simp
    have m: "scan_members ph n d (skip_ws r4) \<noteq> Inl OutOfFuel"
      if "s = q # r" "scan_string r = Inr (k, r1)" "skip_ws r1 = c # r2"
        "scan_value ph n d (skip_ws r2) = Inr (w, r3)" "skip_ws r3 = e # r4" for q r k r1 c r2 w r3 e r4
      using 3 that(1) scan_string_length [OF that(2)] skip_ws_Cons [OF that(3)] skip_ws_length [of r2]
        scan_lengths(1) [OF that(4)] skip_ws_Cons [OF that(5)] skip_ws_length [of r4]
      by (intro Suc.IH(3)) simp
    show ?case
      by (auto simp: res_simps scan_string_no_fuel split: list.splits dest: v m)
  }
qed simp_all

declare scan_value.simps [simp del] scan_elems.simps [simp del] scan_members.simps [simp del]

lemma parse_raw_no_fuel: "(\<And>t. ph t \<noteq> Inl OutOfFuel) \<Longrightarrow> parse_raw ph d s \<noteq> Inl OutOfFuel"
  using scan_no_fuel(1) [of ph "skip_ws s" "Suc (2 * length s)" d] skip_ws_length [of s]
  by (auto simp: parse_raw_def res_simps)

lemma loads_no_fuel_error: "(\<And>t. ph t \<noteq> Inl OutOfFuel) \<Longrightarrow> loads ph d s \<noteq> Inl OutOfFuel"
  using parse_raw_no_fuel by (auto simp: loads_def res_simps)

lemma parse_raw_mono:
  "parse_raw ph d s \<noteq> Inl RecursionError \<Longrightarrow> d \<le> d' \<Longrightarrow> parse_raw ph d' s = parse_raw ph d s"
  using scan_depth_mono(1) [of ph "Suc (2 * length s)" d "skip_ws s" d']
  by (cases "scan_value ph (Suc (2 * length s)) d (skip_ws s) = Inl RecursionError")
    (auto simp: parse_raw_def)

lemma parse_raw_InrE:
  assumes "parse_raw ph d s = Inr j"
  obtains r where "\<not> starts_with [65279] s" "skip_ws r = []"
    "scan_value ph (Suc (2 * length s)) d (skip_ws s) = Inr (j, r)"
  using assms by (auto simp: parse_raw_def res_simps split: if_splits)

lemma parse_raw_least:
  assumes "parse_raw ph d s = Inr j" and "containers j \<le> d'" shows "parse_raw ph d' s = Inr j"
  using assms(1)
proof (cases rule: parse_raw_InrE)
  case (1 r)
  with scan_depth_least(1) [OF 1(3) assms(2)] show ?thesis by (simp add: parse_raw_def)
qed

lemma parse_raw_bound: "parse_raw ph d s = Inr j \<Longrightarrow> containers j \<le> d"
  by (auto elim!: parse_raw_InrE dest: scan_depth_bound(1))

section \<open>Reading back what was written\<close>

definition scalar :: "nat \<Rightarrow> bool" where
  "scalar c \<longleftrightarrow> c < 1114112 \<and> \<not> (55296 \<le> c \<and> c < 57344)"

lemma hex_val_digit: "n < 16 \<Longrightarrow> hex_val (hex_digit n) = Some n"
  by (auto simp: hex_val_def hex_digit_def)

lemma hex4_u_escape:
  assumes "n < 65536"
  shows "hex4 (hex_digit (n div 4096) # hex_digit (n div 256 mod 16) # hex_digit (n div 16 mod 16) #
    hex_digit (n mod 16) # t) = Some (n, t)"
proof -
  have "n div 4096 < 16" using assms by simp
  moreover have "4096 * (n div 4096) + 256 * (n div 256 mod 16) + 16 * (n div 16 mod 16) + n mod 16 = n"
  proof -
    have "n div 4096 = n div 256 div 16" "n div 256 = n div 16 div 16"
      by (simp_all add: div_mult2_eq [symmetric])
    then show ?thesis
      using mult_div_mod_eq [of 16 n] mult_div_mod_eq [of 16 "n div 16"] mult_div_mod_eq [of 16 "n div 256"]
      by linarith
  qed
  ultimately show ?thesis by (simp add: hex4_def hex_val_digit)
qed

lemma scan_unit_esc: "scalar c \<Longrightarrow> scan_unit (esc c @ t) = Inr (c, t)"
proof -
  assume c: "scalar c"
  have u: "scan_unit (u_escape n @ t) = Inr (n, t)" if "n < 65536" "\<not> is_high n" for n
    using that by (simp add: u_escape_def scan_unit_def scan_u_def hex4_u_escape)
  have p: "scan_unit (u_escape (55296 + (c - 65536) div 1024) @ u_escape (56320 + (c - 65536) mod 1024) @ t)
      = Inr (c, t)" if "65536 \<le> c"
  proof -
    have hi: "55296 + (c - 65536) div 1024 < 56320" using c by (auto simp: scalar_def)
    have lo: "56320 + (c - 65536) mod 1024 < 57344" by simp
    have "is_high (55296 + (c - 65536) div 1024)" using hi by (simp add: is_high_def)
    moreover have "low_follow (u_escape (56320 + (c - 65536) mod 1024) @ t) =
        Some (56320 + (c - 65536) mod 1024, t)"
      using lo by (simp add: low_follow_def u_escape_def hex4_u_escape is_low_def)
    moreover have "65536 + (c - 65536) div 1024 * 1024 + (c - 65536) mod 1024 = c"
      using that by simp
    ultimately show ?thesis
      using hi by (simp add: u_escape_def [of "55296 + (c - 65536) div 1024"] scan_unit_def scan_u_def hex4_u_escape)
  qed
  show ?thesis
  proof (cases "c < 65536")
    case True
    then have "\<not> is_high c" using c by (auto simp: scalar_def is_high_def)
    with True u [of c] show ?thesis
      by (auto simp: esc_def scan_unit_def simple_unescape_def)
  next
    case False
    with p show ?thesis by (simp add: esc_def)
  qed
qed

lemma esc_Cons: "\<exists>h t. esc c = h # t \<and> h \<noteq> 34"
  by (auto simp: esc_def u_escape_def)

lemma scan_string_dump:
  "\<forall>c \<in> set s. scalar c \<Longrightarrow> scan_string (concat (map esc s) @ 34 # rest) = Inr (s, rest)"
proof (induction s)
  case (Cons c s)
  obtain h t where h: "esc c = h # t" "h \<noteq> 34" using esc_Cons by blast
  then have "scan_unit (h # t @ concat (map esc s) @ 34 # rest) = Inr (c, concat (map esc s) @ 34 # rest)"
    using scan_unit_esc [of c "concat (map esc s) @ 34 # rest"] Cons.prems by simp
  with h Cons show ?case by simp
qed simp

subsection \<open>Numbers\<close>

definition stops :: "pystr \<Rightarrow> bool" where
  "stops s \<longleftrightarrow> s = [] \<or> \<not> is_digit (hd s) \<and> hd s \<noteq> 46 \<and> hd s \<noteq> 101 \<and> hd s \<noteq> 69"

lemma dec_nat_digits: "\<forall>c \<in> set (dec_nat n). is_digit c"
proof (induction n rule: dec_nat.induct)
  case (1 n)
  then show ?case by (cases "n < 10") (auto simp: dec_nat.simps [of n] is_digit_def)
qed

lemma dec_nat_ne [simp]: "dec_nat n \<noteq> []"
  by (subst dec_nat.simps) simp

lemma dec_nat_hd: "\<exists>c t. dec_nat n = c # t \<and> (c = 48 \<longrightarrow> t = [])"
proof (induction n rule: dec_nat.induct)
  case (1 n)
  show ?case
  proof (cases "n < 10")
    case True
    then show ?thesis by (simp add: dec_nat.simps [of n])
  next
    case False
    then obtain c t where ct: "dec_nat (n div 10) = c # t" "c = 48 \<longrightarrow> t = []" using 1 by blast
    have "c \<noteq> 48"
    proof
      assume "c = 48"
      with ct have "dec_nat (n div 10) = [48]" by simp
      then have "n div 10 < 10 \<and> n div 10 = 0"
        by (subst (asm) dec_nat.simps) (auto split: if_splits)
      with False show False by arith
    qed
    with ct False show ?thesis by (simp add: dec_nat.simps [of n])
  qed
qed

lemma digits_val_snoc: "digits_val (ds @ [c]) = 10 * digits_val ds + int (c - 48)"
  by (simp add: digits_val_def)

lemma digits_val_dec_nat: "digits_val (dec_nat n) = int n"
proof (induction n rule: dec_nat.induct)
  case (1 n)
  show ?case
  proof (cases "n < 10")
    case True
    then show ?thesis by (simp add: dec_nat.simps [of n] digits_val_def)
  next
    case False
    with 1 have "digits_val (dec_nat n) = 10 * int (n div 10) + int (n mod 10)"
      by (simp add: dec_nat.simps [of n] digits_val_snoc)
    then show ?thesis by (metis mult_div_mod_eq of_nat_add of_nat_mult of_nat_numeral)
  qed
qed

lemma int_of_token_dec_int [simp]: "int_of_token (dec_int i) = i"
proof -
  obtain c t where ct: "dec_nat (nat i) = c # t" using dec_nat_hd by blast
  then have "c \<noteq> 45" using dec_nat_digits [of "nat i"] by (auto simp: is_digit_def)
  then show ?thesis
    using digits_val_dec_nat [of "nat i"] digits_val_dec_nat [of "nat (- i)"] ct
    by (auto simp: int_of_token_def dec_int_def)
qed

lemma takeWhile_stop: "\<forall>c \<in> set xs. P c \<Longrightarrow> rest = [] \<or> \<not> P (hd rest) \<Longrightarrow>
    takeWhile P (xs @ rest) = xs \<and> dropWhile P (xs @ rest) = rest"
  by (cases rest) auto

lemma scan_number_dec_int:
  assumes st: "stops rest" and ph: "ph (dec_int i) = Inr i"
  shows "scan_number ph (dec_int i @ rest) = Inr (JInt i, rest)"
proof -
  define sg where "sg = (if i < 0 then [45::nat] else [])"
  define n where "n = nat \<bar>i\<bar>"
  have di: "dec_int i = sg @ dec_nat n"
    by (simp add: dec_int_def sg_def n_def)
  obtain c t where ct: "dec_nat n = c # t" "c = 48 \<longrightarrow> t = []" using dec_nat_hd by blast
  have dg: "\<forall>x \<in> set (c # t). is_digit x" using dec_nat_digits [of n] ct by simp
  then have "c \<noteq> 45" by (auto simp: is_digit_def)
  have "scan_int_part (dec_int i @ rest) = Some (sg, dec_nat n, rest)"
    using takeWhile_stop [OF dg, of rest] dg st ct \<open>c \<noteq> 45\<close>
    by (auto simp: scan_int_part_def di sg_def stops_def)
  moreover have "scan_frac rest = ([], rest)" "scan_exp rest = ([], rest)"
    using st by (auto simp: scan_frac_def scan_exp_def stops_def split: list.splits)
  ultimately show ?thesis using ph di by (simp add: scan_number_def)
qed

lemma dec_int_Cons: "\<exists>c t. dec_int i = c # t \<and> (c = 45 \<and> t \<noteq> [] \<and> is_digit (hd t) \<or> is_digit c)"
proof -
  obtain c t where ct: "dec_nat (nat \<bar>i\<bar>) = c # t" using dec_nat_hd by blast
  then have "is_digit c" using dec_nat_digits [of "nat \<bar>i\<bar>"] by simp
  with ct show ?thesis by (auto simp: dec_int_def)
qed

lemma keyword_dec_int: "keyword (dec_int i @ rest) = None"
  using dec_int_Cons [of i]
  by (auto simp: keyword_def starts_with_def S_def is_digit_def neq_Nil_conv)

subsection \<open>Values\<close>

definition str_ok :: "pystr \<Rightarrow> bool" where
  "str_ok s \<longleftrightarrow> (\<forall>c \<in> set s. scalar c)"

text \<open>
  The values that survive a round trip: no float (its text is \<open>repr\<close>'s), strings without lone
  surrogates, integers the parse hook accepts.
\<close>

fun plain :: "(pystr \<Rightarrow> py_exc + int) \<Rightarrow> json \<Rightarrow> bool" where
  "plain ph (JInt i) = (ph (dec_int i) = Inr i)"
| "plain ph (JFloat _) = False"
| "plain ph (JStr s) = str_ok s"
| "plain ph (JList xs) = (\<forall>x \<in> set xs. plain ph x)"
| "plain ph (JObj ps) = (\<forall>(k, v) \<in> set ps. str_ok k \<and> plain ph v)"
| "plain ph _ = True"

lemma skip_ws_gap: "\<forall>c \<in> set w. is_ws c \<Longrightarrow> skip_ws (w @ s) = skip_ws s"
  by (induction w) (auto simp: skip_ws_def)

lemma skip_ws_stop [simp]: "\<not> is_ws c \<Longrightarrow> skip_ws (c # s) = c # s"
  by (simp add: skip_ws_def)

lemma newline_ws: "\<forall>c \<in> set (newline ind lvl). is_ws c"
  by (auto simp: newline_def is_ws_def split: option.splits)

lemma item_sep_Cons: "\<exists>w. item_sep ind lvl = 44 # w \<and> (\<forall>c \<in> set w. is_ws c)"
  using newline_ws [of ind lvl] by (auto simp: item_sep_def is_ws_def split: option.splits)

lemma stops_ws: "\<forall>c \<in> set w. is_ws c \<Longrightarrow> stops s \<Longrightarrow> stops (w @ s)"
  by (cases w) (auto simp: stops_def is_ws_def is_digit_def)

lemma dump_Cons:
  "plain ph j \<Longrightarrow> \<exists>c t. dump fr ind lvl j = c # t \<and> \<not> is_ws c \<and> c \<noteq> 93 \<and> c \<noteq> 125 \<and> c < 128"
proof (cases j)
  case (JInt i)
  then show ?thesis using dec_int_Cons [of i] by (auto simp: is_digit_def is_ws_def)
qed (auto simp: S_def is_ws_def dump_string_def)

lemma scan_elems_join:
  assumes sep: "sep = 44 # w" "\<forall>c \<in> set w. is_ws c" and nl: "\<forall>c \<in> set nl. is_ws c"
    and hd: "\<And>x. x \<in> set xs \<Longrightarrow> \<exists>c t. f x = c # t \<and> \<not> is_ws c"
    and ok: "\<And>x n rest. x \<in> set xs \<Longrightarrow> stops rest \<Longrightarrow> 2 * length (f x @ rest) < n \<Longrightarrow>
        scan_value ph n d (f x @ rest) = Inr (x, rest)"
    and ne: "xs \<noteq> []"
    and fuel: "2 * length (join sep (map f xs) @ nl @ 93 # rest) + 1 < n"
  shows "scan_elems ph n d (join sep (map f xs) @ nl @ 93 # rest) = Inr (xs, rest)"
  using ne hd ok fuel
proof (induction xs arbitrary: n rule: induct_list012)
  case (2 x)
  then obtain m where n: "n = Suc m" by (cases n) auto
  have "stops (nl @ 93 # rest)" by (rule stops_ws [OF nl]) (simp add: stops_def is_digit_def)
  then have "scan_value ph m d (f x @ nl @ 93 # rest) = Inr (x, nl @ 93 # rest)"
    using 2 n by (intro 2(3)) auto
  then show ?case
    by (simp add: n scan_elems.simps skip_ws_gap [OF nl] is_ws_def)
next
  case (3 x y xs)
  then obtain m where n: "n = Suc m" by (cases n) auto
  let ?more = "join sep (map f (y # xs)) @ nl @ 93 # rest"
  obtain c t where "f y = c # t" "\<not> is_ws c" using 3(4) [of y] by auto
  then have sk: "skip_ws (w @ ?more) = ?more"
    using skip_ws_gap [OF sep(2)] by (cases xs) auto
  have fx: "f x \<noteq> []" using 3(4) [of x] by auto
  have "scan_value ph m d (f x @ sep @ ?more) = Inr (x, sep @ ?more)"
    using 3 n sep(1) by (intro 3(5)) (auto simp: stops_def is_digit_def)
  moreover have "scan_elems ph m d ?more = Inr (y # xs, rest)"
    using 3(4,5,6) n sep(1) fx by (intro 3(2)) (auto simp: neq_Nil_conv)
  ultimately show ?case
    using sk by (simp add: n scan_elems.simps sep(1) is_ws_def)
qed simp

lemma scan_members_join:
  assumes sep: "sep = 44 # w" "\<forall>c \<in> set w. is_ws c" and nl: "\<forall>c \<in> set nl. is_ws c"
    and hd: "\<And>k v. (k, v) \<in> set ps \<Longrightarrow> str_ok k \<and> (\<exists>c t. f v = c # t \<and> \<not> is_ws c)"
    and ok: "\<And>k v n rest. (k, v) \<in> set ps \<Longrightarrow> stops rest \<Longrightarrow> 2 * length (f v @ rest) < n \<Longrightarrow>
        scan_value ph n d (f v @ rest) = Inr (v, rest)"
    and ne: "ps \<noteq> []"
    and g: "g = (\<lambda>(k, v). dump_string k @ [58, 32] @ f v)"
    and fuel: "2 * length (join sep (map g ps) @ nl @ 125 # rest) + 1 < n"
  shows "scan_members ph n d (join sep (map g ps) @ nl @ 125 # rest) = Inr (ps, rest)"
proof -
  have key: "scan_members ph (Suc m) d (g (k, v) @ t) =
      res_bind (scan_value ph m d (f v @ t)) (\<lambda>(u, r3). case skip_ws r3 of
          [] \<Rightarrow> Inl JSONDecodeError
        | e # r4 \<Rightarrow> if e = 125 then Inr ([(k, u)], r4)
            else if e = 44 then res_bind (scan_members ph m d (skip_ws r4)) (\<lambda>(qs, r5). Inr ((k, u) # qs, r5))
            else Inl JSONDecodeError)" if kv: "(k, v) \<in> set ps" for k v t m
  proof -
    obtain c u where "f v = c # u" "\<not> is_ws c" using hd [OF kv] by auto
    then have "skip_ws (32 # f v @ t) = f v @ t" by (simp add: skip_ws_def is_ws_def)
    moreover have "scan_string (concat (map esc k) @ 34 # 58 # 32 # f v @ t) = Inr (k, 58 # 32 # f v @ t)"
      using scan_string_dump [of k] hd [OF kv] by (simp add: str_ok_def)
    ultimately show ?thesis
      by (simp add: g dump_string_def scan_members.simps is_ws_def)
  qed
  show ?thesis
    using ne hd ok fuel key
  proof (induction ps arbitrary: n rule: induct_list012)
    case (2 p)
    obtain k v where p: "p = (k, v)" by (cases p)
    obtain m where n: "n = Suc m" using 2 by (cases n) auto
    have "stops (nl @ 125 # rest)" by (rule stops_ws [OF nl]) (simp add: stops_def is_digit_def)
    then have "scan_value ph m d (f v @ nl @ 125 # rest) = Inr (v, nl @ 125 # rest)"
      using 2 n p by (intro 2(3)) (auto simp: g)
    then show ?case
      using 2(5) [of k v m "nl @ 125 # rest"] by (simp add: n p skip_ws_gap [OF nl] is_ws_def)
  next
    case (3 p q ps)
    obtain k v where p: "p = (k, v)" by (cases p)
    obtain m where n: "n = Suc m" using 3 by (cases n) auto
    let ?more = "join sep (map g (q # ps)) @ nl @ 125 # rest"
    have "\<exists>t. g q = 34 # t" by (cases q) (simp add: g dump_string_def)
    then have sk: "skip_ws (w @ ?more) = ?more"
      using skip_ws_gap [OF sep(2)] by (cases ps) (auto simp: is_ws_def)
    have "scan_value ph m d (f v @ sep @ ?more) = Inr (v, sep @ ?more)"
      using 3(6) n sep(1) p by (intro 3(5)) (auto simp: stops_def is_digit_def g)
    moreover have "scan_members ph m d ?more = Inr (q # ps, rest)"
    proof (rule 3(2))
      show "2 * length (join sep (map g (q # ps)) @ nl @ 125 # rest) + 1 < m"
        using 3(6) n sep(1) p by (simp add: g dump_string_def)
      show "str_ok k' \<and> (\<exists>c t. f v' = c # t \<and> \<not> is_ws c)" if "(k', v') \<in> set (q # ps)" for k' v'
        using 3(4) [of k' v'] that by simp
      show "scan_value ph n' d (f v' @ rest') = Inr (v', rest')"
        if "(k', v') \<in> set (q # ps)" "stops rest'" "2 * length (f v' @ rest') < n'" for k' v' n' rest'
        using 3(5) [of k' v' rest' n'] that by simp
    qed (use 3(7) in auto)
    ultimately show ?case
      using sk 3(7) [of k v m "sep @ ?more"] by (simp add: n p sep(1) is_ws_def)
  qed simp
qed

lemma scan_dump:
  "plain ph j \<Longrightarrow> containers j \<le> d \<Longrightarrow> stops rest \<Longrightarrow> 2 * length (dump fr ind lvl j @ rest) < n \<Longrightarrow>
     scan_value ph n d (dump fr ind lvl j @ rest) = Inr (j, rest)"
proof (induction j arbitrary: d lvl rest n rule: json_induct)
  case (JInt i)
  obtain m where n: "n = Suc m" using JInt.prems by (cases n) auto
  have "scan_atom ph (dec_int i @ rest) = Inr (JInt i, rest)"
    using JInt.prems by (simp add: scan_atom_def keyword_dec_int scan_number_dec_int)
  with n dec_int_Cons [of i] show ?case by (auto simp: scan_value.simps is_digit_def)
next
  case (JStr s)
  obtain m where n: "n = Suc m" using JStr.prems by (cases n) auto
  with JStr.prems show ?case
    by (simp add: dump_string_def scan_value.simps scan_string_dump str_ok_def)
next
  case (JList xs)
  obtain m where n: "n = Suc m" using JList.prems by (cases n) auto
  obtain d' where d': "d = Suc d'" "\<forall>x \<in> set xs. containers x \<le> d'"
    using JList.prems(2) by (auto simp: containers_List simp del: containers.simps)
  show ?case
  proof (cases "xs = []")
    case True
    with n d' show ?thesis by (simp add: scan_value.simps starts_with_def is_ws_def)
  next
    case False
    define f where "f = dump fr ind (Suc lvl)"
    let ?nl = "newline ind lvl"
    let ?t = "join (item_sep ind (Suc lvl)) (map f xs) @ ?nl @ 93 # rest"
    obtain w where w: "item_sep ind (Suc lvl) = 44 # w" "\<forall>c \<in> set w. is_ws c"
      using item_sep_Cons by blast
    have hd: "\<exists>c t. f x = c # t \<and> \<not> is_ws c \<and> c \<noteq> 93 \<and> c \<noteq> 125" if "x \<in> set xs" for x
      using dump_Cons [of ph x fr ind "Suc lvl"] JList.prems(1) that by (auto simp: f_def)
    obtain y ys where y: "xs = y # ys" using False by (cases xs) auto
    obtain c t where ct: "f y = c # t" "\<not> is_ws c" "c \<noteq> 93" using hd [of y] y by auto
    then have t: "skip_ws (newline ind (Suc lvl) @ ?t) = ?t" "\<not> starts_with [93] ?t"
      using skip_ws_gap [OF newline_ws] y by (cases ys; simp add: starts_with_def)+
    have "scan_elems ph m d' ?t = Inr (xs, rest)"
    proof (rule scan_elems_join [OF w newline_ws])
      show "scan_value ph n d' (f x @ rest) = Inr (x, rest)"
        if "x \<in> set xs" "stops rest" "2 * length (f x @ rest) < n" for x n rest
        unfolding f_def using that JList.prems(1) d'(2) by (intro JList.IH) (auto simp: f_def)
      show "2 * length ?t + 1 < m"
        using JList.prems(4) n False by (simp add: f_def)
    qed (use hd False in blast)+
    with n d' t False show ?thesis by (simp add: scan_value.simps f_def)
  qed
next
  case (JObj ps)
  obtain m where n: "n = Suc m" using JObj.prems by (cases n) auto
  obtain d' where d': "d = Suc d'" "\<forall>(k, v) \<in> set ps. containers v \<le> d'"
    using JObj.prems(2) by (auto simp: containers_Obj simp del: containers.simps)
  show ?case
  proof (cases "ps = []")
    case True
    with n d' show ?thesis by (simp add: scan_value.simps starts_with_def is_ws_def)
  next
    case False
    define f where "f = dump fr ind (Suc lvl)"
    define g where "g = (\<lambda>(k, v). dump_string k @ [58, 32] @ f v)"
    let ?nl = "newline ind lvl"
    let ?t = "join (item_sep ind (Suc lvl)) (map g ps) @ ?nl @ 125 # rest"
    obtain w where w: "item_sep ind (Suc lvl) = 44 # w" "\<forall>c \<in> set w. is_ws c"
      using item_sep_Cons by blast
    obtain y ys where y: "ps = y # ys" using False by (cases ps) auto
    obtain t where "g y = 34 # t" by (cases y) (simp add: g_def dump_string_def)
    then have t: "skip_ws (newline ind (Suc lvl) @ ?t) = ?t" "\<not> starts_with [125] ?t"
      using skip_ws_gap [OF newline_ws] y by (cases ys; simp add: starts_with_def is_ws_def)+
    have "scan_members ph m d' ?t = Inr (ps, rest)"
    proof (rule scan_members_join [OF w newline_ws])
      show "str_ok k \<and> (\<exists>c t. f v = c # t \<and> \<not> is_ws c)" if "(k, v) \<in> set ps" for k v
      proof -
        have "str_ok k" "plain ph v" using JObj.prems(1) that by auto
        with dump_Cons [of ph v fr ind "Suc lvl"] show ?thesis by (auto simp: f_def)
      qed
      show "scan_value ph n d' (f v @ rest) = Inr (v, rest)"
        if "(k, v) \<in> set ps" "stops rest" "2 * length (f v @ rest) < n" for k v n rest
        unfolding f_def using that JObj.prems(1) d'(2) by (intro JObj.IH [OF that(1)]) (auto simp: f_def)
      show "2 * length ?t + 1 < m"
        using JObj.prems(4) n False by (simp add: f_def g_def)
    qed (use False g_def in auto)
    with n d' t False show ?thesis by (simp add: scan_value.simps f_def g_def)
  qed
next
  case JNull
  then obtain m where n: "n = Suc m" by (cases n) auto
  then show ?case by (simp add: scan_value.simps scan_atom_def keyword_def starts_with_def S_def)
next
  case (JBool b)
  then obtain m where n: "n = Suc m" by (cases n) auto
  then show ?case by (simp add: scan_value.simps scan_atom_def keyword_def starts_with_def S_def)
qed simp

lemma plain_canon [simp]: "plain ph (canon j) = plain ph j"
  by (induction j rule: json_induct) auto

lemma containers_canon [simp]: "containers (canon j) = containers j"
proof -
  have "containers (canon j) \<le> n \<longleftrightarrow> containers j \<le> n" for n
  proof (induction j arbitrary: n rule: json_induct)
    case (JList xs)
    then show ?case by (cases n) (auto simp: foldr_max_le)
  next
    case (JObj ps)
    then show ?case by (cases n) (auto simp: foldr_max_le)
  qed auto
  then show ?thesis by (meson le_antisym order_refl)
qed

lemma nesting_canon [simp]: "nesting (canon j) = nesting j"
proof -
  have "nesting (canon j) \<le> n \<longleftrightarrow> nesting j \<le> n" for n
  proof (induction j arbitrary: n rule: json_induct)
    case (JList xs)
    then show ?case by (cases n) (auto simp: foldr_max_le)
  next
    case (JObj ps)
    then show ?case by (cases n) (auto simp: foldr_max_le)
  qed auto
  then show ?thesis by (meson le_antisym order_refl)
qed

lemma collapse_id: "wf_json j \<Longrightarrow> collapse j = j"
proof (induction j rule: json_induct)
  case (JList xs)
  then show ?case by (simp add: map_idI)
next
  case (JObj ps)
  have "map (\<lambda>(k, v). (k, collapse v)) ps = ps"
    using JObj by (intro map_idI) auto
  with JObj show ?case by (simp add: dict_of_id)
qed auto

lemma wf_collapse [simp]: "wf_json (collapse j)"
proof (induction j rule: json_induct)
  case (JObj ps)
  then show ?case
    using set_dict_of [of "map (\<lambda>(k, v). (k, collapse v)) ps"] by fastforce
qed auto

lemma loads_wf: "loads ph d s = Inr j \<Longrightarrow> wf_json j"
  by (auto simp: loads_def res_simps)

lemma parse_raw_dump_ws:
  assumes "plain ph j" and "containers j \<le> d" and "\<forall>x \<in> set w. is_ws x"
  shows "parse_raw ph d (dump fr ind 0 j @ w) = Inr j"
proof -
  obtain c t where c: "dump fr ind 0 j = c # t" "\<not> is_ws c" "c < 128"
    using dump_Cons [OF assms(1)] by blast
  have "stops w" using stops_ws [OF assms(3), of "[]"] by (simp add: stops_def)
  then have "scan_value ph (Suc (2 * length (dump fr ind 0 j @ w))) d (dump fr ind 0 j @ w) = Inr (j, w)"
    using assms by (intro scan_dump) auto
  moreover have "skip_ws w = []" using skip_ws_gap [OF assms(3), of "[]"] by (simp add: skip_ws_def)
  ultimately show ?thesis
    using c by (simp add: parse_raw_def starts_with_def)
qed

lemma parse_raw_dump:
  "plain ph j \<Longrightarrow> containers j \<le> d \<Longrightarrow> parse_raw ph d (dump fr ind 0 j) = Inr j"
  using parse_raw_dump_ws [of ph j d "[]"] by simp

lemma loads_dumps_ws:
  "plain ph j \<Longrightarrow> wf_json j \<Longrightarrow> containers j \<le> d \<Longrightarrow> \<forall>x \<in> set w. is_ws x \<Longrightarrow>
     loads ph d (dumps fr j @ w) = Inr (canon j)"
  by (simp add: loads_def dumps_def parse_raw_dump_ws collapse_id)

lemma loads_dump:
  "plain ph j \<Longrightarrow> wf_json j \<Longrightarrow> containers j \<le> d \<Longrightarrow> loads ph d (dump fr ind 0 j) = Inr j"
  by (simp add: loads_def parse_raw_dump collapse_id)

lemma loads_dumps:
  "plain ph j \<Longrightarrow> wf_json j \<Longrightarrow> containers j \<le> d \<Longrightarrow> loads ph d (dumps fr j) = Inr (canon j)"
  by (simp add: dumps_def loads_dump)

lemma loads_dumps_indent2:
  "plain ph j \<Longrightarrow> wf_json j \<Longrightarrow> containers j \<le> d \<Longrightarrow> loads ph d (dumps_indent2 fr j) = Inr (canon j)"
  by (simp add: dumps_indent2_def loads_dump)

subsection \<open>One line of printable ASCII\<close>

lemma hex_digit_ascii: "n < 16 \<Longrightarrow> 32 \<le> hex_digit n \<and> hex_digit n \<le> 126"
  by (auto simp: hex_digit_def)

lemma u_escape_ascii: "n < 65536 \<Longrightarrow> \<forall>x \<in> set (u_escape n). 32 \<le> x \<and> x \<le> 126"
  using less_mult_imp_div_less [of n 16 4096]
  by (simp add: u_escape_def hex_digit_ascii)

lemma esc_ascii:
  assumes "c < 1114112" and "x \<in> set (esc c)"
  shows "32 \<le> x \<and> x \<le> 126"
proof -
  have hi: "55296 + (c - 65536) div 1024 < 65536" using assms(1) by auto
  have lo: "56320 + (c - 65536) mod 1024 < 65536" by auto
  have "\<forall>x \<in> set (esc c). 32 \<le> x \<and> x \<le> 126"
    using u_escape_ascii [of c] u_escape_ascii [OF hi] u_escape_ascii [OF lo]
    by (simp add: esc_def ball_Un)
  with assms(2) show ?thesis by blast
qed

lemma join_set: "set (join s xs) \<subseteq> set s \<union> (\<Union>x \<in> set xs. set x)"
  by (induction s xs rule: join.induct) auto

lemma dump_string_ascii: "str_ok s \<Longrightarrow> x \<in> set (dump_string s) \<Longrightarrow> 32 \<le> x \<and> x \<le> 126"
  using esc_ascii by (auto simp: dump_string_def str_ok_def scalar_def)

lemma dec_int_ascii: "x \<in> set (dec_int i) \<Longrightarrow> 32 \<le> x \<and> x \<le> 126"
  using dec_nat_digits [of "nat i"] dec_nat_digits [of "nat (- i)"]
  by (auto simp: dec_int_def is_digit_def split: if_splits)

end
