(* ===== verification/Fault_Config.thy ===== *)
theory Fault_Config
  imports Json_Roundtrip
begin

text \<open>
  The fault configuration of the simulated device (\<open>simulator/simulator.py\<close>): the record, the
  loading of a manifest file (\<open>load_fault_config\<close>, with the hook \<open>reject_duplicate_keys\<close>), and
  the combination of \<open>--fault\<close>, \<open>--fault-delay-ms\<close> and \<open>--fault-config\<close>
  (\<open>resolve_fault_config\<close>).  A \<open>SystemExit\<close> is a \<open>config_error\<close>, one constructor per message.
\<close>

record fault_config =
  response_delay_ms :: int
  drop_connection :: bool
  malformed_response :: bool
  startup_delay_ms :: int
  exit_after_requests :: "int option"

definition no_faults :: fault_config where
  "no_faults = \<lparr>response_delay_ms = 0, drop_connection = False, malformed_response = False,
     startup_delay_ms = 0, exit_after_requests = None\<rparr>"

definition MAX_DELAY_MS :: int where
  "MAX_DELAY_MS = 86400000"

definition DEFAULT_FAULT_DELAY_MS :: int where
  "DEFAULT_FAULT_DELAY_MS = 400"

text \<open>The names \<open>--fault\<close> accepts (\<open>argparse\<close> refuses any other).\<close>

datatype fault_name =
  Delayed_response | Dropped_connection | Malformed_response | Startup_delay | Process_termination

definition k_response_delay_ms :: pystr where "k_response_delay_ms = S ''response_delay_ms''"
definition k_drop_connection :: pystr where "k_drop_connection = S ''drop_connection''"
definition k_malformed_response :: pystr where "k_malformed_response = S ''malformed_response''"
definition k_startup_delay_ms :: pystr where "k_startup_delay_ms = S ''startup_delay_ms''"
definition k_exit_after_requests :: pystr where "k_exit_after_requests = S ''exit_after_requests''"

lemmas config_key_defs = k_response_delay_ms_def k_drop_connection_def k_malformed_response_def
  k_startup_delay_ms_def k_exit_after_requests_def

definition fault_config_keys :: "pystr list" where
  "fault_config_keys = [k_response_delay_ms, k_drop_connection, k_malformed_response,
     k_startup_delay_ms, k_exit_after_requests]"

datatype config_error =
    CannotRead | NotAnObject | UnknownKeys "pystr list" | MustBeBool pystr | MustBeInteger pystr
  | MustNotBeNegative pystr | AboveMaxDelay pystr | ExitAfterBelowOne
  | FaultAndConfig | DelayAndConfig | DelayNegative | DelayAboveMax | NeedsPositiveDelay fault_name

section \<open>Reading a manifest\<close>

text \<open>What \<open>path.read_text(encoding="utf-8")\<close> does: it raises, or yields the text.\<close>

datatype read_result = ReadOSError | ReadDecodeError | ReadText pystr

fun reject_dups_loop :: "obj \<Rightarrow> (pystr \<times> json) list \<Rightarrow> py_exc + obj" where
  "reject_dups_loop seen [] = Inr seen"
| "reject_dups_loop seen ((k, v) # ps) =
     (if k \<in> set (dkeys seen) then Inl ValueError else reject_dups_loop (dset k v seen) ps)"

definition reject_duplicate_keys :: "(pystr \<times> json) list \<Rightarrow> py_exc + obj" where
  "reject_duplicate_keys ps = reject_dups_loop [] ps"

text \<open>\<open>object_pairs_hook=reject_duplicate_keys\<close>: the hook runs on every object, inner ones first.\<close>

fun hook_objects :: "json \<Rightarrow> py_exc + json" where
  "hook_objects (JList xs) = res_bind (res_map hook_objects xs) (\<lambda>ys. Inr (JList ys))"
| "hook_objects (JObj ps) =
     res_bind (res_map (\<lambda>(k, v). res_bind (hook_objects v) (\<lambda>w. Inr (k, w))) ps) (\<lambda>qs.
       res_bind (reject_duplicate_keys qs) (\<lambda>d. Inr (JObj d)))"
| "hook_objects j = Inr j"

definition loads_strict :: "(pystr \<Rightarrow> py_exc + int) \<Rightarrow> nat \<Rightarrow> pystr \<Rightarrow> py_exc + json" where
  "loads_strict ph depth s = res_bind (parse_raw ph depth s) hook_objects"

definition get_bool :: "obj \<Rightarrow> pystr \<Rightarrow> config_error + bool" where
  "get_bool d k = (case dget d k of
     None \<Rightarrow> Inr False
   | Some (JBool b) \<Rightarrow> Inr b
   | Some _ \<Rightarrow> Inl (MustBeBool k))"

definition get_int :: "obj \<Rightarrow> pystr \<Rightarrow> bool \<Rightarrow> config_error + int option" where
  "get_int d k allow_none =
     (let value = (case dget d k of None \<Rightarrow> JNull | Some v \<Rightarrow> v)
      in if value = JNull then Inr (if allow_none then None else Some 0)
         else case as_proper_int value of
           None \<Rightarrow> Inl (MustBeInteger k)
         | Some i \<Rightarrow>
             if i < 0 then Inl (MustNotBeNegative k)
             else if ends_with (S ''_ms'') k \<and> MAX_DELAY_MS < i then Inl (AboveMaxDelay k)
             else Inr (Some i))"

definition int_or_0 :: "int option \<Rightarrow> int" where
  "int_or_0 x = (case x of None \<Rightarrow> 0 | Some i \<Rightarrow> i)"

definition manifest_config :: "json \<Rightarrow> config_error + fault_config" where
  "manifest_config data = (case data of
     JObj d \<Rightarrow>
       (let unknown = filter (\<lambda>k. k \<notin> set fault_config_keys) (dkeys d)
        in if unknown \<noteq> [] then Inl (UnknownKeys (sort unknown))
           else res_bind (get_int d k_exit_after_requests True) (\<lambda>exit_after.
             if exit_after \<noteq> None \<and> the exit_after < 1 then Inl ExitAfterBelowOne
             else res_bind (get_int d k_response_delay_ms False) (\<lambda>delay.
                  res_bind (get_bool d k_drop_connection) (\<lambda>drop.
                  res_bind (get_bool d k_malformed_response) (\<lambda>malformed.
                  res_bind (get_int d k_startup_delay_ms False) (\<lambda>startup.
                    Inr \<lparr>response_delay_ms = int_or_0 delay, drop_connection = drop,
                         malformed_response = malformed, startup_delay_ms = int_or_0 startup,
                         exit_after_requests = exit_after\<rparr>))))))
   | _ \<Rightarrow> Inl NotAnObject)"

text \<open>\<open>cap\<close> is the interpreter's integer digit limit, \<open>depth\<close> its room for nested containers.\<close>

definition load_fault_config :: "nat \<Rightarrow> nat \<Rightarrow> read_result \<Rightarrow> config_error + fault_config" where
  "load_fault_config cap depth rr = (case rr of
     ReadText t \<Rightarrow>
       (case loads_strict (builtin_int cap) depth t of
          Inl _ \<Rightarrow> Inl CannotRead
        | Inr data \<Rightarrow> manifest_config data)
   | _ \<Rightarrow> Inl CannotRead)"

section \<open>The command line\<close>

record fault_args =
  arg_fault :: "fault_name option"
  arg_fault_delay_ms :: "int option"
  arg_fault_config :: "read_result option"  \<comment> \<open>the file named by \<open>--fault-config\<close>, if given\<close>

fun preset :: "int \<Rightarrow> fault_name \<Rightarrow> fault_config" where
  "preset delay Delayed_response = no_faults\<lparr>response_delay_ms := delay\<rparr>"
| "preset delay Dropped_connection = no_faults\<lparr>drop_connection := True\<rparr>"
| "preset delay Malformed_response = no_faults\<lparr>malformed_response := True\<rparr>"
| "preset delay Startup_delay = no_faults\<lparr>startup_delay_ms := delay\<rparr>"
| "preset delay Process_termination = no_faults\<lparr>exit_after_requests := Some 1\<rparr>"

definition resolve_fault_config :: "nat \<Rightarrow> nat \<Rightarrow> fault_args \<Rightarrow> config_error + fault_config" where
  "resolve_fault_config cap depth args = (case arg_fault_config args of
     Some rr \<Rightarrow>
       if arg_fault args \<noteq> None then Inl FaultAndConfig
       else if arg_fault_delay_ms args \<noteq> None then Inl DelayAndConfig
       else load_fault_config cap depth rr
   | None \<Rightarrow>
       (let delay = (case arg_fault_delay_ms args of None \<Rightarrow> DEFAULT_FAULT_DELAY_MS | Some d \<Rightarrow> d)
        in if delay < 0 then Inl DelayNegative
           else if MAX_DELAY_MS < delay then Inl DelayAboveMax
           else case arg_fault args of
             None \<Rightarrow> Inr no_faults
           | Some f \<Rightarrow>
               if (f = Delayed_response \<or> f = Startup_delay) \<and> delay = 0
               then Inl (NeedsPositiveDelay f)
               else Inr (preset delay f)))"

section \<open>What a resolved configuration is\<close>

text \<open>Every field is one the device can act on.\<close>

definition valid_config :: "fault_config \<Rightarrow> bool" where
  "valid_config c \<longleftrightarrow> 0 \<le> response_delay_ms c \<and> response_delay_ms c \<le> MAX_DELAY_MS \<and>
     0 \<le> startup_delay_ms c \<and> startup_delay_ms c \<le> MAX_DELAY_MS \<and>
     (case exit_after_requests c of None \<Rightarrow> True | Some n \<Rightarrow> 1 \<le> n)"

text \<open>The faults whose guards hold at run time.\<close>

fun engaged :: "fault_config \<Rightarrow> fault_name \<Rightarrow> bool" where
  "engaged c Delayed_response \<longleftrightarrow> 0 < response_delay_ms c"
| "engaged c Dropped_connection \<longleftrightarrow> drop_connection c"
| "engaged c Malformed_response \<longleftrightarrow> malformed_response c"
| "engaged c Startup_delay \<longleftrightarrow> 0 < startup_delay_ms c"
| "engaged c Process_termination \<longleftrightarrow> exit_after_requests c \<noteq> None"

lemmas fault_config_defs = no_faults_def valid_config_def MAX_DELAY_MS_def DEFAULT_FAULT_DELAY_MS_def

subsection \<open>The duplicate-key hook\<close>

lemma reject_dups_loop:
  "dict_ok seen \<Longrightarrow> reject_dups_loop seen ps =
     (if distinct (dkeys seen @ dkeys ps) then Inr (seen @ ps) else Inl ValueError)"
proof (induction ps arbitrary: seen)
  case Nil
  then show ?case by (simp add: dict_ok_def dkeys_def)
next
  case (Cons p ps)
  obtain k v where p: "p = (k, v)" by (cases p)
  show ?case
  proof (cases "k \<in> set (dkeys seen)")
    case True
    with p show ?thesis by (simp add: dkeys_def)
  next
    case False
    with p Cons.IH [of "dset k v seen"] Cons.prems show ?thesis
      by (auto simp: dset_append dkeys_def)
  qed
qed

lemma reject_duplicate_keys_eq:
  "reject_duplicate_keys ps = (if dict_ok ps then Inr ps else Inl ValueError)"
  by (simp add: reject_duplicate_keys_def reject_dups_loop dict_ok_def dkeys_def)

lemma hook_objects_eq: "hook_objects j = (if wf_json j then Inr j else Inl ValueError)"
proof (induction j rule: json_induct)
  case (JList xs)
  then show ?case using res_map_check [of xs hook_objects wf_json id ValueError] by auto
next
  case (JObj ps)
  let ?f = "\<lambda>(k, v). res_bind (hook_objects v) (\<lambda>w. Inr (k, w))"
  have "res_map ?f ps = (if \<forall>p \<in> set ps. wf_json (snd p) then Inr (map id ps) else Inl ValueError)"
    using JObj by (intro res_map_check) (auto split: if_splits)
  then show ?case by (auto simp: reject_duplicate_keys_eq)
qed auto

lemma loads_strict_eq:
  "loads_strict ph depth s =
     res_bind (parse_raw ph depth s) (\<lambda>j. if wf_json j then Inr j else Inl ValueError)"
  by (simp add: loads_strict_def hook_objects_eq [abs_def])

lemma loads_strict_dumps:
  "plain ph j \<Longrightarrow> wf_json j \<Longrightarrow> containers j \<le> depth \<Longrightarrow> loads_strict ph depth (dumps fr j) = Inr (canon j)"
  by (simp add: loads_strict_eq dumps_def parse_raw_dump)

subsection \<open>Field readers\<close>

lemma ends_ms [simp]:
  "ends_with (S ''_ms'') k_response_delay_ms" "ends_with (S ''_ms'') k_startup_delay_ms"
  "\<not> ends_with (S ''_ms'') k_exit_after_requests"
  by (simp_all add: ends_with_def S_def config_key_defs)

lemma config_keys_distinct [simp]: "distinct fault_config_keys"
  by (simp add: fault_config_keys_def config_key_defs)

lemma get_int_bounds:
  "get_int d k a = Inr (Some i) \<Longrightarrow> 0 \<le> i \<and> (ends_with (S ''_ms'') k \<longrightarrow> i \<le> MAX_DELAY_MS)"
  by (auto simp: get_int_def Let_def MAX_DELAY_MS_def split: if_splits option.splits)

lemma get_int_delay:
  "get_int d k False = Inr x \<Longrightarrow> ends_with (S ''_ms'') k \<Longrightarrow>
     0 \<le> int_or_0 x \<and> int_or_0 x \<le> MAX_DELAY_MS"
  using get_int_bounds [of d k False]
  by (cases x) (auto simp: int_or_0_def MAX_DELAY_MS_def)

lemma manifest_config_valid: "manifest_config j = Inr c \<Longrightarrow> valid_config c"
  by (auto simp: manifest_config_def Let_def res_simps valid_config_def
      split: json.splits if_splits option.splits dest!: get_int_delay)

lemma load_fault_config_valid: "load_fault_config cap depth rr = Inr c \<Longrightarrow> valid_config c"
  by (auto simp: load_fault_config_def split: read_result.splits sum.splits
      dest: manifest_config_valid)


subsection \<open>What a manifest says\<close>

text \<open>The meaning of a manifest, field by field, without the order of the checks.\<close>

definition says_delay :: "obj \<Rightarrow> pystr \<Rightarrow> int \<Rightarrow> bool" where
  "says_delay d k i \<longleftrightarrow>
     (dget d k = None \<or> dget d k = Some JNull) \<and> i = 0 \<or>
     dget d k = Some (JInt i) \<and> 0 \<le> i \<and> i \<le> MAX_DELAY_MS"

definition says_bool :: "obj \<Rightarrow> pystr \<Rightarrow> bool \<Rightarrow> bool" where
  "says_bool d k b \<longleftrightarrow> dget d k = None \<and> \<not> b \<or> dget d k = Some (JBool b)"

definition says_count :: "obj \<Rightarrow> pystr \<Rightarrow> int option \<Rightarrow> bool" where
  "says_count d k x \<longleftrightarrow>
     (dget d k = None \<or> dget d k = Some JNull) \<and> x = None \<or>
     (\<exists>n. dget d k = Some (JInt n) \<and> 1 \<le> n \<and> x = Some n)"

definition manifest_says :: "obj \<Rightarrow> fault_config \<Rightarrow> bool" where
  "manifest_says d c \<longleftrightarrow>
     set (dkeys d) \<subseteq> set fault_config_keys \<and>
     says_delay d k_response_delay_ms (response_delay_ms c) \<and>
     says_bool d k_drop_connection (drop_connection c) \<and>
     says_bool d k_malformed_response (malformed_response c) \<and>
     says_delay d k_startup_delay_ms (startup_delay_ms c) \<and>
     says_count d k_exit_after_requests (exit_after_requests c)"

lemma get_int_delay_says:
  "ends_with (S ''_ms'') k \<Longrightarrow>
     (\<exists>x. get_int d k False = Inr x \<and> int_or_0 x = i) \<longleftrightarrow> says_delay d k i"
  by (cases "dget d k"; cases "the (dget d k)")
    (auto simp: get_int_def says_delay_def int_or_0_def Let_def MAX_DELAY_MS_def)

lemma get_bool_says: "get_bool d k = Inr b \<longleftrightarrow> says_bool d k b"
  by (cases "dget d k"; cases "the (dget d k)") (auto simp: get_bool_def says_bool_def)

lemma get_int_count_says:
  "\<not> ends_with (S ''_ms'') k \<Longrightarrow>
     get_int d k True = Inr x \<and> \<not> (x \<noteq> None \<and> the x < 1) \<longleftrightarrow> says_count d k x"
  by (cases "dget d k"; cases "the (dget d k)"; cases x)
    (auto simp: get_int_def says_count_def Let_def)

lemma manifest_config_says: "manifest_config (JObj d) = Inr c \<longleftrightarrow> manifest_says d c"
proof -
  have keys: "filter (\<lambda>k. k \<notin> set fault_config_keys) (dkeys d) = [] \<longleftrightarrow> set (dkeys d) \<subseteq> set fault_config_keys"
    by (auto simp: filter_empty_conv)
  have "manifest_config (JObj d) = Inr c \<longleftrightarrow>
      set (dkeys d) \<subseteq> set fault_config_keys \<and>
      (\<exists>e. (get_int d k_exit_after_requests True = Inr e \<and> \<not> (e \<noteq> None \<and> the e < 1)) \<and>
        (\<exists>x. get_int d k_response_delay_ms False = Inr x \<and>
        (\<exists>b. get_bool d k_drop_connection = Inr b \<and>
        (\<exists>m. get_bool d k_malformed_response = Inr m \<and>
        (\<exists>y. get_int d k_startup_delay_ms False = Inr y \<and>
          c = \<lparr>response_delay_ms = int_or_0 x, drop_connection = b, malformed_response = m,
               startup_delay_ms = int_or_0 y, exit_after_requests = e\<rparr>)))))"
    by (simp only: manifest_config_def json.case Let_def keys if_split_eq1 res_bind_Inr
        split: if_split) blast
  also have "\<dots> \<longleftrightarrow> manifest_says d c"
    unfolding manifest_says_def get_int_count_says [OF ends_ms(3)] get_bool_says
      get_int_delay_says [OF ends_ms(1), symmetric] get_int_delay_says [OF ends_ms(2), symmetric]
    by (cases c) auto
  finally show ?thesis .
qed

text \<open>The manifest that records a configuration.\<close>

definition manifest_of :: "fault_config \<Rightarrow> json" where
  "manifest_of c = JObj
     [(k_response_delay_ms, JInt (response_delay_ms c)),
      (k_drop_connection, JBool (drop_connection c)),
      (k_malformed_response, JBool (malformed_response c)),
      (k_startup_delay_ms, JInt (startup_delay_ms c)),
      (k_exit_after_requests, case exit_after_requests c of None \<Rightarrow> JNull | Some n \<Rightarrow> JInt n)]"

lemma config_key_neqs [simp]:
  "k_response_delay_ms \<noteq> k_drop_connection" "k_response_delay_ms \<noteq> k_malformed_response"
  "k_response_delay_ms \<noteq> k_startup_delay_ms" "k_response_delay_ms \<noteq> k_exit_after_requests"
  "k_drop_connection \<noteq> k_malformed_response" "k_drop_connection \<noteq> k_startup_delay_ms"
  "k_drop_connection \<noteq> k_exit_after_requests" "k_malformed_response \<noteq> k_startup_delay_ms"
  "k_malformed_response \<noteq> k_exit_after_requests" "k_startup_delay_ms \<noteq> k_exit_after_requests"
  by (simp_all add: config_key_defs)

lemmas config_key_neqs_sym [simp] = config_key_neqs [symmetric]

lemma wf_manifest_of [simp]: "wf_json (manifest_of c)"
  by (auto simp: manifest_of_def dict_ok_def dkeys_def split: option.splits)

lemma manifest_says_sorted:
  "dict_ok d \<Longrightarrow> manifest_says (sort_key fst d) c \<longleftrightarrow> manifest_says d c"
  by (simp add: manifest_says_def says_delay_def says_bool_def says_count_def dget_sort dkeys_sort)

lemma manifest_says_of:
  assumes "valid_config c" and "manifest_of c = JObj d" shows "manifest_says d c"
  using assms
  by (auto simp: manifest_of_def manifest_says_def says_delay_def says_bool_def says_count_def
      valid_config_def fault_config_keys_def dkeys_def split: option.splits)

lemma load_manifest_of:
  assumes "valid_config c" and "plain (builtin_int cap) (manifest_of c)" and "1 \<le> depth"
  shows "load_fault_config cap depth (ReadText (dumps fr (manifest_of c))) = Inr c"
proof -
  obtain d where d: "manifest_of c = JObj d" by (simp add: manifest_of_def)
  have scalars: "\<forall>(k, v) \<in> set d. canon v = v"
    using d by (auto simp: manifest_of_def split: option.splits)
  then have "map (\<lambda>(k, v). (k, canon v)) d = d" by (intro map_idI) auto
  then have canon: "canon (manifest_of c) = JObj (sort_key fst d)" using d by simp
  have "containers (manifest_of c) \<le> depth"
    using assms(3) by (auto simp: manifest_of_def split: option.splits)
  then have "loads_strict (builtin_int cap) depth (dumps fr (manifest_of c)) = Inr (JObj (sort_key fst d))"
    using assms(2) by (simp add: loads_strict_dumps canon)
  moreover have "manifest_says (sort_key fst d) c"
    using manifest_says_of [OF assms(1) d] wf_manifest_of [of c] by (simp add: d manifest_says_sorted)
  ultimately show ?thesis by (simp add: load_fault_config_def manifest_config_says)
qed

lemma resolve_fault_config_valid:
  assumes "resolve_fault_config cap depth args = Inr c"
  shows "valid_config c"
  using assms
  by (cases "arg_fault args"; cases "the (arg_fault args)")
    (auto simp: resolve_fault_config_def Let_def fault_config_defs
      split: option.splits if_splits dest: load_fault_config_valid [unfolded fault_config_defs])

section \<open>Properties\<close>

text \<open>
  C35: Whatever the command line and the manifest say, a fault configuration that is accepted is
  one the device can act on: both delays lie between 0 and 24 hours, so \<open>time.sleep\<close> cannot
  overflow, and an exit count is at least 1.
\<close>

theorem resolved_config_valid:
  assumes "resolve_fault_config cap depth args = Inr c"
  shows "valid_config c"
  using assms by (rule resolve_fault_config_valid)

theorem resolved_config_valid_witness:
  "valid_config (preset 400 Startup_delay)"
proof (rule resolved_config_valid)
  show "resolve_fault_config 4300 1000
      \<lparr>arg_fault = Some Startup_delay, arg_fault_delay_ms = None, arg_fault_config = None\<rparr> =
      Inr (preset 400 Startup_delay)"
    by (simp add: resolve_fault_config_def fault_config_defs)
qed

text \<open>
  Without a manifest, an accepted command line engages exactly the fault it names: no preset
  is silently disabled (a zero or negative delay is refused for the timing presets), and none is
  engaged that was not asked for.
\<close>

theorem preset_engages_exactly:
  assumes "arg_fault_config args = None" and "resolve_fault_config cap depth args = Inr c"
  shows "engaged c f \<longleftrightarrow> arg_fault args = Some f"
proof (cases "arg_fault args")
  case None
  with assms show ?thesis
    by (cases f) (auto simp: resolve_fault_config_def Let_def no_faults_def split: option.splits if_splits)
next
  case (Some g)
  with assms show ?thesis
    by (cases f; cases g)
      (auto simp: resolve_fault_config_def Let_def no_faults_def DEFAULT_FAULT_DELAY_MS_def
        split: option.splits if_splits)
qed

theorem preset_engages_exactly_witness:
  "engaged (preset 250 Delayed_response) Startup_delay \<longleftrightarrow> Some Delayed_response = Some Startup_delay"
  using preset_engages_exactly [of
      "\<lparr>arg_fault = Some Delayed_response, arg_fault_delay_ms = Some 250, arg_fault_config = None\<rparr>"
      4300 1000 "preset 250 Delayed_response" Startup_delay]
  by (simp add: resolve_fault_config_def fault_config_defs)

text \<open>
  A manifest is accepted with a configuration exactly when it says so: its top level is an
  object, its keys are among the five known ones, each field is absent or of its type and in its
  range, and the configuration holds precisely those values.  The order in which the code runs its
  checks makes no difference to what is accepted.
\<close>

theorem manifest_config_iff:
  "manifest_config j = Inr c \<longleftrightarrow> (\<exists>d. j = JObj d \<and> manifest_says d c)"
  by (cases j) (auto simp: manifest_config_says, auto simp: manifest_config_def)

text \<open>
  A manifest file written from a valid configuration with sorted keys is read back as that very
  configuration.
\<close>

theorem manifest_file_roundtrip:
  assumes "valid_config c" and "plain (builtin_int cap) (manifest_of c)" and "1 \<le> depth"
  shows "load_fault_config cap depth (ReadText (dumps fr (manifest_of c))) = Inr c"
  using assms by (rule load_manifest_of)

theorem manifest_file_roundtrip_witness:
  "load_fault_config 4300 1000 (ReadText (dumps (\<lambda>_. []) (manifest_of (preset 400 Process_termination)))) =
     Inr (preset 400 Process_termination)"
  by (rule manifest_file_roundtrip)
    (simp_all add: fault_config_defs manifest_of_def str_ok_def scalar_def S_def config_key_defs
      builtin_int_def dec_int_def dec_nat.simps lstrip_by_def int_of_token_def digits_val_def)

text \<open>
  C34: A manifest that is accepted is unambiguous: in the text as written no object, at any level,
  repeats a key, and the configuration is read off the pairs as they stand there.
\<close>

theorem accepted_manifest_unambiguous:
  assumes "load_fault_config cap depth (ReadText t) = Inr c"
  shows "\<exists>d. parse_raw (builtin_int cap) depth t = Inr (JObj d) \<and> wf_json (JObj d) \<and> manifest_says d c"
proof -
  obtain j where "loads_strict (builtin_int cap) depth t = Inr j" and c: "manifest_config j = Inr c"
    using assms by (auto simp: load_fault_config_def split: sum.splits)
  then have "parse_raw (builtin_int cap) depth t = Inr j" "wf_json j"
    by (auto simp: loads_strict_eq res_simps split: if_splits)
  moreover obtain d where "j = JObj d" using c by (auto simp: manifest_config_def split: json.splits)
  ultimately show ?thesis using c by (auto simp: manifest_config_says)
qed

theorem accepted_manifest_unambiguous_witness:
  "\<exists>d. parse_raw (builtin_int 0) 1000 (dumps (\<lambda>_. []) (manifest_of no_faults)) = Inr (JObj d) \<and>
     wf_json (JObj d) \<and> manifest_says d no_faults"
  by (rule accepted_manifest_unambiguous, rule load_manifest_of)
    (simp_all add: fault_config_defs manifest_of_def str_ok_def scalar_def S_def config_key_defs
      builtin_int_def)

end
