(* ===== verification/Json_Bounds.thy ===== *)
theory Json_Bounds
  imports Json_Roundtrip
begin

text \<open>
  What a text of legal code points can decode to, and what that is written as.  \<open>json_all P Q\<close>
  says that every string of a value (keys included) satisfies \<open>P\<close> and every integer \<open>Q\<close>.  Scanning
  yields only legal code points and only integers the parse hook returned for a decimal token;
  serialising such a value without indentation yields one line of printable ASCII.  The last
  section is the interpreter's limit on converting integers to text, which \<open>json.dumps\<close> meets.
\<close>

definition text_ok :: "pystr \<Rightarrow> bool" where
  "text_ok s \<longleftrightarrow> (\<forall>c \<in> set s. c < 1114112)"

fun json_all :: "(pystr \<Rightarrow> bool) \<Rightarrow> (int \<Rightarrow> bool) \<Rightarrow> json \<Rightarrow> bool" where
  "json_all P Q (JInt i) = Q i"
| "json_all P Q (JStr s) = P s"
| "json_all P Q (JList xs) = (\<forall>x \<in> set xs. json_all P Q x)"
| "json_all P Q (JObj ps) = (\<forall>(k, v) \<in> set ps. P k \<and> json_all P Q v)"
| "json_all P Q _ = True"

lemma json_all_canon [simp]: "json_all P Q (canon j) = json_all P Q j"
  by (induction j rule: json_induct) auto

lemma json_all_collapse: "json_all P Q j \<Longrightarrow> json_all P Q (collapse j)"
proof (induction j rule: json_induct)
  case (JObj ps)
  then show ?case using set_dict_of [of "map (\<lambda>(k, v). (k, collapse v)) ps"] by fastforce
qed auto

lemma json_all_mono:
  "json_all P Q j \<Longrightarrow> (\<And>s. P s \<Longrightarrow> P' s) \<Longrightarrow> (\<And>i. Q i \<Longrightarrow> Q' i) \<Longrightarrow> json_all P' Q' j"
  by (induction j rule: json_induct) fastforce+

lemma text_ok_mono: "text_ok s \<Longrightarrow> set r \<subseteq> set s \<Longrightarrow> text_ok r"
  by (auto simp: text_ok_def)

lemma str_ok_text_ok: "str_ok s \<Longrightarrow> text_ok s"
  by (auto simp: str_ok_def text_ok_def scalar_def)

lemma plain_json_all:
  "plain ph j \<Longrightarrow> json_all text_ok (\<lambda>i. ph (dec_int i) = Inr i) j"
  by (induction j rule: json_induct) (auto intro: str_ok_text_ok)

section \<open>What the scanner can yield\<close>

lemma skip_ws_set: "set (skip_ws s) \<subseteq> set s"
  by (auto simp: skip_ws_def dest: set_dropWhileD)

lemma skip_ws_ConsD: "skip_ws s = c # r \<Longrightarrow> set r \<subseteq> set s"
  using skip_ws_set [of s] by auto

lemma hex_val_bound: "hex_val c = Some w \<Longrightarrow> w < 16"
  by (auto simp: hex_val_def split: if_splits)

lemma hex4_bound: "hex4 s = Some (u, r) \<Longrightarrow> u < 65536 \<and> set r \<subseteq> set s"
  by (auto simp: hex4_def split: list.splits option.splits dest!: hex_val_bound)

lemma low_follow_bound: "low_follow s = Some (u, r) \<Longrightarrow> is_low u \<and> set r \<subseteq> set s"
  by (auto simp: low_follow_def split: list.splits option.splits if_splits dest!: hex4_bound)

lemma scan_u_bound: "scan_u s = Inr (u, r) \<Longrightarrow> u < 1114112 \<and> set r \<subseteq> set s"
proof -
  assume a: "scan_u s = Inr (u, r)"
  then obtain u1 r1 where h: "hex4 s = Some (u1, r1)" by (auto simp: scan_u_def split: option.splits)
  note b = hex4_bound [OF h]
  show ?thesis
  proof (cases "low_follow r1")
    case None
    with a h b show ?thesis by (auto simp: scan_u_def split: if_splits)
  next
    case (Some p)
    then obtain v r2 where l: "low_follow r1 = Some (v, r2)" by (cases p) auto
    note c = low_follow_bound [OF l]
    have "r = r1 \<or> r = r2" and "u < 1114112" using a h l b c
      by (auto simp: scan_u_def is_high_def is_low_def split: if_splits)
    with b c show ?thesis by blast
  qed
qed

lemma simple_unescape_bound: "simple_unescape e = Some u \<Longrightarrow> u < 128"
  by (auto simp: simple_unescape_def split: if_splits)

lemma scan_unit_bound: "scan_unit s = Inr (u, r) \<Longrightarrow> text_ok s \<Longrightarrow> u < 1114112 \<and> set r \<subseteq> set s"
  by (auto simp: scan_unit_def text_ok_def split: list.splits if_splits option.splits
      dest!: scan_u_bound simple_unescape_bound)

lemma scan_string_bound:
  "scan_string s = Inr (t, r) \<Longrightarrow> text_ok s \<Longrightarrow> text_ok t \<and> set r \<subseteq> set s"
proof (induction s arbitrary: t r rule: scan_string.induct)
  case (2 c s)
  show ?case
  proof (cases "c = 34")
    case False
    with "2.prems" obtain u r1 t1 where u: "scan_unit (c # s) = Inr (u, r1)"
      and t: "scan_string r1 = Inr (t1, r)" "t = u # t1"
      by (auto simp: res_simps)
    have b: "u < 1114112" "set r1 \<subseteq> set (c # s)"
      using scan_unit_bound [OF u] "2.prems"(2) by auto
    then have "text_ok r1" using "2.prems"(2) text_ok_mono by blast
    then have "text_ok t1 \<and> set r \<subseteq> set r1" using "2.IH" [OF False u _ t(1)] by simp
    with t(2) b show ?thesis by (auto simp: text_ok_def)
  qed (use "2.prems" in \<open>auto simp: text_ok_def\<close>)
qed simp

definition int_token :: "pystr \<Rightarrow> bool" where
  "int_token t \<longleftrightarrow>
     (let ds = (if t \<noteq> [] \<and> hd t = 45 then tl t else t) in ds \<noteq> [] \<and> list_all is_digit ds)"

lemma takeWhile_digits: "list_all is_digit (takeWhile is_digit s)"
  by (auto simp: list_all_iff dest: set_takeWhileD)

lemma dropWhile_set: "set (dropWhile p s) \<subseteq> set s"
  by (auto dest: set_dropWhileD)

lemma scan_int_part_token:
  "scan_int_part s = Some (sg, ip, r) \<Longrightarrow> int_token (sg @ ip) \<and> set r \<subseteq> set s"
  using takeWhile_digits [of s] takeWhile_digits [of "tl s"] dropWhile_set [of is_digit s]
    dropWhile_set [of is_digit "tl s"]
  by (auto simp: scan_int_part_def Let_def int_token_def is_digit_def split: list.splits if_splits)

lemma scan_frac_set: "scan_frac s = (fp, r) \<Longrightarrow> set r \<subseteq> set s"
  using dropWhile_set [of is_digit "tl s"]
  by (auto simp: scan_frac_def split: list.splits if_splits)

lemma scan_exp_set: "scan_exp s = (ep, r) \<Longrightarrow> set r \<subseteq> set s"
  using dropWhile_set [of is_digit "tl s"] dropWhile_set [of is_digit "tl (tl s)"]
  by (auto simp: scan_exp_def Let_def split: list.splits if_splits prod.splits)

lemma scan_number_bound:
  assumes "scan_number ph s = Inr (j, r)"
  shows "set r \<subseteq> set s" and "(\<exists>f. j = JFloat f) \<or> (\<exists>t i. int_token t \<and> ph t = Inr i \<and> j = JInt i)"
proof -
  obtain sg ip r2 where i: "scan_int_part s = Some (sg, ip, r2)"
    using assms by (auto simp: scan_number_def split: option.splits)
  obtain fp r3 where f: "scan_frac r2 = (fp, r3)" by fastforce
  obtain ep r4 where e: "scan_exp r3 = (ep, r4)" by fastforce
  from assms i f e have r: "r = r4" by (auto simp: scan_number_def res_simps split: if_splits)
  with scan_int_part_token [OF i] scan_frac_set [OF f] scan_exp_set [OF e]
  show "set r \<subseteq> set s" by blast
  from assms i f e scan_int_part_token [OF i]
  show "(\<exists>f. j = JFloat f) \<or> (\<exists>t i. int_token t \<and> ph t = Inr i \<and> j = JInt i)"
    by (auto simp: scan_number_def res_simps split: if_splits)
qed

lemma keyword_bound: "keyword s = Some (j, r) \<Longrightarrow> set r \<subseteq> set s \<and> json_all P Q j"
  by (auto simp: keyword_def split: if_splits dest: in_set_dropD)

lemma scan_atom_bound:
  assumes "scan_atom ph s = Inr (j, r)" and "\<And>t i. int_token t \<Longrightarrow> ph t = Inr i \<Longrightarrow> Q i"
  shows "set r \<subseteq> set s \<and> json_all P Q j"
proof (cases "keyword s")
  case None
  then have "scan_number ph s = Inr (j, r)" using assms(1) by (simp add: scan_atom_def)
  from scan_number_bound [OF this] assms(2) show ?thesis by auto
next
  case (Some p)
  then show ?thesis using assms(1) keyword_bound [of s j r] by (simp add: scan_atom_def)
qed

lemma tl_skip_ws_set: "set (tl (skip_ws s)) \<subseteq> set s"
  using skip_ws_set [of s] by (cases "skip_ws s") auto

lemma scan_bound:
  assumes ph: "\<And>t i. int_token t \<Longrightarrow> ph t = Inr i \<Longrightarrow> Q i"
  shows "scan_value ph n d s = Inr (j, r) \<Longrightarrow> text_ok s \<Longrightarrow> set r \<subseteq> set s \<and> json_all text_ok Q j"
    and "scan_elems ph n d s = Inr (xs, r) \<Longrightarrow> text_ok s \<Longrightarrow>
      set r \<subseteq> set s \<and> json_all text_ok Q (JList xs)"
    and "scan_members ph n d s = Inr (ps, r) \<Longrightarrow> text_ok s \<Longrightarrow>
      set r \<subseteq> set s \<and> json_all text_ok Q (JObj ps)"
proof (induction n arbitrary: d s j r xs ps)
  case (Suc n)
  {
    case 1
    from 1(1) show ?case
    proof (cases rule: scan_value_InrE)
      case (str t r')
      then show ?thesis using scan_string_bound [of r' t r] 1(2) by (auto simp: text_ok_def)
    next
      case (empty_list r' d')
      then show ?thesis using tl_skip_ws_set [of r'] by auto
    next
      case (list r' d' xs)
      have "text_ok (skip_ws r')" using 1(2) skip_ws_set [of r'] list(1) by (auto simp: text_ok_def)
      with Suc.IH(2) [OF list(4)] list skip_ws_set [of r'] show ?thesis by auto
    next
      case (empty_obj r' d')
      then show ?thesis using tl_skip_ws_set [of r'] by auto
    next
      case (obj r' d' ps)
      have "text_ok (skip_ws r')" using 1(2) skip_ws_set [of r'] obj(1) by (auto simp: text_ok_def)
      with Suc.IH(3) [OF obj(4)] obj skip_ws_set [of r'] show ?thesis by auto
    next
      case (atom c r')
      then show ?thesis using scan_atom_bound [where Q = Q, OF atom(5)] ph by blast
    qed
  next
    case 2
    from 2(1) show ?case
    proof (cases rule: scan_elems_InrE)
      case (last x r1)
      then show ?thesis using Suc.IH(1) [OF last(1) 2(2)] skip_ws_ConsD [OF last(2)] by auto
    next
      case (more x r1 r2 ys)
      have x: "set r1 \<subseteq> set s" "json_all text_ok Q x" using Suc.IH(1) [OF more(1) 2(2)] by auto
      have r2: "set (skip_ws r2) \<subseteq> set s" using skip_ws_set [of r2] skip_ws_ConsD [OF more(2)] x(1) by blast
      from Suc.IH(2) [OF more(3) text_ok_mono [OF 2(2) r2]] r2 x more(4) show ?thesis by auto
    qed
  next
    case 3
    from 3(1) show ?case
    proof (cases rule: scan_members_InrE)
      case (last s' k r1 r2 v r3)
      have k: "text_ok k" "set r1 \<subseteq> set s"
        using scan_string_bound [OF last(2)] 3(2) last(1) by (auto simp: text_ok_def)
      have r2: "set (skip_ws r2) \<subseteq> set s" using skip_ws_set [of r2] skip_ws_ConsD [OF last(3)] k(2) by blast
      from Suc.IH(1) [OF last(4) text_ok_mono [OF 3(2) r2]] r2 k last(6) skip_ws_ConsD [OF last(5)]
      show ?thesis by auto
    next
      case (more s' k r1 r2 v r3 r4 qs)
      have k: "text_ok k" "set r1 \<subseteq> set s"
        using scan_string_bound [OF more(2)] 3(2) more(1) by (auto simp: text_ok_def)
      have r2: "set (skip_ws r2) \<subseteq> set s" using skip_ws_set [of r2] skip_ws_ConsD [OF more(3)] k(2) by blast
      have v: "set r3 \<subseteq> set s" "json_all text_ok Q v"
        using Suc.IH(1) [OF more(4) text_ok_mono [OF 3(2) r2]] r2 by auto
      have r4: "set (skip_ws r4) \<subseteq> set s" using skip_ws_set [of r4] skip_ws_ConsD [OF more(5)] v(1) by blast
      from Suc.IH(3) [OF more(6) text_ok_mono [OF 3(2) r4]] r4 k v more(7) show ?thesis by auto
    qed
  }
qed (simp_all add: scan_value.simps scan_elems.simps scan_members.simps)

lemma parse_raw_all:
  assumes "parse_raw ph d s = Inr j" and "text_ok s"
    and "\<And>t i. int_token t \<Longrightarrow> ph t = Inr i \<Longrightarrow> Q i"
  shows "json_all text_ok Q j"
  using assms(1)
proof (cases rule: parse_raw_InrE)
  case (1 r)
  have "text_ok (skip_ws s)" using assms(2) skip_ws_set text_ok_mono by blast
  from scan_bound(1) [where Q = Q, OF _ 1(3) this] assms(3) show ?thesis by blast
qed

lemma loads_all:
  assumes "loads ph d s = Inr j" and "text_ok s"
    and "\<And>t i. int_token t \<Longrightarrow> ph t = Inr i \<Longrightarrow> Q i"
  shows "json_all text_ok Q j"
  using assms parse_raw_all [of ph d s _ Q] by (auto simp: loads_def res_simps intro: json_all_collapse)

section \<open>One line of printable ASCII\<close>

definition printable :: "pystr \<Rightarrow> bool" where
  "printable s \<longleftrightarrow> (\<forall>c \<in> set s. 32 \<le> c \<and> c \<le> 126)"

lemma printable_append [simp]: "printable (a @ b) \<longleftrightarrow> printable a \<and> printable b"
  by (auto simp: printable_def)

lemma printable_Cons [simp]: "printable (c # b) \<longleftrightarrow> (32 \<le> c \<and> c \<le> 126) \<and> printable b"
  by (auto simp: printable_def)

lemma printable_Nil [simp]: "printable []"
  by (simp add: printable_def)

lemma printable_join: "printable s \<Longrightarrow> \<forall>x \<in> set xs. printable x \<Longrightarrow> printable (join s xs)"
  by (induction s xs rule: join.induct) auto

lemma printable_dump_string: "text_ok s \<Longrightarrow> printable (dump_string s)"
  using esc_ascii by (auto simp: dump_string_def printable_def text_ok_def)

lemma printable_dec_int: "printable (dec_int i)"
  using dec_int_ascii by (auto simp: printable_def)

lemma dump_printable:
  "json_all text_ok Q j \<Longrightarrow> (\<And>f. printable (fr f)) \<Longrightarrow> printable (dump fr None lvl j)"
proof (induction j arbitrary: lvl rule: json_induct)
  case (JList xs)
  have "printable (join [44, 32] (map (dump fr None (Suc lvl)) xs))"
    using JList by (intro printable_join) auto
  then show ?case by (auto simp: newline_def item_sep_def)
next
  case (JObj ps)
  have "printable (join [44, 32]
      (map (\<lambda>(k, v). dump_string k @ [58, 32] @ dump fr None (Suc lvl) v) ps))"
    using JObj by (intro printable_join) (auto simp: printable_dump_string)
  then show ?case by (auto simp: newline_def item_sep_def)
qed (auto simp: S_def printable_dec_int printable_dump_string)

lemma dumps_printable:
  "json_all text_ok Q j \<Longrightarrow> (\<And>f. printable (fr f)) \<Longrightarrow> printable (dumps fr j)"
  using dump_printable [of Q "canon j" fr] by (simp add: dumps_def)

lemma dump_printable_plain: "plain ph j \<Longrightarrow> printable (dump fr None lvl j)"
proof (induction j arbitrary: lvl rule: json_induct)
  case (JList xs)
  have "printable (join [44, 32] (map (dump fr None (Suc lvl)) xs))"
    using JList by (intro printable_join) auto
  then show ?case by (auto simp: newline_def item_sep_def)
next
  case (JObj ps)
  have "printable (join [44, 32]
      (map (\<lambda>(k, v). dump_string k @ [58, 32] @ dump fr None (Suc lvl) v) ps))"
    using JObj by (intro printable_join) (auto simp: printable_dump_string str_ok_text_ok)
  then show ?case by (auto simp: newline_def item_sep_def)
qed (auto simp: S_def printable_dec_int printable_dump_string str_ok_text_ok)

section \<open>The limit on converting integers to text\<close>

text \<open>The number of decimal digits of an integer, without its sign.\<close>

definition int_digits :: "int \<Rightarrow> nat" where
  "int_digits i = length (dec_nat (nat \<bar>i\<bar>))"

text \<open>
  \<open>json.dumps\<close> on an interpreter whose limit is \<open>cap\<close> (0: none): \<open>int.__repr__\<close> raises a
  \<open>ValueError\<close> past it.
\<close>

definition json_dumps :: "nat \<Rightarrow> (pyfloat \<Rightarrow> pystr) \<Rightarrow> json \<Rightarrow> py_exc + pystr" where
  "json_dumps cap fr j =
     (if json_all (\<lambda>_. True) (\<lambda>i. cap = 0 \<or> int_digits i \<le> cap) j then Inr (dumps fr j)
      else Inl ValueError)"

lemma digits_val_bound: "list_all is_digit ds \<Longrightarrow> digits_val ds < 10 ^ length ds \<and> 0 \<le> digits_val ds"
proof (induction ds rule: rev_induct)
  case (snoc c ds)
  then have "digits_val ds < 10 ^ length ds" "0 \<le> digits_val ds" "int (c - 48) \<le> 9"
    by (auto simp: is_digit_def)
  then show ?case by (simp add: digits_val_snoc)
qed (simp add: digits_val_def)

lemma dec_nat_length: "n < 10 ^ k \<Longrightarrow> 0 < k \<Longrightarrow> length (dec_nat n) \<le> k"
proof (induction k arbitrary: n)
  case (Suc k)
  show ?case
  proof (cases "n < 10")
    case True
    then show ?thesis by (simp add: dec_nat.simps)
  next
    case False
    with Suc.prems have "n div 10 < 10 ^ k" by auto
    moreover have "0 < k" using False Suc.prems by (cases k) auto
    ultimately show ?thesis using Suc.IH [of "n div 10"] False by (simp add: dec_nat.simps [of n])
  qed
qed simp

lemma int_token_digits:
  assumes "int_token t"
  shows "int_digits (int_of_token t) \<le> length (lstrip_by ((=) 45) t)"
proof -
  define ds where "ds = (if t \<noteq> [] \<and> hd t = 45 then tl t else t)"
  have ds: "ds \<noteq> []" "list_all is_digit ds" using assms by (auto simp: int_token_def ds_def Let_def)
  then have "hd ds \<noteq> 45" by (cases ds) (auto simp: is_digit_def)
  then have l: "lstrip_by ((=) 45) t = ds"
    using ds(1) by (cases t; cases ds) (auto simp: ds_def lstrip_by_def split: if_splits)
  have "\<bar>int_of_token t\<bar> = digits_val ds"
    using digits_val_bound [OF ds(2)] ds by (cases t) (auto simp: int_of_token_def ds_def)
  then have "nat \<bar>int_of_token t\<bar> < 10 ^ length ds" using digits_val_bound [OF ds(2)]
    by (simp add: nat_less_iff)
  then show ?thesis using dec_nat_length [of _ "length ds"] ds(1) by (simp add: int_digits_def l)
qed

end
