(* ===== verification/Wire_Text.thy ===== *)
theory Wire_Text
  imports Json_Bounds
begin

text \<open>
  Bytes on a socket: the UTF-8 codec and \<open>readline\<close>, as the server and the client use them.
  \<open>utf8_next\<close> reads one code point or one maximal ill-formed part; \<open>errors="replace"\<close> turns the
  latter into U+FFFD, the strict decoder raises.

  The locale \<open>line_codec\<close> is the contract between the two ends of the wire: an encoder, a decoder
  that inverts it, and lines of ASCII that contain no line break.  What a reader of the stream gets
  is proved inside it, once for all messages.
\<close>

section \<open>UTF-8\<close>

definition is_cont :: "nat \<Rightarrow> bool" where
  "is_cont c \<longleftrightarrow> 128 \<le> c \<and> c \<le> 191"

text \<open>The second bytes allowed after a lead byte of three or four.\<close>

definition second_ok :: "nat \<Rightarrow> nat \<Rightarrow> bool" where
  "second_ok b c \<longleftrightarrow> is_cont c \<and> (b = 224 \<longrightarrow> 160 \<le> c) \<and> (b = 237 \<longrightarrow> c \<le> 159) \<and>
     (b = 240 \<longrightarrow> 144 \<le> c) \<and> (b = 244 \<longrightarrow> c \<le> 143)"

text \<open>The code point at the head, \<open>None\<close> where the bytes are ill-formed, and what follows.\<close>

definition utf8_next :: "nat \<Rightarrow> bytes \<Rightarrow> nat option \<times> bytes" where
  "utf8_next b r =
     (if b < 128 then (Some b, r)
      else if 194 \<le> b \<and> b \<le> 223
      then (case r of
          c # r1 \<Rightarrow> if is_cont c then (Some ((b - 192) * 64 + (c - 128)), r1) else (None, r)
        | [] \<Rightarrow> (None, r))
      else if 224 \<le> b \<and> b \<le> 239
      then (case r of
          c # r1 \<Rightarrow>
            if \<not> second_ok b c then (None, r)
            else (case r1 of
                d # r2 \<Rightarrow>
                  if is_cont d then (Some ((b - 224) * 4096 + (c - 128) * 64 + (d - 128)), r2)
                  else (None, r1)
              | [] \<Rightarrow> (None, r1))
        | [] \<Rightarrow> (None, r))
      else if 240 \<le> b \<and> b \<le> 244
      then (case r of
          c # r1 \<Rightarrow>
            if \<not> second_ok b c then (None, r)
            else (case r1 of
                d # r2 \<Rightarrow>
                  if \<not> is_cont d then (None, r1)
                  else (case r2 of
                      e # r3 \<Rightarrow>
                        if is_cont e
                        then (Some ((b - 240) * 262144 + (c - 128) * 4096 + (d - 128) * 64 + (e - 128)), r3)
                        else (None, r2)
                    | [] \<Rightarrow> (None, r2))
              | [] \<Rightarrow> (None, r1))
        | [] \<Rightarrow> (None, r))
      else (None, r))"

lemma utf8_next_length: "length (snd (utf8_next b r)) \<le> length r"
  by (auto simp: utf8_next_def split: list.splits)

lemma utf8_next_length_less [termination_simp]:
  "(u, r') = utf8_next b r \<Longrightarrow> length r' < Suc (length r)"
  using utf8_next_length [of b r] by (metis le_imp_less_Suc snd_conv)

text \<open>\<open>bs.decode("utf-8", errors="replace")\<close> and \<open>bs.decode("utf-8")\<close>.\<close>

fun utf8_replace :: "bytes \<Rightarrow> pystr" where
  "utf8_replace [] = []"
| "utf8_replace (b # r) =
     (let (u, r') = utf8_next b r
      in (case u of None \<Rightarrow> 65533 | Some c \<Rightarrow> c) # utf8_replace r')"

fun utf8_strict :: "bytes \<Rightarrow> pystr option" where
  "utf8_strict [] = Some []"
| "utf8_strict (b # r) =
     (let (u, r') = utf8_next b r
      in case u of None \<Rightarrow> None | Some c \<Rightarrow> map_option ((#) c) (utf8_strict r'))"

lemma three_bytes_scalar:
  assumes "b \<le> 239" and "second_ok b c" and "is_cont d"
  shows "scalar ((b - 224) * 4096 + (c - 128) * 64 + (d - 128))"
proof -
  have n: "128 \<le> c" "c \<le> 191" "128 \<le> d" "d \<le> 191" "b = 237 \<Longrightarrow> c \<le> 159"
    using assms by (auto simp: second_ok_def is_cont_def)
  consider "b \<le> 236" | "b = 237" | "238 \<le> b" by linarith
  then show ?thesis by cases (use n assms(1) in \<open>auto simp: scalar_def\<close>)
qed

lemma four_bytes_scalar:
  assumes "240 \<le> b" and "b \<le> 244" and "second_ok b c" and "is_cont d" and "is_cont e"
  shows "scalar ((b - 240) * 262144 + (c - 128) * 4096 + (d - 128) * 64 + (e - 128))"
proof -
  have n: "128 \<le> c" "c \<le> 191" "128 \<le> d" "d \<le> 191" "128 \<le> e" "e \<le> 191" "b = 240 \<Longrightarrow> 144 \<le> c" "b = 244 \<Longrightarrow> c \<le> 143"
    using assms by (auto simp: second_ok_def is_cont_def)
  consider "b = 240" | "241 \<le> b" "b \<le> 243" | "b = 244" using assms(1,2) by linarith
  then show ?thesis by cases (use n in \<open>auto simp: scalar_def\<close>)
qed

lemma two_bytes_scalar: "b \<le> 223 \<Longrightarrow> is_cont c \<Longrightarrow> scalar ((b - 192) * 64 + (c - 128))"
  by (auto simp: scalar_def is_cont_def)

lemma ascii_scalar: "b < 128 \<Longrightarrow> scalar b"
  by (simp add: scalar_def)

lemma utf8_next_scalar: "utf8_next b r = (Some c, r') \<Longrightarrow> scalar c"
  unfolding utf8_next_def
  by (auto simp: ascii_scalar two_bytes_scalar three_bytes_scalar four_bytes_scalar split: list.splits if_splits)

lemma utf8_replace_str_ok: "str_ok (utf8_replace bs)"
proof (induction bs rule: utf8_replace.induct)
  case (2 b r)
  obtain u r' where u: "utf8_next b r = (u, r')" by fastforce
  have "scalar (case u of None \<Rightarrow> 65533 | Some c \<Rightarrow> c)"
    using u by (auto simp: scalar_def dest: utf8_next_scalar split: option.splits)
  with 2 [OF u [symmetric] refl] show ?case by (simp add: u str_ok_def)
qed (simp add: str_ok_def)

lemma utf8_strict_replace: "utf8_strict bs = Some s \<Longrightarrow> utf8_replace bs = s"
proof (induction bs arbitrary: s rule: utf8_strict.induct)
  case (2 b r)
  obtain u r' where u: "utf8_next b r = (u, r')" by fastforce
  with 2 show ?case by (auto split: option.splits)
qed simp

definition ascii :: "pystr \<Rightarrow> bool" where
  "ascii s \<longleftrightarrow> (\<forall>c \<in> set s. c < 128)"

lemma ascii_simps [simp]: "ascii []" "ascii (c # s) \<longleftrightarrow> c < 128 \<and> ascii s"
    "ascii (s @ t) \<longleftrightarrow> ascii s \<and> ascii t"
  by (auto simp: ascii_def)

lemma printable_ascii: "printable s \<Longrightarrow> ascii s"
  by (fastforce simp: printable_def ascii_def)

lemma utf8_ascii [simp]: "ascii s \<Longrightarrow> utf8_replace s = s" "ascii s \<Longrightarrow> utf8_strict s = Some s"
  by (induction s) (auto simp: utf8_next_def)

text \<open>\<open>s.encode("utf-8")\<close>\<close>

definition utf8_char :: "nat \<Rightarrow> bytes" where
  "utf8_char c =
     (if c < 128 then [c]
      else if c < 2048 then [192 + c div 64, 128 + c mod 64]
      else if c < 65536 then [224 + c div 4096, 128 + c div 64 mod 64, 128 + c mod 64]
      else [240 + c div 262144, 128 + c div 4096 mod 64, 128 + c div 64 mod 64, 128 + c mod 64])"

definition utf8_encode :: "pystr \<Rightarrow> bytes" where
  "utf8_encode s = concat (map utf8_char s)"

lemma utf8_encode_ascii [simp]: "ascii s \<Longrightarrow> utf8_encode s = s"
  by (induction s) (auto simp: utf8_encode_def utf8_char_def)

section \<open>Reading lines\<close>

text \<open>
  \<open>rfile.readline(limit)\<close> on the bytes still to come: up to and including a newline, at most
  \<open>limit\<close> bytes, nothing at the end of the stream.  \<open>readline()\<close> has no limit.
\<close>

definition line_length :: "bytes \<Rightarrow> nat" where
  "line_length s =
     (let n = length (takeWhile (\<lambda>c. c \<noteq> 10) s) in if n < length s then Suc n else n)"

definition readline_max :: "nat \<Rightarrow> bytes \<Rightarrow> bytes \<times> bytes" where
  "readline_max limit s = (let n = min limit (line_length s) in (take n s, drop n s))"

definition readline :: "bytes \<Rightarrow> bytes \<times> bytes" where
  "readline s = (let n = line_length s in (take n s, drop n s))"

definition rstrip_crlf :: "pystr \<Rightarrow> pystr" where
  "rstrip_crlf s = rstrip_by (\<lambda>c. c = 13 \<or> c = 10) s"

lemma line_length_pos: "s \<noteq> [] \<Longrightarrow> 0 < line_length s"
  by (cases s) (auto simp: line_length_def)

lemma readline_max_append: "fst (readline_max n s) @ snd (readline_max n s) = s"
  by (simp add: readline_max_def Let_def)

lemma readline_max_progress:
  "readline_max n s = (l, r) \<Longrightarrow> l \<noteq> [] \<Longrightarrow> length r < length s"
  by (auto simp: readline_max_def Let_def)

lemma readline_max_Nil: "0 < n \<Longrightarrow> fst (readline_max n s) = [] \<longleftrightarrow> s = []"
  using line_length_pos [of s]
  by (cases "s = []") (auto simp: readline_max_def Let_def min_def)

lemma readline_max_length: "length (fst (readline_max n s)) \<le> n"
  by (simp add: readline_max_def Let_def)

lemma line_length_frame: "10 \<notin> set l \<Longrightarrow> line_length (l @ 10 # r) = Suc (length l)"
proof -
  assume "10 \<notin> set l"
  then have "takeWhile (\<lambda>c. c \<noteq> 10) (l @ 10 # r) = l"
    by (subst takeWhile_append2) auto
  then show ?thesis by (simp add: line_length_def)
qed

lemma readline_max_frame:
  "10 \<notin> set l \<Longrightarrow> length l < n \<Longrightarrow> readline_max n (l @ 10 # r) = (l @ [10], r)"
  by (cases "n = Suc (length l)") (auto simp: readline_max_def Let_def line_length_frame min_def)

lemma readline_frame: "10 \<notin> set l \<Longrightarrow> readline (l @ 10 # r) = (l @ [10], r)"
  by (simp add: readline_def Let_def line_length_frame)

lemma rstrip_crlf_frame:
  "13 \<notin> set l \<Longrightarrow> 10 \<notin> set l \<Longrightarrow> rstrip_crlf (l @ [10]) = l"
  unfolding rstrip_crlf_def rstrip_by_snoc by (subst rstrip_by_none) auto

lemma rstrip_crlf_printable: "printable l \<Longrightarrow> rstrip_crlf (l @ [10]) = l"
  by (rule rstrip_crlf_frame) (auto simp: printable_def)

section \<open>Messages on a line-delimited stream\<close>

text \<open>The lines of a whole stream, as repeated \<open>readline()\<close> returns them.\<close>

function stream_lines :: "bytes \<Rightarrow> bytes list" where
  "stream_lines s = (if s = [] then [] else fst (readline s) # stream_lines (snd (readline s)))"
  by pat_completeness auto

termination
proof (relation "measure length")
  fix s :: bytes assume "s \<noteq> []"
  then show "(snd (readline s), s) \<in> measure length"
    using line_length_pos [of s] by (cases s) (auto simp: readline_def Let_def)
qed simp

declare stream_lines.simps [simp del]

locale line_codec =
  fixes enc :: "'m \<Rightarrow> pystr" and dec :: "pystr \<Rightarrow> 'm option"
    and ok :: "'m \<Rightarrow> bool" and norm :: "'m \<Rightarrow> 'm"
  assumes dec_enc: "ok m \<Longrightarrow> dec (enc m) = Some (norm m)"
    and enc_printable: "ok m \<Longrightarrow> printable (enc m)"
begin

lemma enc_no_newline: "ok m \<Longrightarrow> 10 \<notin> set (enc m)"
  using enc_printable [of m] by (auto simp: printable_def)

lemma encode_line: "ok m \<Longrightarrow> utf8_encode (enc m @ [10]) = enc m @ [10]"
  using printable_ascii [OF enc_printable] by simp

lemma receive_replace:
  "ok m \<Longrightarrow> dec (rstrip_crlf (utf8_replace (utf8_encode (enc m @ [10])))) = Some (norm m)"
  using printable_ascii [OF enc_printable [of m]] enc_printable [of m]
  by (simp add: encode_line dec_enc rstrip_crlf_printable)

lemma first_line:
  "ok m \<Longrightarrow> length (enc m) < n \<Longrightarrow>
     readline_max n (utf8_encode (enc m @ [10]) @ r) = (utf8_encode (enc m @ [10]), r)"
  by (simp add: encode_line readline_max_frame enc_no_newline)

lemma stream_of_messages:
  "\<forall>m \<in> set ms. ok m \<Longrightarrow>
     map (\<lambda>l. dec (rstrip_crlf (utf8_replace l))) (stream_lines (concat (map (\<lambda>m. utf8_encode (enc m @ [10])) ms))) =
     map (\<lambda>m. Some (norm m)) ms"
proof (induction ms)
  case (Cons m ms)
  let ?l = "utf8_encode (enc m @ [10])" and ?r = "concat (map (\<lambda>m. utf8_encode (enc m @ [10])) ms)"
  have ok: "ok m" using Cons.prems by simp
  have "readline (?l @ ?r) = (?l, ?r)"
    using readline_frame [OF enc_no_newline [OF ok], of ?r] ok by (simp add: encode_line)
  moreover have "?l \<noteq> []" using ok by (simp add: encode_line)
  ultimately have "stream_lines (?l @ ?r) = ?l # stream_lines ?r"
    by (subst stream_lines.simps) simp
  with Cons receive_replace [OF ok] show ?case by simp
qed (simp add: stream_lines.simps)

end

end
