(* ===== verification/Protocol.thy ===== *)
theory Protocol
  imports Wire_Text
begin

text \<open>
  One request and its answer, without the socket (\<open>simulator/simulator.py\<close>):
  \<open>exceeds_nesting_limit\<close>, \<open>_parse_int\<close>, \<open>decode_request\<close>, \<open>build_response\<close> and the adjustment of
  the interpreter's digit limit at import.

  The interpretation \<open>wire\<close> of \<open>line_codec\<close> discharges the contract of the wire for
  \<open>json.dumps(sort_keys=True)\<close> and \<open>decode_request\<close>: what a client writes, the server reads.
\<close>

section \<open>Limits\<close>

definition MAX_NESTING_DEPTH :: nat where
  "MAX_NESTING_DEPTH = 100"

definition MAX_INT_DIGITS :: nat where
  "MAX_INT_DIGITS = 4300"

text \<open>
  The interpreter's digit limit after the module is imported, from its value before.
\<close>

definition raise_int_limit :: "nat \<Rightarrow> nat" where
  "raise_int_limit current = (if current < MAX_INT_DIGITS then MAX_INT_DIGITS else current)"

text \<open>\<open>current\<close> as \<open>sys.get_int_max_str_digits\<close> gives it: does the interpreter convert \<open>n\<close> digits?\<close>

definition int_limit_allows :: "nat \<Rightarrow> nat \<Rightarrow> bool" where
  "int_limit_allows current n \<longleftrightarrow> current = 0 \<or> n \<le> current"

section \<open>The nesting check\<close>

fun children :: "json \<Rightarrow> json list" where
  "children (JObj ps) = map snd ps"
| "children (JList xs) = xs"
| "children _ = []"

lemma sum_children: "sum_list (map (\<lambda>x. Suc (size x)) (children j)) < Suc (size j)"
proof (cases j)
  case (JObj ps)
  have "sum_list (map (Suc \<circ> size \<circ> snd) ps) \<le> size_list (\<lambda>p. Suc (size (snd p))) ps"
    by (induction ps) auto
  moreover have "size_list (\<lambda>p. Suc (size (snd p))) ps = size_list (size_prod (\<lambda>_. 0) size) ps"
    by (induction ps) (auto split: prod.splits)
  ultimately show ?thesis by (simp add: JObj comp_def)
next
  case (JList xs)
  have "sum_list (map (\<lambda>x. Suc (size x)) xs) = size_list size xs"
    by (induction xs) auto
  then show ?thesis by (simp add: JList)
qed auto

text \<open>
  The worklist of \<open>exceeds_nesting_limit\<close>, top of the stack first: \<open>stack.extend\<close> puts the last
  child on top.
\<close>

function exceeds_loop :: "nat \<Rightarrow> (json \<times> nat) list \<Rightarrow> bool" where
  "exceeds_loop limit [] = False"
| "exceeds_loop limit ((current, depth) # stack) =
     (if limit < depth then True
      else exceeds_loop limit (rev (map (\<lambda>item. (item, depth + 1)) (children current)) @ stack))"
  by pat_completeness auto

termination
proof (relation "measure (\<lambda>(limit, stack). sum_list (map (\<lambda>(j, d). Suc (size j)) stack))")
  fix limit depth :: nat and current :: json and stack :: "(json \<times> nat) list"
  assume "\<not> limit < depth"
  have "sum_list (map ((\<lambda>(j, d). Suc (size j)) \<circ> (\<lambda>item. (item, depth + 1))) (rev (children current))) =
      sum_list (map (\<lambda>x. Suc (size x)) (children current))"
    by (simp add: comp_def rev_map [symmetric] sum_list_rev)
  with sum_children [of current]
  show "((limit, rev (map (\<lambda>item. (item, depth + 1)) (children current)) @ stack),
      (limit, (current, depth) # stack)) \<in>
      measure (\<lambda>(limit, stack). sum_list (map (\<lambda>(j, d). Suc (size j)) stack))"
    by (simp add: rev_map)
qed simp

definition exceeds_nesting_limit :: "json \<Rightarrow> nat \<Rightarrow> bool" where
  "exceeds_nesting_limit v limit = exceeds_loop limit [(v, 1)]"

lemma nesting_children: "nesting j \<le> n \<longleftrightarrow> 1 \<le> n \<and> (\<forall>x \<in> set (children j). nesting x \<le> n - 1)"
  by (cases n; cases j) (auto simp: foldr_max_le)

lemma exceeds_loop_iff:
  "exceeds_loop limit stack \<longleftrightarrow> (\<exists>(j, d) \<in> set stack. limit < d + nesting j - 1)"
proof (induction limit stack rule: exceeds_loop.induct)
  case (2 limit current depth stack)
  show ?case
  proof (cases "limit < depth")
    case True
    then show ?thesis using nesting_pos [of current] by auto
  next
    case False
    have "(\<exists>x \<in> set (children current). limit < depth + nesting x) \<longleftrightarrow>
        limit < depth + nesting current - 1"
      using nesting_children [of current "limit - depth + 1"] False nesting_pos [of current] by force
    moreover have "(\<exists>(j, d) \<in> set (rev (map (\<lambda>item. (item, depth + 1)) (children current)) @ stack).
          limit < d + nesting j - 1) \<longleftrightarrow>
        (\<exists>x \<in> set (children current). limit < depth + nesting x) \<or>
        (\<exists>(j, d) \<in> set stack. limit < d + nesting j - 1)"
      unfolding set_append bex_Un set_rev set_map by auto
    ultimately show ?thesis using "2" [OF False] False by (simp del: rev_map)
  qed
qed simp

lemma exceeds_nesting_limit_iff: "exceeds_nesting_limit v limit \<longleftrightarrow> limit < nesting v"
  by (simp add: exceeds_nesting_limit_def exceeds_loop_iff)

section \<open>Decoding a request\<close>

text \<open>
  \<open>_parse_int\<close>; \<open>cap\<close> is the interpreter's own limit, which \<open>int(token)\<close> still enforces.
\<close>

definition parse_int :: "nat \<Rightarrow> pystr \<Rightarrow> py_exc + int" where
  "parse_int cap token =
     (if MAX_INT_DIGITS < length (lstrip_by ((=) 45) token) then Inl ValueError
      else builtin_int cap token)"

text \<open>
  \<open>decode_request\<close>: \<open>Some message\<close> is \<open>(message, True)\<close> and \<open>None\<close> is \<open>(None, False)\<close>.  Both
  exceptions of the model's \<open>loads\<close> are among those the code catches.
\<close>

definition decode_request :: "nat \<Rightarrow> nat \<Rightarrow> pystr \<Rightarrow> json option" where
  "decode_request cap depth raw_line =
     (case loads (parse_int cap) depth raw_line of
        Inl _ \<Rightarrow> None
      | Inr message \<Rightarrow> if exceeds_nesting_limit message MAX_NESTING_DEPTH then None else Some message)"

section \<open>Answering it\<close>

definition k_sequence :: pystr where "k_sequence = S ''sequence''"
definition k_command :: pystr where "k_command = S ''command''"
definition k_status :: pystr where "k_status = S ''status''"
definition k_state :: pystr where "k_state = S ''state''"
definition k_error_code :: pystr where "k_error_code = S ''error_code''"
definition k_message :: pystr where "k_message = S ''message''"

lemmas protocol_key_defs = k_sequence_def k_command_def k_status_def k_state_def k_error_code_def
  k_message_def

text \<open>\<open>message.get(key)\<close>: \<open>None\<close> for an absent key.\<close>

definition get_or_null :: "obj \<Rightarrow> pystr \<Rightarrow> json" where
  "get_or_null d k = (case dget d k of None \<Rightarrow> JNull | Some v \<Rightarrow> v)"

definition build_response :: "json \<Rightarrow> obj" where
  "build_response message = (case message of
     JObj d \<Rightarrow>
       (let sequence = get_or_null d k_sequence; command = get_or_null d k_command
        in if command = JNull
           then [(k_status, JStr (S ''error'')), (k_error_code, JStr (S ''MISSING_COMMAND'')),
                 (k_sequence, sequence)]
           else if command = JStr (S ''status'')
           then [(k_status, JStr (S ''ok'')), (k_state, JStr (S ''READY'')), (k_sequence, sequence)]
           else [(k_status, JStr (S ''error'')), (k_error_code, JStr (S ''UNSUPPORTED_COMMAND'')),
                 (k_command, command), (k_sequence, sequence)])
   | _ \<Rightarrow> [(k_status, JStr (S ''error'')), (k_error_code, JStr (S ''INVALID_MESSAGE_TYPE'')),
           (k_message, JStr (S ''Request must be a JSON object''))])"

definition invalid_json_response :: obj where
  "invalid_json_response = [(k_status, JStr (S ''error'')), (k_error_code, JStr (S ''INVALID_JSON''))]"

text \<open>The answer to a decoded or rejected request.\<close>

definition response_for :: "json option \<Rightarrow> obj" where
  "response_for decoded = (case decoded of None \<Rightarrow> invalid_json_response | Some m \<Rightarrow> build_response m)"

section \<open>The digit limit\<close>

lemma raised_limit_allows: "n \<le> MAX_INT_DIGITS \<Longrightarrow> int_limit_allows (raise_int_limit current) n"
  by (auto simp: int_limit_allows_def raise_int_limit_def)

lemma parse_int_Inr:
  "parse_int cap t = Inr i \<Longrightarrow> length (lstrip_by ((=) 45) t) \<le> MAX_INT_DIGITS \<and> i = int_of_token t"
  by (auto simp: parse_int_def builtin_int_def split: if_splits)

lemma parse_int_raised:
  "parse_int (raise_int_limit current) t =
     (if MAX_INT_DIGITS < length (lstrip_by ((=) 45) t) then Inl ValueError else Inr (int_of_token t))"
  by (auto simp: parse_int_def builtin_int_def raise_int_limit_def)

lemma parse_int_no_fuel: "parse_int cap t \<noteq> Inl OutOfFuel"
  by (simp add: parse_int_def builtin_int_def)

text \<open>What a decoded request is made of.\<close>

definition request_ok :: "json \<Rightarrow> bool" where
  "request_ok m \<longleftrightarrow> wf_json m \<and> nesting m \<le> MAX_NESTING_DEPTH \<and>
     json_all text_ok (\<lambda>i. int_digits i \<le> MAX_INT_DIGITS) m"

lemma decode_request_Some:
  "decode_request cap depth t = Some m \<longleftrightarrow>
     loads (parse_int cap) depth t = Inr m \<and> nesting m \<le> MAX_NESTING_DEPTH"
  by (auto simp: decode_request_def exceeds_nesting_limit_iff split: sum.splits)

lemma decode_request_ok: "decode_request cap depth t = Some m \<Longrightarrow> text_ok t \<Longrightarrow> request_ok m"
proof -
  assume m: "decode_request cap depth t = Some m" and t: "text_ok t"
  have "int_digits i \<le> MAX_INT_DIGITS" if "int_token u" "parse_int cap u = Inr i" for u i
    using parse_int_Inr [OF that(2)] int_token_digits [OF that(1)] by simp
  with loads_all [of "parse_int cap" depth t m] loads_wf [of "parse_int cap" depth t m] m t
  show ?thesis by (auto simp: decode_request_Some request_ok_def)
qed

lemma request_ok_get: "request_ok (JObj d) \<Longrightarrow> json_all text_ok (\<lambda>i. int_digits i \<le> MAX_INT_DIGITS) (get_or_null d k)"
  by (auto simp: request_ok_def get_or_null_def dest: map_of_SomeD split: option.splits)

lemma response_for_all:
  assumes "\<And>m. decoded = Some m \<Longrightarrow> request_ok m"
  shows "json_all text_ok (\<lambda>i. int_digits i \<le> MAX_INT_DIGITS) (JObj (response_for decoded))"
proof (cases decoded)
  case None
  then show ?thesis
    by (simp add: response_for_def invalid_json_response_def protocol_key_defs text_ok_def S_def)
next
  case (Some m)
  have ok: "request_ok m" using assms Some by simp
  show ?thesis
  proof (cases m)
    case (JObj d)
    then show ?thesis using ok request_ok_get [of d] Some
      by (simp add: response_for_def build_response_def Let_def protocol_key_defs text_ok_def S_def)
  qed (use Some in \<open>simp_all add: response_for_def build_response_def protocol_key_defs text_ok_def S_def\<close>)
qed

lemma json_dumps_response:
  assumes "\<And>m. decoded = Some m \<Longrightarrow> request_ok m"
  shows "json_dumps (raise_int_limit current) fr (JObj (response_for decoded)) =
    Inr (dumps fr (JObj (response_for decoded)))"
proof -
  have "json_all (\<lambda>_. True)
      (\<lambda>i. raise_int_limit current = 0 \<or> int_digits i \<le> raise_int_limit current)
      (JObj (response_for decoded))"
    by (rule json_all_mono [OF response_for_all [OF assms]]) (auto simp: raise_int_limit_def)
  then show ?thesis by (simp add: json_dumps_def)
qed

section \<open>Recursion limits and duplicate keys\<close>

text \<open>The text never repeats a key within an object, as far as it is valid JSON.\<close>

definition distinct_keys :: "pystr \<Rightarrow> bool" where
  "distinct_keys t \<longleftrightarrow> (\<forall>ph depth j. parse_raw ph depth t = Inr j \<longrightarrow> wf_json j)"

lemma decode_request_depth:
  assumes "distinct_keys t" and "MAX_NESTING_DEPTH \<le> depth" and "depth \<le> depth'"
  shows "decode_request cap depth' t = decode_request cap depth t"
proof (cases "parse_raw (parse_int cap) depth t = Inl RecursionError")
  case False
  then show ?thesis using parse_raw_mono [OF _ assms(3)] by (simp add: decode_request_def loads_def)
next
  case True
  have "decode_request cap depth' t = None"
  proof (cases "parse_raw (parse_int cap) depth' t")
    case (Inr j)
    have "depth < containers j"
      using True parse_raw_least [OF Inr, of depth] by (cases "containers j \<le> depth") auto
    moreover have "wf_json j" using assms(1) Inr by (auto simp: distinct_keys_def)
    ultimately show ?thesis using containers_le_nesting [of j] assms(2) Inr
      by (simp add: decode_request_def loads_def exceeds_nesting_limit_iff collapse_id)
  qed (simp add: decode_request_def loads_def)
  with True show ?thesis by (simp add: decode_request_def loads_def)
qed

text \<open>A list in a list in a list.\<close>

fun deep_list :: "nat \<Rightarrow> json" where
  "deep_list 0 = JList []"
| "deep_list (Suc n) = JList [deep_list n]"

lemma deep_list_simps [simp]:
  "containers (deep_list n) = Suc n" "plain ph (deep_list n)" "wf_json (deep_list n)"
  by (induction n) auto

lemma plain_parse_int_raised:
  "plain (parse_int (raise_int_limit a)) j = plain (parse_int (raise_int_limit b)) j"
proof -
  have "parse_int (raise_int_limit a) = parse_int (raise_int_limit b)"
    by (rule ext) (simp add: parse_int_raised)
  then show ?thesis by simp
qed

lemma distinct_keys_dump:
  assumes "\<And>ph. plain ph j" and "wf_json j"
  shows "distinct_keys (dump fr ind 0 j)"
  unfolding distinct_keys_def
proof (intro allI impI)
  fix ph depth j' assume p: "parse_raw ph depth (dump fr ind 0 j) = Inr j'"
  let ?d = "max depth (containers j)"
  have "parse_raw ph ?d (dump fr ind 0 j) = Inr j'"
    using p parse_raw_mono [of ph depth _ ?d] by simp
  moreover have "parse_raw ph ?d (dump fr ind 0 j) = Inr j"
    using assms(1) by (intro parse_raw_dump) auto
  ultimately show "wf_json j'" using assms(2) by simp
qed

section \<open>The wire\<close>

definition sendable :: "json \<Rightarrow> bool" where
  "sendable m \<longleftrightarrow> wf_json m \<and> plain (parse_int 0) m \<and> nesting m \<le> MAX_NESTING_DEPTH"

lemma parse_int_raised_eq: "parse_int (raise_int_limit current) = parse_int 0"
  by (rule ext) (auto simp: parse_int_def builtin_int_def raise_int_limit_def)

lemma decode_request_dumps:
  assumes "sendable m" and "MAX_NESTING_DEPTH \<le> depth"
  shows "decode_request (raise_int_limit current) depth (dumps fr m) = Some (canon m)"
proof -
  have "containers m \<le> depth"
    using assms containers_le_nesting [of m] by (simp add: sendable_def)
  then show ?thesis using assms(1)
    by (simp add: decode_request_Some sendable_def loads_dumps parse_int_raised_eq)
qed

interpretation wire: line_codec "dumps fr" "decode_request (raise_int_limit current) (MAX_NESTING_DEPTH + room)"
    sendable canon for fr current room
proof unfold_locales
  fix m assume ok: "sendable m"
  show "decode_request (raise_int_limit current) (MAX_NESTING_DEPTH + room) (dumps fr m) = Some (canon m)"
    using decode_request_dumps [OF ok] by simp
  show "printable (dumps fr m)"
    using ok dump_printable_plain [of "parse_int 0" "canon m"] by (simp add: sendable_def dumps_def)
qed

section \<open>Properties\<close>

text \<open>
  The iterative nesting check computes the nesting depth: it answers true exactly for a value
  whose deepest part is at a depth above the limit, whatever the value and the limit, and it
  always terminates.
\<close>

theorem nesting_limit_exact: "exceeds_nesting_limit v limit \<longleftrightarrow> limit < nesting v"
  by (rule exceeds_nesting_limit_iff)

text \<open>
  C31: For a request that repeats no key, what it decodes to does not depend on the interpreter:
  neither on its integer digit limit before the module was imported, nor on its recursion limit,
  as long as that leaves room for the protocol's nesting.
\<close>

theorem decode_interpreter_independent:
  assumes "distinct_keys t" and "MAX_NESTING_DEPTH \<le> depth" and "MAX_NESTING_DEPTH \<le> depth'"
  shows "decode_request (raise_int_limit current) depth t =
    decode_request (raise_int_limit current') depth' t"
proof -
  have "decode_request (raise_int_limit current) d t = decode_request (raise_int_limit current') d t" for d
    by (simp add: decode_request_def parse_int_raised_eq)
  then show ?thesis
    using decode_request_depth [OF assms(1,2)] decode_request_depth [OF assms(1,3)] nat_le_linear by metis
qed

theorem decode_interpreter_independent_witness:
  "decode_request (raise_int_limit 0) 100 (dump (\<lambda>_. []) None 0 (JObj [(k_command, JStr (S ''status''))])) =
   decode_request (raise_int_limit 640) 900 (dump (\<lambda>_. []) None 0 (JObj [(k_command, JStr (S ''status''))]))"
  by (rule decode_interpreter_independent, rule distinct_keys_dump)
    (simp_all add: MAX_NESTING_DEPTH_def k_command_def str_ok_def scalar_def S_def dict_ok_def dkeys_def)

text \<open>
  A repeated key breaks this: the nesting check looks at the dict \<open>json.loads\<close> built, where
  the last pair has won, so a request whose deep value is overwritten by a later pair is rejected
  on an interpreter that can just nest to the protocol's limit and accepted on one with more room.
\<close>

theorem duplicate_key_hides_nesting:
  "\<exists>t m. decode_request (raise_int_limit current) MAX_NESTING_DEPTH t = None \<and>
     (\<forall>extra. decode_request (raise_int_limit current) (MAX_NESTING_DEPTH + 2 + extra) t = Some m)"
proof -
  define j where "j = JObj [(k_command, deep_list MAX_NESTING_DEPTH), (k_command, JStr (S ''status''))]"
  define t where "t = dump (\<lambda>_. []) None 0 j"
  let ?ph = "parse_int (raise_int_limit current)"
  have p: "plain ph j" for ph
    by (simp add: j_def k_command_def str_ok_def scalar_def S_def)
  have c: "containers j = MAX_NESTING_DEPTH + 2" by (simp add: j_def)
  have raw: "parse_raw ?ph depth t = Inr j" if "MAX_NESTING_DEPTH + 2 \<le> depth" for depth
    using parse_raw_dump [OF p] that c by (simp add: t_def)
  have "parse_raw ?ph MAX_NESTING_DEPTH t \<noteq> Inr x" for x
  proof
    assume x: "parse_raw ?ph MAX_NESTING_DEPTH t = Inr x"
    then have "parse_raw ?ph (MAX_NESTING_DEPTH + 2) t = Inr x" by (subst parse_raw_mono) auto
    then show False using raw [of "MAX_NESTING_DEPTH + 2"] parse_raw_bound [OF x] c by simp
  qed
  then have "decode_request (raise_int_limit current) MAX_NESTING_DEPTH t = None"
    by (cases "parse_raw ?ph MAX_NESTING_DEPTH t") (auto simp: decode_request_def loads_def)
  moreover have "decode_request (raise_int_limit current) (MAX_NESTING_DEPTH + 2 + extra) t =
      Some (JObj [(k_command, JStr (S ''status''))])" for extra
    using raw [of "MAX_NESTING_DEPTH + 2 + extra"]
    by (simp add: decode_request_Some loads_def j_def dict_of_def dset_def MAX_NESTING_DEPTH_def)
  ultimately show ?thesis by blast
qed

text \<open>
  C32: A request a client writes with \<open>json.dumps(sort_keys=True)\<close> is decoded to the message that
  was sent, with its keys in order: line framing, UTF-8 and the parser lose nothing.
\<close>

theorem request_wire_roundtrip:
  assumes "sendable m" and "MAX_NESTING_DEPTH \<le> depth"
  shows "decode_request (raise_int_limit current) depth
      (rstrip_crlf (utf8_replace (utf8_encode (dumps fr m @ [10])))) = Some (canon m)"
  using wire.receive_replace [OF assms(1), of current "depth - MAX_NESTING_DEPTH" fr] assms(2) by simp

theorem request_wire_roundtrip_witness:
  "decode_request (raise_int_limit 4300) 900
     (rstrip_crlf (utf8_replace (utf8_encode (dumps (\<lambda>_. [])
       (JObj [(k_sequence, JInt 7), (k_command, JStr (S ''status''))]) @ [10])))) =
   Some (JObj [(k_command, JStr (S ''status'')), (k_sequence, JInt 7)])"
  using request_wire_roundtrip [of "JObj [(k_sequence, JInt 7), (k_command, JStr (S ''status''))]" 900]
  by (simp add: sendable_def protocol_key_defs str_ok_def scalar_def S_def dict_ok_def dkeys_def
      MAX_NESTING_DEPTH_def MAX_INT_DIGITS_def parse_int_def builtin_int_def dec_int_def dec_nat.simps
      lstrip_by_def int_of_token_def digits_val_def)

text \<open>
  C33: Whatever bytes arrive, the answer can be written: serialising it raises nothing, although
  it echoes client data and the interpreter limits the conversion of integers, and it is one line
  of printable ASCII.
\<close>

theorem answer_is_one_line:
  assumes "\<And>f. printable (fr f)"
  shows "\<exists>line. json_dumps (raise_int_limit current) fr
      (JObj (response_for (decode_request cap depth (rstrip_crlf (utf8_replace bs))))) = Inr line \<and>
    printable line"
proof -
  let ?d = "decode_request cap depth (rstrip_crlf (utf8_replace bs))"
  have "text_ok (rstrip_crlf (utf8_replace bs))"
    using str_ok_text_ok [OF utf8_replace_str_ok] set_rstrip_by text_ok_mono
    unfolding rstrip_crlf_def by blast
  then have ok: "request_ok m" if "?d = Some m" for m using decode_request_ok that by blast
  have "json_all text_ok (\<lambda>i. int_digits i \<le> MAX_INT_DIGITS) (JObj (response_for ?d))"
    by (rule response_for_all) (rule ok)
  then have "printable (dumps fr (JObj (response_for ?d)))"
    by (rule dumps_printable) (rule assms)
  with json_dumps_response [OF ok] show ?thesis by blast
qed

theorem answer_is_one_line_witness:
  "\<exists>line. json_dumps (raise_int_limit 640) (\<lambda>_. S ''1.5'')
      (JObj (response_for (decode_request 4300 900 (rstrip_crlf (utf8_replace [123, 255, 10]))))) = Inr line \<and>
    printable line"
  by (rule answer_is_one_line) (simp add: S_def)

text \<open>
  The device reports \<open>ok\<close> exactly for a request that decodes to an object whose command is the
  string \<open>status\<close>, and every object's sequence number comes back unchanged, \<open>null\<close> when it has none.
\<close>

theorem ok_iff_status:
  "(dget (response_for decoded) k_status = Some (JStr (S ''ok'')) \<longleftrightarrow>
      (\<exists>d. decoded = Some (JObj d) \<and> dget d k_command = Some (JStr (S ''status'')))) \<and>
   (case decoded of
      Some (JObj d) \<Rightarrow> dget (response_for decoded) k_sequence = Some (get_or_null d k_sequence)
    | _ \<Rightarrow> dget (response_for decoded) k_sequence = None)"
proof (cases "\<exists>d. decoded = Some (JObj d)")
  case True
  then obtain d where d: "decoded = Some (JObj d)" by blast
  have "get_or_null d k_command = JStr (S ''status'') \<longleftrightarrow> dget d k_command = Some (JStr (S ''status''))"
    by (auto simp: get_or_null_def split: option.splits)
  then show ?thesis using d
    by (cases "get_or_null d k_command = JNull"; cases "get_or_null d k_command = JStr (S ''status'')")
      (auto simp: response_for_def build_response_def Let_def protocol_key_defs)
next
  case False
  then show ?thesis
    by (auto simp: response_for_def build_response_def invalid_json_response_def protocol_key_defs
        split: option.splits json.splits)
qed

text \<open>
  After the import the interpreter converts every integer the protocol accepts, whatever its
  limit was before; but an interpreter with no limit (0) is given one, so a limit above the
  protocol's is not always kept.
\<close>

theorem digit_limit_after_import:
  "(\<forall>n \<le> MAX_INT_DIGITS. int_limit_allows (raise_int_limit current) n) \<and>
   (\<forall>n. int_limit_allows current n \<longrightarrow> current \<noteq> 0 \<longrightarrow> int_limit_allows (raise_int_limit current) n) \<and>
   (int_limit_allows 0 (Suc MAX_INT_DIGITS) \<and> \<not> int_limit_allows (raise_int_limit 0) (Suc MAX_INT_DIGITS))"
  using raised_limit_allows by (auto simp: int_limit_allows_def raise_int_limit_def MAX_INT_DIGITS_def)

theorem digit_limit_after_import_witness:
  "int_limit_allows (raise_int_limit 1000) 1001"
  using digit_limit_after_import [of 1000] by (simp add: MAX_INT_DIGITS_def)

end
