(* ===== verification/Dut_Server.thy ===== *)
theory Dut_Server
  imports Fault_Config Protocol
begin

text \<open>
  The server of the simulated device (\<open>simulator/simulator.py\<close>): \<open>DutRequestHandler.handle\<close>, one
  connection at a time.  A handler is a function from the server's request count and
  the bytes still to come to the new count and the list of its actions in order: log records, bytes
  sent, sleeps.  How it ends is a \<open>control\<close> value: the loop goes on, \<open>break\<close>s or \<open>return\<close>s, the
  process exits, or an exception unwinds the connection thread.

  \<open>Dut_Concurrency\<close> interleaves several connections, \<open>Dut_Lifecycle\<close> starts and stops the server.
\<close>

section \<open>The server's world\<close>

text \<open>
  The interpreter the server runs on: its integer digit limit before the module was imported, how
  many nested containers its JSON decoder can recurse into, and \<open>repr\<close> of a float.
\<close>

record interpreter =
  int_max_str_digits :: nat
  recursion_room :: nat
  float_repr :: "pyfloat \<Rightarrow> pystr"

definition int_cap :: "interpreter \<Rightarrow> nat" where
  "int_cap py = raise_int_limit (int_max_str_digits py)"

definition MAX_LINE_BYTES :: nat where
  "MAX_LINE_BYTES = 1048576"

datatype log_event =
    Client_connected | Client_disconnected
  | Request pystr | Request_too_long nat nat
  | Fault_termination int | Fault_drop | Fault_delayed int | Fault_malformed | Fault_startup int
  | Request_bytes nat bytes
  | Response obj | Response_detail json "pystr list"
  | Dut_ready pystr int | Shutdown_requested int | Dut_stopped bool

datatype action = Log log_event | Send bytes | Sleep int

datatype control = Next_line | Break_loop | Return | Exit_process | Raised py_exc

section \<open>One request\<close>

definition malformed_line :: bytes where
  "malformed_line = S ''this-is-not-json'' @ [10]"

text \<open>\<open>self.wfile.write((text + "\\n").encode("utf-8"))\<close>\<close>

definition send_line :: "pystr \<Rightarrow> action" where
  "send_line text = Send (utf8_encode (text @ [10]))"

definition request_text :: "bytes \<Rightarrow> pystr" where
  "request_text line = rstrip_crlf (utf8_replace line)"

definition request_response :: "interpreter \<Rightarrow> bytes \<Rightarrow> obj" where
  "request_response py line =
     response_for (decode_request (int_cap py) (recursion_room py) (request_text line))"

text \<open>The handler from \<open>if faults.drop_connection\<close> to the end of the loop body.\<close>

definition answer_line :: "interpreter \<Rightarrow> fault_config \<Rightarrow> bytes \<Rightarrow> action list \<times> control" where
  "answer_line py faults line =
     (if drop_connection faults then ([Log Fault_drop], Return)
      else
        let response = request_response py line;
            delay = (if 0 < response_delay_ms faults
                     then [Log (Fault_delayed (response_delay_ms faults)), Sleep (response_delay_ms faults)]
                     else []);
            before = Log (Request_bytes (length line) line) # delay
        in if malformed_response faults
           then (before @ [Log Fault_malformed, Send malformed_line], Next_line)
           else case json_dumps (int_cap py) (float_repr py) (JObj response) of
               Inl e \<Rightarrow> (before, Raised e)
             | Inr text \<Rightarrow>
                 (before @ [send_line text, Log (Response response),
                    Log (Response_detail (get_or_null response k_error_code) (sort (dkeys response)))],
                  Next_line))"

definition counts_requests :: "fault_config \<Rightarrow> bool" where
  "counts_requests faults \<longleftrightarrow> exit_after_requests faults \<noteq> None"

definition exit_due :: "fault_config \<Rightarrow> int \<Rightarrow> bool" where
  "exit_due faults cnt = (case exit_after_requests faults of None \<Rightarrow> False | Some n \<Rightarrow> n \<le> cnt)"

definition too_long :: "bytes \<Rightarrow> bool" where
  "too_long line \<longleftrightarrow> MAX_LINE_BYTES < length (rstrip_crlf line)"

text \<open>The body of the loop, for the server's count of requests and one line.\<close>

definition handle_line ::
    "interpreter \<Rightarrow> fault_config \<Rightarrow> int \<Rightarrow> bytes \<Rightarrow> int \<times> action list \<times> control" where
  "handle_line py faults cnt line =
     (if too_long line
      then (cnt,
            [Log (Request_too_long (length line) MAX_LINE_BYTES),
             send_line (dumps (float_repr py) (JObj invalid_json_response))],
            Break_loop)
      else
        let received = Log (Request (request_text line));
            cnt' = (if counts_requests faults then cnt + 1 else cnt)
        in if exit_due faults cnt'
           then (cnt', [received, Log (Fault_termination cnt')], Exit_process)
           else (let (acts, ctl) = answer_line py faults line in (cnt', received # acts, ctl)))"

section \<open>One connection\<close>

text \<open>\<open>while line := self.rfile.readline(MAX_LINE_BYTES + 2)\<close> over the bytes up to end of file.\<close>

function session_loop ::
    "interpreter \<Rightarrow> fault_config \<Rightarrow> int \<Rightarrow> bytes \<Rightarrow> int \<times> action list \<times> control" where
  "session_loop py faults cnt input =
     (let (line, rest) = readline_max (MAX_LINE_BYTES + 2) input
      in if line = [] then (cnt, [Log Client_disconnected], Return)
         else
           (let (cnt', acts, ctl) = handle_line py faults cnt line
            in case ctl of
                 Next_line \<Rightarrow>
                   (let (cnt2, acts2, ctl2) = session_loop py faults cnt' rest
                    in (cnt2, acts @ acts2, ctl2))
               | Break_loop \<Rightarrow> (cnt', acts @ [Log Client_disconnected], Return)
               | _ \<Rightarrow> (cnt', acts, ctl)))"
  by pat_completeness auto

termination
  by (relation "measure (\<lambda>(py, faults, cnt, input). length input)")
    (auto dest!: sym [of _ "readline_max _ _"] dest: readline_max_progress)

declare session_loop.simps [simp del]

text \<open>\<open>DutRequestHandler.handle\<close>\<close>

definition handle ::
    "interpreter \<Rightarrow> fault_config \<Rightarrow> int \<Rightarrow> bytes \<Rightarrow> int \<times> action list \<times> control" where
  "handle py faults cnt input =
     (let (cnt', acts, ctl) = session_loop py faults cnt input
      in (cnt', Log Client_connected # acts, ctl))"

section \<open>Reading the actions\<close>

fun sent :: "action \<Rightarrow> bytes list" where
  "sent (Send b) = [b]"
| "sent _ = []"

definition sends :: "action list \<Rightarrow> bytes list" where
  "sends acts = concat (map sent acts)"

lemma sends_simps [simp]:
  "sends [] = []" "sends (a # as) = sent a @ sends as" "sends (as @ bs) = sends as @ sends bs"
  by (simp_all add: sends_def)

text \<open>The lines one connection gets answered: up to the end of the stream or the first overlong line.\<close>

function served_lines :: "bytes \<Rightarrow> bytes list" where
  "served_lines input =
     (let (line, rest) = readline_max (MAX_LINE_BYTES + 2) input
      in if line = [] then [] else if too_long line then [line] else line # served_lines rest)"
  by pat_completeness auto

termination
  by (relation "measure length")
    (auto dest!: sym [of _ "readline_max _ _"] dest: readline_max_progress)

declare served_lines.simps [simp del]

definition expected_answer :: "interpreter \<Rightarrow> bytes \<Rightarrow> bytes" where
  "expected_answer py line =
     utf8_encode (dumps (float_repr py)
       (JObj (if too_long line then invalid_json_response else request_response py line)) @ [10])"

section \<open>Lemmas\<close>

lemma request_text_ok: "text_ok (request_text line)"
  using str_ok_text_ok [OF utf8_replace_str_ok, of line] text_ok_mono set_rstrip_by
  unfolding request_text_def rstrip_crlf_def by blast

lemma request_response_serialises:
  "json_dumps (int_cap py) fr (JObj (request_response py line)) =
     Inr (dumps fr (JObj (request_response py line)))"
  unfolding int_cap_def request_response_def
  by (rule json_dumps_response) (rule decode_request_ok [OF _ request_text_ok])

definition delay_actions :: "fault_config \<Rightarrow> action list" where
  "delay_actions faults = (if 0 < response_delay_ms faults
     then [Log (Fault_delayed (response_delay_ms faults)), Sleep (response_delay_ms faults)] else [])"

lemma sends_delay [simp]: "sends (delay_actions faults) = []"
  by (simp add: delay_actions_def)

lemma answer_line_eq:
  "answer_line py faults line =
     (if drop_connection faults then ([Log Fault_drop], Return)
      else ([Log (Request_bytes (length line) line)] @ delay_actions faults @
        (if malformed_response faults then [Log Fault_malformed, Send malformed_line]
         else [send_line (dumps (float_repr py) (JObj (request_response py line))),
               Log (Response (request_response py line)),
               Log (Response_detail (get_or_null (request_response py line) k_error_code)
                 (sort (dkeys (request_response py line))))]), Next_line))"
  by (simp add: answer_line_def Let_def delay_actions_def request_response_serialises)

lemma session_loop_end: "session_loop py faults cnt [] = (cnt, [Log Client_disconnected], Return)"
  by (simp add: session_loop.simps readline_max_def line_length_def)

lemma session_loop_line:
  assumes "input \<noteq> []" and "readline_max (MAX_LINE_BYTES + 2) input = (line, rest)"
  shows "session_loop py faults cnt input =
    (let (cnt', acts, ctl) = handle_line py faults cnt line
     in case ctl of
          Next_line \<Rightarrow>
            (let (cnt2, acts2, ctl2) = session_loop py faults cnt' rest in (cnt2, acts @ acts2, ctl2))
        | Break_loop \<Rightarrow> (cnt', acts @ [Log Client_disconnected], Return)
        | _ \<Rightarrow> (cnt', acts, ctl))"
proof -
  have "line \<noteq> []" using readline_max_Nil [of "MAX_LINE_BYTES + 2" input] assms by simp
  then show ?thesis by (subst session_loop.simps) (simp add: assms(2) del: add_2_eq_Suc')
qed

lemma served_lines_end: "served_lines [] = []"
  by (simp add: served_lines.simps readline_max_def line_length_def)

lemma served_lines_line:
  assumes "input \<noteq> []" and "readline_max (MAX_LINE_BYTES + 2) input = (line, rest)"
  shows "served_lines input = (if too_long line then [line] else line # served_lines rest)"
proof -
  have "line \<noteq> []" using readline_max_Nil [of "MAX_LINE_BYTES + 2" input] assms by simp
  then show ?thesis by (subst served_lines.simps) (simp add: assms(2) del: add_2_eq_Suc')
qed

text \<open>Induction over the lines of the stream.\<close>

lemma stream_induct [case_names Nil Line]:
  assumes "P []"
    and "\<And>input line rest. input \<noteq> [] \<Longrightarrow>
      readline_max (MAX_LINE_BYTES + 2) input = (line, rest) \<Longrightarrow> P rest \<Longrightarrow> P input"
  shows "P input"
proof (induction "length input" arbitrary: input rule: less_induct)
  case less
  show ?case
  proof (cases "input = []")
    case False
    obtain line rest where r: "readline_max (MAX_LINE_BYTES + 2) input = (line, rest)" by fastforce
    have "line \<noteq> []" using readline_max_Nil [of "MAX_LINE_BYTES + 2" input] r False by simp
    then show ?thesis using less assms(2) [OF False r] readline_max_progress [OF r] by blast
  qed (use assms(1) in simp)
qed

lemma handle_line_control:
  "handle_line py faults cnt line = (cnt', acts, ctl) \<Longrightarrow>
     ctl = (if too_long line then Break_loop
            else if exit_due faults (if counts_requests faults then cnt + 1 else cnt) then Exit_process
            else if drop_connection faults then Return else Next_line)"
  by (auto simp: handle_line_def answer_line_eq Let_def split: if_splits)

lemma session_loop_control:
  "\<exists>cnt' acts ctl. session_loop py faults cnt input = (cnt', acts, ctl) \<and>
     (ctl = Return \<or> ctl = Exit_process)"
proof (induction input arbitrary: cnt rule: stream_induct)
  case Nil
  then show ?case by (simp add: session_loop_end)
next
  case (Line input line rest)
  obtain c1 a1 k1 where h: "handle_line py faults cnt line = (c1, a1, k1)" by (metis prod_cases3)
  obtain c2 a2 k2 where "session_loop py faults c1 rest = (c2, a2, k2)" "k2 = Return \<or> k2 = Exit_process"
    using Line.IH [of c1] by blast
  with handle_line_control [OF h] h show ?case
    by (cases k1) (auto simp: session_loop_line [OF Line.hyps] split: if_splits)
qed

subsection \<open>Without faults that swallow answers\<close>

lemma handle_line_answers:
  assumes "\<not> drop_connection faults" and "\<not> malformed_response faults"
    and "\<not> exit_due faults (if counts_requests faults then cnt + 1 else cnt)"
  shows "\<exists>acts. handle_line py faults cnt line =
      (if too_long line then cnt else if counts_requests faults then cnt + 1 else cnt, acts,
       if too_long line then Break_loop else Next_line) \<and>
    sends acts = [expected_answer py line]"
  using assms by (auto simp: handle_line_def answer_line_eq Let_def expected_answer_def send_line_def)

lemma session_loop_answers:
  assumes "\<not> drop_connection faults" and "\<not> malformed_response faults"
    and "exit_after_requests faults = None"
  shows "\<exists>acts. session_loop py faults cnt input = (cnt, acts, Return) \<and>
    sends acts = map (expected_answer py) (served_lines input)"
proof (induction input rule: stream_induct)
  case Nil
  then show ?case by (simp add: session_loop_end served_lines_end)
next
  case (Line input line rest)
  have "\<not> counts_requests faults" "\<not> exit_due faults cnt"
    using assms(3) by (simp_all add: counts_requests_def exit_due_def)
  then obtain acts where "handle_line py faults cnt line =
      (cnt, acts, if too_long line then Break_loop else Next_line)" "sends acts = [expected_answer py line]"
    using handle_line_answers [OF assms(1,2), of cnt py line] by (auto split: if_splits)
  with Line.IH show ?case
    by (auto simp: session_loop_line [OF Line.hyps] served_lines_line [OF Line.hyps])
qed

text \<open>With \<open>exit_after_requests\<close>, \<open>cnt\<close> requests having been counted before.\<close>

lemma session_loop_exit:
  assumes "\<not> drop_connection faults" and "\<not> malformed_response faults"
    and "exit_after_requests faults = Some n"
  shows "cnt < n \<Longrightarrow> \<exists>cnt' acts ctl. session_loop py faults cnt input = (cnt', acts, ctl) \<and>
    (if nat (n - cnt) \<le> length (filter (\<lambda>l. \<not> too_long l) (served_lines input))
     then ctl = Exit_process \<and>
       sends acts = map (expected_answer py) (take (nat (n - cnt) - 1) (served_lines input))
     else ctl = Return \<and> sends acts = map (expected_answer py) (served_lines input))"
proof (induction input arbitrary: cnt rule: stream_induct)
  case Nil
  then show ?case by (simp add: session_loop_end served_lines_end)
next
  case (Line input line rest)
  have f: "counts_requests faults" "exit_due faults c \<longleftrightarrow> n \<le> c" for c
    using assms(3) by (simp_all add: counts_requests_def exit_due_def)
  show ?case
  proof (cases "too_long line")
    case True
    then have "handle_line py faults cnt line = (cnt,
            [Log (Request_too_long (length line) MAX_LINE_BYTES),
             send_line (dumps (float_repr py) (JObj invalid_json_response))], Break_loop)"
      by (simp add: handle_line_def)
    with True Line.prems show ?thesis
      by (simp add: session_loop_line [OF Line.hyps] served_lines_line [OF Line.hyps] expected_answer_def
          send_line_def)
  next
    case short: False
    show ?thesis
    proof (cases "n \<le> cnt + 1")
      case True
      then have "handle_line py faults cnt line =
          (cnt + 1, [Log (Request (request_text line)), Log (Fault_termination (cnt + 1))], Exit_process)"
        using short f by (simp add: handle_line_def Let_def)
      moreover have "nat (n - cnt) = 1" using True Line.prems by linarith
      ultimately show ?thesis using short
        by (simp add: session_loop_line [OF Line.hyps] served_lines_line [OF Line.hyps])
    next
      case False
      then obtain acts where h: "handle_line py faults cnt line = (cnt + 1, acts, Next_line)"
        "sends acts = [expected_answer py line]"
        using handle_line_answers [OF assms(1,2), of cnt py line] short f by auto
      define k where "k = nat (n - cnt) - 2"
      have k: "nat (n - (cnt + 1)) = Suc k" "nat (n - cnt) = Suc (Suc k)"
        using False by (simp_all add: k_def)
      obtain c2 a2 k2 where s: "session_loop py faults (cnt + 1) rest = (c2, a2, k2)"
        "if Suc k \<le> length (filter (\<lambda>l. \<not> too_long l) (served_lines rest))
         then k2 = Exit_process \<and> sends a2 = map (expected_answer py) (take k (served_lines rest))
         else k2 = Return \<and> sends a2 = map (expected_answer py) (served_lines rest)"
        using Line.IH [of "cnt + 1"] False k(1) by auto
      then show ?thesis using short h(2)
        by (simp add: session_loop_line [OF Line.hyps] served_lines_line [OF Line.hyps] h(1) k(2))
    qed
  qed
qed

subsection \<open>What the log claims\<close>

text \<open>
  Every record of an injected fault stands for the fault's effect, and no effect goes unrecorded:
  a pause, a malformed answer, a silently dropped connection, the death of the process.
\<close>

definition truthful :: "action list \<Rightarrow> control \<Rightarrow> bool" where
  "truthful acts ctl \<longleftrightarrow>
     (\<forall>d. Log (Fault_delayed d) \<in> set acts \<longleftrightarrow> Sleep d \<in> set acts) \<and>
     (Log Fault_malformed \<in> set acts \<longleftrightarrow> Send malformed_line \<in> set acts) \<and>
     ((\<exists>k. Log (Fault_termination k) \<in> set acts) \<longleftrightarrow> ctl = Exit_process) \<and>
     (Log Fault_drop \<in> set acts \<longleftrightarrow> ctl = Return)"

lemma dumps_obj_hd: "\<exists>t. dumps fr (JObj ps) = 123 # t"
  by (cases "map (\<lambda>(k, v). (k, canon v)) ps") (auto simp: dumps_def)

lemma send_line_not_malformed: "send_line (dumps fr (JObj ps)) \<noteq> Send malformed_line"
  using dumps_obj_hd [of fr ps]
  by (auto simp: send_line_def malformed_line_def utf8_encode_def utf8_char_def S_def)

lemma handle_line_truthful:
  "handle_line py faults cnt line = (cnt', acts, ctl) \<Longrightarrow> truthful acts ctl"
  using send_line_not_malformed [of "float_repr py" "request_response py line"]
    send_line_not_malformed [of "float_repr py" invalid_json_response]
  by (auto simp: handle_line_def answer_line_eq Let_def truthful_def delay_actions_def send_line_def
      split: if_splits)

lemma handle_line_quiet:
  "handle_line py faults cnt line = (cnt', acts, ctl) \<Longrightarrow> Log Client_disconnected \<notin> set acts"
  by (auto simp: handle_line_def answer_line_eq Let_def delay_actions_def send_line_def split: if_splits)

text \<open>Over a connection, which ends without \<open>client_disconnected\<close> when it is dropped.\<close>

definition session_truthful :: "action list \<Rightarrow> control \<Rightarrow> bool" where
  "session_truthful acts ctl \<longleftrightarrow>
     (\<forall>d. Log (Fault_delayed d) \<in> set acts \<longleftrightarrow> Sleep d \<in> set acts) \<and>
     (Log Fault_malformed \<in> set acts \<longleftrightarrow> Send malformed_line \<in> set acts) \<and>
     ((\<exists>k. Log (Fault_termination k) \<in> set acts) \<longleftrightarrow> ctl = Exit_process) \<and>
     (Log Fault_drop \<in> set acts \<longleftrightarrow> ctl = Return \<and> Log Client_disconnected \<notin> set acts)"

lemma session_loop_truthful:
  "session_loop py faults cnt input = (cnt', acts, ctl) \<Longrightarrow> session_truthful acts ctl"
proof (induction input arbitrary: cnt cnt' acts ctl rule: stream_induct)
  case Nil
  then show ?case by (auto simp: session_loop_end session_truthful_def)
next
  case (Line input line rest)
  obtain c1 a1 k1 where h: "handle_line py faults cnt line = (c1, a1, k1)" by (metis prod_cases3)
  obtain c2 a2 k2 where s: "session_loop py faults c1 rest = (c2, a2, k2)" by (metis prod_cases3)
  have t1: "truthful a1 k1" and q: "Log Client_disconnected \<notin> set a1"
    using handle_line_truthful [OF h] handle_line_quiet [OF h] by simp_all
  have t2: "session_truthful a2 k2" by (rule Line.IH [OF s])
  have eq: "session_loop py faults cnt input = (cnt', acts, ctl)" by (rule Line.prems)
  show ?case
  proof (cases k1)
    case Next_line
    then have "acts = a1 @ a2" "ctl = k2"
      using eq by (simp_all add: session_loop_line [OF Line.hyps] h s)
    with t1 t2 q Next_line show ?thesis by (auto simp: truthful_def session_truthful_def)
  next
    case Break_loop
    then have "acts = a1 @ [Log Client_disconnected]" "ctl = Return"
      using eq by (simp_all add: session_loop_line [OF Line.hyps] h)
    with t1 q Break_loop show ?thesis by (auto simp: truthful_def session_truthful_def)
  qed (use eq t1 q in \<open>auto simp: session_loop_line [OF Line.hyps] h truthful_def session_truthful_def\<close>)
qed

subsection \<open>The bound on a line\<close>

lemma line_length_take:
  assumes "10 \<notin> set p" and "n \<le> length p"
  shows "n \<le> line_length (p @ r)"
proof -
  have "takeWhile (\<lambda>c. c \<noteq> 10) (p @ r) = p @ takeWhile (\<lambda>c. c \<noteq> 10) r"
    using assms(1) by (intro takeWhile_append2) auto
  then show ?thesis using assms(2) by (simp add: line_length_def Let_def)
qed

lemma rstrip_crlf_id: "10 \<notin> set p \<Longrightarrow> 13 \<notin> set p \<Longrightarrow> rstrip_crlf p = p"
  unfolding rstrip_crlf_def by (intro rstrip_by_none) auto

lemma rstrip_crlf_delim:
  assumes "10 \<notin> set p" and "13 \<notin> set p" and "delim \<in> {[10], [13, 10]}"
  shows "rstrip_crlf (p @ delim) = p"
proof -
  have p: "rstrip_crlf p = p" using assms(1,2) by (rule rstrip_crlf_id)
  have "rstrip_crlf (p @ [10]) = p" using rstrip_by_snoc [of _ p 10] p by (simp add: rstrip_crlf_def)
  moreover have "rstrip_crlf (p @ [13, 10]) = p"
    using rstrip_by_snoc [of _ "p @ [13]" 10] rstrip_by_snoc [of _ p 13] p by (simp add: rstrip_crlf_def)
  ultimately show ?thesis using assms(3) by auto
qed

lemma readline_max_frame_short:
  assumes "10 \<notin> set p" and "length p \<le> MAX_LINE_BYTES" and "delim \<in> {[10], [13, 10]}"
  shows "readline_max (MAX_LINE_BYTES + 2) (p @ delim @ rest) = (p @ delim, rest)"
  using assms readline_max_frame [of p "MAX_LINE_BYTES + 2" rest]
    readline_max_frame [of "p @ [13]" "MAX_LINE_BYTES + 2" rest] by auto

lemma readline_max_frame_long:
  assumes "10 \<notin> set p" and "13 \<notin> set p" and "MAX_LINE_BYTES < length p" and "delim \<in> {[10], [13, 10]}"
  shows "too_long (fst (readline_max (MAX_LINE_BYTES + 2) (p @ delim @ rest)))"
proof (cases "length p = MAX_LINE_BYTES + 1")
  case True
  show ?thesis
  proof (cases "delim = [10]")
    case d: True
    then have "readline_max (MAX_LINE_BYTES + 2) (p @ delim @ rest) = (p @ [10], rest)"
      using readline_max_frame [of p "MAX_LINE_BYTES + 2" rest] assms(1) True by simp
    then show ?thesis using rstrip_crlf_delim [OF assms(1,2)] True by (simp add: too_long_def)
  next
    case False
    then have d: "delim = [13, 10]" using assms(4) by simp
    have "line_length (p @ delim @ rest) = MAX_LINE_BYTES + 3"
      using line_length_frame [of "p @ [13]" rest] assms(1) True d by simp
    then have "fst (readline_max (MAX_LINE_BYTES + 2) (p @ delim @ rest)) = p @ [13]"
      using True d by (simp add: readline_max_def Let_def)
    moreover have "rstrip_crlf (p @ [13]) = p"
      using rstrip_by_snoc [of _ p 13] rstrip_crlf_id [OF assms(1,2)] by (simp add: rstrip_crlf_def)
    ultimately show ?thesis using True by (simp add: too_long_def)
  qed
next
  case False
  then have l: "MAX_LINE_BYTES + 2 \<le> length p" using assms(3) by simp
  then have "fst (readline_max (MAX_LINE_BYTES + 2) (p @ delim @ rest)) = take (MAX_LINE_BYTES + 2) p"
    using line_length_take [OF assms(1) l, of "delim @ rest"] by (simp add: readline_max_def Let_def min_def)
  moreover have "rstrip_crlf (take (MAX_LINE_BYTES + 2) p) = take (MAX_LINE_BYTES + 2) p"
    using assms(1,2) unfolding rstrip_crlf_def by (intro rstrip_by_none) (auto dest: in_set_takeD)
  ultimately show ?thesis using l by (simp add: too_long_def)
qed

section \<open>Properties\<close>





text \<open>
  C28: With \<open>exit_after_requests = n\<close> (and no other fault), a connection to a fresh device gets
  exactly its first \<open>n - 1\<close> requests answered and the process exits on the \<open>n\<close>-th; overlong lines
  are not counted, and with fewer requests the device serves them all and stays up.
\<close>

theorem process_termination_exact:
  assumes "\<not> drop_connection faults" and "\<not> malformed_response faults"
    and "exit_after_requests faults = Some n" and "valid_config faults"
  shows "\<exists>cnt' acts ctl. handle py faults 0 input = (cnt', acts, ctl) \<and>
    (if nat n \<le> length (filter (\<lambda>l. \<not> too_long l) (served_lines input))
     then ctl = Exit_process \<and>
       sends acts = map (expected_answer py) (take (nat n - 1) (served_lines input))
     else ctl = Return \<and> sends acts = map (expected_answer py) (served_lines input))"
proof -
  have "0 < n" using assms(3,4) by (simp add: valid_config_def)
  from session_loop_exit [OF assms(1-3) this, of py input] show ?thesis
    by (auto simp: handle_def split: if_splits)
qed

theorem process_termination_exact_witness:
  "\<exists>cnt' acts ctl. handle \<lparr>int_max_str_digits = 0, recursion_room = 900, float_repr = \<lambda>_. []\<rparr>
      (no_faults\<lparr>exit_after_requests := Some 2\<rparr>) 0 ([10, 10, 10]) = (cnt', acts, ctl) \<and>
    (if nat 2 \<le> length (filter (\<lambda>l. \<not> too_long l) (served_lines [10, 10, 10]))
     then ctl = Exit_process \<and>
       sends acts = map (expected_answer \<lparr>int_max_str_digits = 0, recursion_room = 900, float_repr = \<lambda>_. []\<rparr>)
         (take (nat 2 - 1) (served_lines [10, 10, 10]))
     else ctl = Return \<and>
       sends acts = map (expected_answer \<lparr>int_max_str_digits = 0, recursion_room = 900, float_repr = \<lambda>_. []\<rparr>)
         (served_lines [10, 10, 10]))"
  by (rule process_termination_exact) (simp_all add: fault_config_defs)



end
