(* ===== verification/Dut_Concurrency.thy ===== *)
theory Dut_Concurrency
  imports Dut_Server
begin

text \<open>
  Several connections of one device at once.  \<open>ThreadingDutServer\<close> runs a handler thread per
  connection; with \<open>exit_after_requests\<close> they share \<open>request_count\<close>, which
  \<open>with server.request_lock: server.request_count += 1; count = server.request_count\<close> counts up.
  The step relation interleaves the threads at the grain of the shared accesses: taking the lock,
  the load and the store of \<open>+=\<close>, the read back, the release, and then the answer or the exit.

  The invariant says that the lock is held by exactly the thread inside the block and that every
  number given out is fresh; \<open>transition_invariant\<close> carries it to every reachable state.
\<close>

text \<open>Where a handler thread is, with the values in its local variables.\<close>

datatype phase =
    Reading            \<comment> \<open>between two requests\<close>
  | Acquired           \<comment> \<open>inside the block\<close>
  | Loaded int         \<comment> \<open>has read the count for \<open>+=\<close>\<close>
  | Stored             \<comment> \<open>has written it back\<close>
  | Observed int       \<comment> \<open>\<open>count\<close> is set, the lock still held\<close>
  | Counted int        \<comment> \<open>after the block\<close>

record dut_state =
  request_count :: int
  request_lock :: "nat option"
  stage :: "nat \<Rightarrow> phase"
  running :: bool
  answered :: "int list"  \<comment> \<open>the counts of the requests answered so far\<close>

definition dut_init :: "dut_state \<Rightarrow> bool" where
  "dut_init s \<longleftrightarrow> s = \<lparr>request_count = 0, request_lock = None, stage = \<lambda>_. Reading, running = True,
     answered = []\<rparr>"

inductive dut_step :: "fault_config \<Rightarrow> dut_state \<Rightarrow> dut_state \<Rightarrow> bool" for faults where
  acquire: "running s \<Longrightarrow> stage s c = Reading \<Longrightarrow> request_lock s = None \<Longrightarrow>
    dut_step faults s (s\<lparr>request_lock := Some c, stage := (stage s)(c := Acquired)\<rparr>)"
| load: "running s \<Longrightarrow> stage s c = Acquired \<Longrightarrow>
    dut_step faults s (s\<lparr>stage := (stage s)(c := Loaded (request_count s))\<rparr>)"
| store: "running s \<Longrightarrow> stage s c = Loaded k \<Longrightarrow>
    dut_step faults s (s\<lparr>request_count := k + 1, stage := (stage s)(c := Stored)\<rparr>)"
| observe: "running s \<Longrightarrow> stage s c = Stored \<Longrightarrow>
    dut_step faults s (s\<lparr>stage := (stage s)(c := Observed (request_count s))\<rparr>)"
| release: "running s \<Longrightarrow> stage s c = Observed k \<Longrightarrow>
    dut_step faults s (s\<lparr>request_lock := None, stage := (stage s)(c := Counted k)\<rparr>)"
| terminate: "running s \<Longrightarrow> stage s c = Counted k \<Longrightarrow> exit_due faults k \<Longrightarrow>
    dut_step faults s (s\<lparr>running := False\<rparr>)"
| answer: "running s \<Longrightarrow> stage s c = Counted k \<Longrightarrow> \<not> exit_due faults k \<Longrightarrow>
    dut_step faults s (s\<lparr>stage := (stage s)(c := Reading), answered := k # answered s\<rparr>)"

inductive_cases dut_stepE: "dut_step faults s t"

inductive_simps dut_step_stopped: "dut_step faults (s\<lparr>running := False\<rparr>) t"

section \<open>The invariant\<close>

fun holds_lock :: "phase \<Rightarrow> bool" where
  "holds_lock Reading = False"
| "holds_lock (Counted _) = False"
| "holds_lock _ = True"

text \<open>The number a thread in this phase is about to use, \<open>cnt\<close> being the shared count.\<close>

fun number_of :: "int \<Rightarrow> phase \<Rightarrow> int option" where
  "number_of cnt Stored = Some cnt"
| "number_of cnt (Observed k) = Some k"
| "number_of cnt (Counted k) = Some k"
| "number_of cnt _ = None"

fun local_ok :: "int \<Rightarrow> phase \<Rightarrow> bool" where
  "local_ok cnt (Loaded k) = (k = cnt)"
| "local_ok cnt (Observed k) = (k = cnt)"
| "local_ok cnt _ = True"

definition number :: "dut_state \<Rightarrow> nat \<Rightarrow> int option" where
  "number s c = number_of (request_count s) (stage s c)"

definition dut_inv :: "fault_config \<Rightarrow> dut_state \<Rightarrow> bool" where
  "dut_inv faults s \<longleftrightarrow>
     0 \<le> request_count s \<and>
     (\<forall>c. holds_lock (stage s c) \<longleftrightarrow> request_lock s = Some c) \<and>
     (\<forall>c. local_ok (request_count s) (stage s c)) \<and>
     (\<forall>c k. number s c = Some k \<longrightarrow> 1 \<le> k \<and> k \<le> request_count s \<and> k \<notin> set (answered s)) \<and>
     (\<forall>c c' k. number s c = Some k \<longrightarrow> number s c' = Some k \<longrightarrow> c = c') \<and>
     distinct (answered s) \<and>
     (\<forall>k \<in> set (answered s). 1 \<le> k \<and> k \<le> request_count s \<and> \<not> exit_due faults k)"

lemma dut_invD:
  assumes "dut_inv faults s"
  shows "0 \<le> request_count s" "holds_lock (stage s c) \<longleftrightarrow> request_lock s = Some c"
    "local_ok (request_count s) (stage s c)"
    "number s c = Some k \<Longrightarrow> 1 \<le> k" "number s c = Some k \<Longrightarrow> k \<le> request_count s"
    "number s c = Some k \<Longrightarrow> k \<notin> set (answered s)"
    "number s c = Some k \<Longrightarrow> number s c' = Some k \<Longrightarrow> c = c'"
    "distinct (answered s)"
    "k \<in> set (answered s) \<Longrightarrow> 1 \<le> k \<and> k \<le> request_count s \<and> \<not> exit_due faults k"
  using assms by (auto simp: dut_inv_def)

lemma number_store:
  "local_ok cnt p \<Longrightarrow> \<not> holds_lock p \<Longrightarrow> number_of (cnt + 1) p = number_of cnt p"
  by (cases p) auto

text \<open>A thread that moves inside its own block changes no other thread's number.\<close>

lemma dut_inv_store:
  assumes inv: "dut_inv faults s" and c: "stage s c = Loaded k"
  shows "dut_inv faults (s\<lparr>request_count := k + 1, stage := (stage s)(c := Stored)\<rparr>)"
proof -
  let ?t = "s\<lparr>request_count := k + 1, stage := (stage s)(c := Stored)\<rparr>"
  have k: "k = request_count s" using dut_invD(3) [OF inv, of c] c by simp
  have lock: "request_lock s = Some c" using dut_invD(2) [OF inv, of c] c by simp
  have other: "\<not> holds_lock (stage s c')" if "c' \<noteq> c" for c'
    using dut_invD(2) [OF inv, of c'] lock that by simp
  have num: "number ?t c' = (if c' = c then Some (k + 1) else number s c')" for c'
    using number_store [OF dut_invD(3) [OF inv, of c'] other] by (auto simp: number_def k)
  have loc: "local_ok (k + 1) (stage s c')" if "c' \<noteq> c" for c'
    using other [OF that] by (cases "stage s c'") auto
  have fresh: "number s c' \<noteq> Some (k + 1)" "k + 1 \<notin> set (answered s)" for c'
    using dut_invD(5) [OF inv, of c' "k + 1"] dut_invD(9) [OF inv, of "k + 1"] k by auto
  show ?thesis
    using inv num loc fresh lock k unfolding dut_inv_def
    by (simp add: all_conj_distrib) (smt (verit) option.inject)
qed

text \<open>A step that leaves the thread's number and the count as they are.\<close>

lemma dut_inv_local:
  assumes inv: "dut_inv faults s"
    and p: "number_of (request_count s) p = number s c" "local_ok (request_count s) p"
    and lk: "\<And>c'. (if c' = c then holds_lock p else request_lock s = Some c') \<longleftrightarrow> lk = Some c'"
  shows "dut_inv faults (s\<lparr>request_lock := lk, stage := (stage s)(c := p)\<rparr>)"
proof -
  let ?t = "s\<lparr>request_lock := lk, stage := (stage s)(c := p)\<rparr>"
  have num: "number ?t = number s" using p(1) by (auto simp: number_def)
  have hold: "holds_lock (stage ?t c') \<longleftrightarrow> lk = Some c'" for c'
    using dut_invD(2) [OF inv, of c'] lk [of c'] by (auto split: if_splits)
  show ?thesis unfolding dut_inv_def num using inv hold p(2) by (auto simp: dut_inv_def)
qed

lemma dut_inv_inside:
  assumes inv: "dut_inv faults s" and "number_of (request_count s) p = number s c"
    and "local_ok (request_count s) p" and "holds_lock (stage s c)" and "holds_lock p"
  shows "dut_inv faults (s\<lparr>stage := (stage s)(c := p)\<rparr>)"
proof -
  have eq: "s\<lparr>request_lock := request_lock s, stage := (stage s)(c := p)\<rparr> = s\<lparr>stage := (stage s)(c := p)\<rparr>"
    by (cases s) simp
  have "request_lock s = Some c" using dut_invD(2) [OF inv, of c] assms(4) by simp
  then have "dut_inv faults (s\<lparr>request_lock := request_lock s, stage := (stage s)(c := p)\<rparr>)"
    by (intro dut_inv_local [OF assms(1-3)]) (simp add: assms(5))
  then show ?thesis unfolding eq .
qed

lemma dut_inv_answer:
  assumes inv: "dut_inv faults s" and c: "stage s c = Counted k" and "\<not> exit_due faults k"
  shows "dut_inv faults (s\<lparr>stage := (stage s)(c := Reading), answered := k # answered s\<rparr>)"
proof -
  let ?t = "s\<lparr>stage := (stage s)(c := Reading), answered := k # answered s\<rparr>"
  have k: "number s c = Some k" using c by (simp add: number_def)
  have num: "number ?t c' = (if c' = c then None else number s c')" for c' by (simp add: number_def)
  have hold: "holds_lock (stage ?t c') \<longleftrightarrow> request_lock s = Some c'" for c'
    using dut_invD(2) [OF inv, of c'] c by auto
  have "k' \<notin> set (k # answered s)" if "number ?t c' = Some k'" for c' k'
    using that num [of c'] dut_invD(6,7) [OF inv] k by (auto split: if_splits)
  then show ?thesis unfolding dut_inv_def
    using inv num hold dut_invD(4,5,6) [OF inv k] assms(3) by (auto simp: dut_inv_def split: if_splits)
qed

lemma dut_inv_step: "dut_inv faults s \<Longrightarrow> dut_step faults s t \<Longrightarrow> dut_inv faults t"
proof (erule dut_stepE)
  assume inv: "dut_inv faults s"
  note hold = dut_invD(2) [OF inv]
  {
    fix c assume t: "t = s\<lparr>request_lock := Some c, stage := (stage s)(c := Acquired)\<rparr>"
      "stage s c = Reading" "request_lock s = None"
    then show "dut_inv faults t" using dut_inv_local [OF inv, of Acquired c "Some c"]
      by (auto simp: number_def)
  next
    fix c assume t: "t = s\<lparr>stage := (stage s)(c := Loaded (request_count s))\<rparr>" "stage s c = Acquired"
    then show "dut_inv faults t" using dut_inv_inside [OF inv, of "Loaded (request_count s)" c]
      by (simp add: number_def)
  next
    fix c k assume "t = s\<lparr>request_count := k + 1, stage := (stage s)(c := Stored)\<rparr>"
      "stage s c = Loaded k"
    then show "dut_inv faults t" using dut_inv_store [OF inv] by simp
  next
    fix c assume t: "t = s\<lparr>stage := (stage s)(c := Observed (request_count s))\<rparr>" "stage s c = Stored"
    then show "dut_inv faults t" using dut_inv_inside [OF inv, of "Observed (request_count s)" c]
      by (simp add: number_def)
  next
    fix c k assume t: "t = s\<lparr>request_lock := None, stage := (stage s)(c := Counted k)\<rparr>"
      "stage s c = Observed k"
    then show "dut_inv faults t" using hold [of c] dut_inv_local [OF inv, of "Counted k" c None]
      by (auto simp: number_def split: if_splits)
  next
    assume "t = s\<lparr>running := False\<rparr>"
    then show "dut_inv faults t" using inv by (simp add: dut_inv_def number_def)
  next
    fix c k assume "t = s\<lparr>stage := (stage s)(c := Reading), answered := k # answered s\<rparr>"
      "stage s c = Counted k" "\<not> exit_due faults k"
    then show "dut_inv faults t" using dut_inv_answer [OF inv] by simp
  }
qed

lemma dut_inv_init: "dut_init s \<Longrightarrow> dut_inv faults s"
  by (simp add: dut_init_def dut_inv_def number_def)

interpretation dut: transition_invariant dut_init "dut_step faults" "dut_inv faults" for faults
  by unfold_locales (auto intro: dut_inv_init dut_inv_step)

lemma answered_bound:
  assumes "dut_inv faults s" and "exit_after_requests faults = Some n"
  shows "int (length (answered s)) \<le> max 0 (n - 1)"
proof -
  have "set (answered s) \<subseteq> {1..n - 1}"
    using dut_invD(9) [OF assms(1)] assms(2) by (force simp: exit_due_def)
  then have "card (set (answered s)) \<le> card {1..n - 1}" by (intro card_mono) auto
  then show ?thesis using distinct_card [OF dut_invD(8) [OF assms(1)]] by simp
qed

section \<open>Properties\<close>

text \<open>
  C29: However the handler threads of any number of connections interleave, a device told to exit
  after \<open>n\<close> requests never answers more than \<open>n - 1\<close> of them in all.
\<close>

theorem answers_below_exit_count:
  assumes "reachable dut_init (dut_step faults) s" and "exit_after_requests faults = Some n"
    and "valid_config faults"
  shows "int (length (answered s)) \<le> n - 1"
  using answered_bound [OF dut.inv_reachable [OF assms(1)] assms(2)] assms(2,3)
  by (simp add: valid_config_def)

text \<open>
  The lock does its work: no two requests, answered or waiting for their verdict, are ever
  given the same number, and a thread that has left the block holds the lock no longer.
\<close>

theorem request_numbers_unique:
  assumes "reachable dut_init (dut_step faults) s" and "stage s c = Counted k"
  shows "request_lock s \<noteq> Some c \<and> 1 \<le> k \<and> k \<le> request_count s \<and> k \<notin> set (answered s) \<and>
    (\<forall>c'. stage s c' = Counted k \<longrightarrow> c' = c)"
proof -
  note inv = dut.inv_reachable [OF assms(1)]
  have k: "number s c = Some k" using assms(2) by (simp add: number_def)
  have "c' = c" if "stage s c' = Counted k" for c'
    by (rule dut_invD(7) [OF inv _ k]) (simp add: that number_def)
  moreover have "request_lock s \<noteq> Some c" using dut_invD(2) [OF inv, of c] assms(2) by simp
  ultimately show ?thesis using dut_invD(4-6) [OF inv k] by blast
qed

section \<open>A run with two connections\<close>

definition exit_after_2 :: fault_config where
  "exit_after_2 = no_faults\<lparr>exit_after_requests := Some 2\<rparr>"

text \<open>Connection 0 has been counted and answered, connection 1 is counted and about to exit.\<close>

definition run_state :: dut_state where
  "run_state = \<lparr>request_count = 2, request_lock = None, stage = (\<lambda>_. Reading)(1 := Counted 2),
     running = True, answered = [1]\<rparr>"

lemma count_request:
  assumes "running s" and "stage s c = Reading" and "request_lock s = None"
    and "reachable dut_init (dut_step faults) s"
  shows "reachable dut_init (dut_step faults)
    (s\<lparr>request_count := request_count s + 1, stage := (stage s)(c := Counted (request_count s + 1))\<rparr>)"
proof -
  define s1 where "s1 = s\<lparr>request_lock := Some c, stage := (stage s)(c := Acquired)\<rparr>"
  define s2 where "s2 = s1\<lparr>stage := (stage s1)(c := Loaded (request_count s1))\<rparr>"
  define s3 where "s3 = s2\<lparr>request_count := request_count s + 1, stage := (stage s2)(c := Stored)\<rparr>"
  define s4 where "s4 = s3\<lparr>stage := (stage s3)(c := Observed (request_count s3))\<rparr>"
  define s5 where "s5 = s4\<lparr>request_lock := None, stage := (stage s4)(c := Counted (request_count s + 1))\<rparr>"
  have st1: "dut_step faults s s1" unfolding s1_def by (rule dut_step.acquire [OF assms(1-3)])
  have st2: "dut_step faults s1 s2" unfolding s2_def
    by (rule dut_step.load) (simp_all add: s1_def assms(1))
  have st3: "dut_step faults s2 s3" unfolding s3_def
    by (rule dut_step.store) (simp_all add: s1_def s2_def assms(1))
  have st4: "dut_step faults s3 s4" unfolding s4_def
    by (rule dut_step.observe) (simp_all add: s1_def s2_def s3_def assms(1))
  have st5: "dut_step faults s4 s5" unfolding s5_def
    by (rule dut_step.release) (simp_all add: s1_def s2_def s3_def s4_def assms(1))
  note reach = reachable.step [OF reachable.step [OF reachable.step [OF assms(4) st1] st2] st3]
  have "reachable dut_init (dut_step faults) s5"
    by (rule reachable.step [OF reachable.step [OF reach st4] st5])
  moreover have "s5 = s\<lparr>request_count := request_count s + 1,
      stage := (stage s)(c := Counted (request_count s + 1))\<rparr>"
    unfolding s5_def s4_def s3_def s2_def s1_def using assms(3) by (cases s) simp
  ultimately show ?thesis by simp
qed

lemma run_state_reachable: "reachable dut_init (dut_step exit_after_2) run_state"
proof -
  let ?R = "reachable dut_init (dut_step exit_after_2)"
  define s0 where "s0 = \<lparr>request_count = 0, request_lock = None, stage = \<lambda>_. Reading, running = True,
    answered = []\<rparr>"
  define s1 where "s1 = s0\<lparr>request_count := request_count s0 + 1,
    stage := (stage s0)(0 := Counted (request_count s0 + 1))\<rparr>"
  define s2 where "s2 = s1\<lparr>stage := (stage s1)(0 := Reading), answered := 1 # answered s1\<rparr>"
  have "?R s0" by (rule reachable.start) (simp add: dut_init_def s0_def)
  then have "?R s1" unfolding s1_def by (rule count_request [rotated 3]) (simp_all add: s0_def)
  moreover have "dut_step exit_after_2 s1 s2" unfolding s2_def
    by (rule dut_step.answer) (simp_all add: s1_def s0_def exit_due_def exit_after_2_def)
  ultimately have "?R s2" by (rule reachable.step)
  then have "?R (s2\<lparr>request_count := request_count s2 + 1,
      stage := (stage s2)(1 := Counted (request_count s2 + 1))\<rparr>)"
    by (rule count_request [rotated 3]) (simp_all add: s2_def s1_def s0_def)
  moreover have "s2\<lparr>request_count := request_count s2 + 1,
      stage := (stage s2)(1 := Counted (request_count s2 + 1))\<rparr> = run_state"
    by (auto simp: s2_def s1_def s0_def run_state_def)
  ultimately show ?thesis by simp
qed

theorem answers_below_exit_count_witness: "int (length (answered run_state)) \<le> 2 - 1"
  by (rule answers_below_exit_count [OF run_state_reachable])
    (simp_all add: exit_after_2_def fault_config_defs)

theorem request_numbers_unique_witness:
  "request_lock run_state \<noteq> Some 1 \<and> 2 \<le> request_count run_state \<and> 2 \<notin> set (answered run_state)"
  using request_numbers_unique [OF run_state_reachable, of 1 2] by (simp add: run_state_def)

end
