(* ===== verification/Dut_Lifecycle.thy ===== *)
theory Dut_Lifecycle
  imports Dut_Server
begin

text \<open>
  How the device comes up and goes down (\<open>main\<close>, \<open>configure_logging\<close> and \<open>run_server\<close> in
  \<open>simulator/simulator.py\<close>).  The configuration is resolved before the log is opened.  Then the main thread
  installs the signal handlers, announces itself, serves and records that it has stopped; a signal
  handler runs inside the main thread, sets the event and leaves \<open>server.shutdown\<close> to a thread of its
  own, because it waits for \<open>serve_forever\<close> to end.

  Of \<open>socketserver\<close> the model has what \<open>run_server\<close> relies on: \<open>shutdown\<close> sets a flag, which
  \<open>serve_forever\<close> tests before each connection it accepts and clears when it returns; a flag set before
  \<open>serve_forever\<close> has started counts.
\<close>

section \<open>Starting\<close>

record server_args =
  arg_host :: pystr
  arg_port :: int
  arg_log_file :: "pystr option"
  arg_verbose :: bool
  arg_faults :: fault_args

datatype startup_error = PortOutOfRange | ConfigError config_error

text \<open>The levels of the log and where it goes.\<close>

datatype log_level = Debug | Info | Warning

datatype log_handler = Console | Log_file pystr

text \<open>
  What \<open>main\<close> does up to \<open>serve_forever\<close>.  \<open>Make_parents\<close> creates the directory of the log file,
  \<open>Open_log\<close> opens the handlers at a level.
\<close>

datatype startup_action = Make_parents pystr | Open_log log_level "log_handler list" | Startup action | Bind pystr int

definition configure_logging :: "pystr option \<Rightarrow> bool \<Rightarrow> startup_action list" where
  "configure_logging log_file verbose =
     (let level = (if verbose then Debug else Info)
      in case log_file of
           None \<Rightarrow> [Open_log level [Console]]
         | Some path \<Rightarrow> [Make_parents path, Open_log level [Console, Log_file path]])"

definition startup :: "nat \<Rightarrow> nat \<Rightarrow> server_args \<Rightarrow>
    (startup_error + fault_config) \<times> startup_action list" where
  "startup cap depth args =
     (if \<not> (1 \<le> arg_port args \<and> arg_port args \<le> 65535) then (Inl PortOutOfRange, [])
      else case resolve_fault_config cap depth (arg_faults args) of
          Inl e \<Rightarrow> (Inl (ConfigError e), [])
        | Inr faults \<Rightarrow>
            (Inr faults,
             configure_logging (arg_log_file args) (arg_verbose args) @
             (if 0 < startup_delay_ms faults
              then [Startup (Log (Fault_startup (startup_delay_ms faults))),
                    Startup (Sleep (startup_delay_ms faults))]
              else []) @
             [Bind (arg_host args) (arg_port args),
              Startup (Log (Dut_ready (arg_host args) (arg_port args)))]))"

text \<open>
  A run that is refused leaves nothing behind, and a run that starts is announced: on a bad
  port or configuration no log file is opened, nothing is logged and no socket bound; otherwise the
  log is opened first, the configuration is one the device can act on, a configured startup delay
  is both recorded and slept before the port is bound, and readiness is the last record.
\<close>

theorem startup_all_or_nothing:
  "case startup cap depth args of
     (Inl e, acts) \<Rightarrow> acts = []
   | (Inr faults, acts) \<Rightarrow>
       valid_config faults \<and> 1 \<le> arg_port args \<and> arg_port args \<le> 65535 \<and>
       (\<exists>delay. acts = configure_logging (arg_log_file args) (arg_verbose args) @ delay @
            [Bind (arg_host args) (arg_port args), Startup (Log (Dut_ready (arg_host args) (arg_port args)))] \<and>
          delay = (if engaged faults Startup_delay
            then [Startup (Log (Fault_startup (startup_delay_ms faults))),
                  Startup (Sleep (startup_delay_ms faults))] else []))"
proof (cases "resolve_fault_config cap depth (arg_faults args)")
  case (Inr faults)
  then have "valid_config faults" by (rule resolve_fault_config_valid)
  with Inr show ?thesis by (simp add: startup_def)
qed (simp add: startup_def)

subsection \<open>What the log shows\<close>

fun level_of :: "log_event \<Rightarrow> log_level" where
  "level_of (Request_bytes n line) = Debug"
| "level_of (Response_detail i keys) = Debug"
| "level_of (Request_too_long n limit) = Warning"
| "level_of (Fault_termination n) = Warning"
| "level_of Fault_drop = Warning"
| "level_of (Fault_delayed ms) = Warning"
| "level_of Fault_malformed = Warning"
| "level_of (Fault_startup ms) = Warning"
| "level_of ev = Info"

definition written :: "bool \<Rightarrow> action list \<Rightarrow> log_event list" where
  "written verbose acts = concat (map (\<lambda>a. case a of
     Log ev \<Rightarrow> if verbose \<or> level_of ev \<noteq> Debug then [ev] else [] | _ \<Rightarrow> []) acts)"

text \<open>Whether a fault took effect can be read off the log at either level.\<close>

theorem faults_always_written:
  "level_of ev = Warning \<Longrightarrow> ev \<in> set (written verbose acts) \<longleftrightarrow> Log ev \<in> set acts"
  by (force simp: written_def split: action.splits if_splits)

section \<open>Serving and stopping\<close>

datatype device_phase =
    Preparing      \<comment> \<open>up to the record \<open>dut_ready\<close>\<close>
  | Serving        \<comment> \<open>inside \<open>serve_forever\<close>\<close>
  | Returned       \<comment> \<open>\<open>serve_forever\<close> has returned\<close>
  | Stopped        \<comment> \<open>after the record \<open>dut_stopped\<close>\<close>

record device =
  device_phase :: device_phase
  stop_requested :: bool
  shutdown_flag :: bool
  closers :: nat                \<comment> \<open>threads started to call \<open>server.shutdown\<close> that have not yet\<close>
  records :: "log_event list"
  accepted :: nat

definition device_init :: "device \<Rightarrow> bool" where
  "device_init s \<longleftrightarrow> s = \<lparr>device_phase = Preparing, stop_requested = False, shutdown_flag = False, closers = 0,
     records = [], accepted = 0\<rparr>"

text \<open>\<open>request_shutdown(signum, frame)\<close>\<close>

definition request_shutdown :: "int \<Rightarrow> device \<Rightarrow> device" where
  "request_shutdown signum s =
     s\<lparr>records := records s @ [Shutdown_requested signum], stop_requested := True, closers := Suc (closers s)\<rparr>"

text \<open>Every step but the arrival of a signal.\<close>

inductive quiet_step :: "pystr \<Rightarrow> int \<Rightarrow> device \<Rightarrow> device \<Rightarrow> bool" for host port where
  ready: "device_phase s = Preparing \<Longrightarrow>
    quiet_step host port s (s\<lparr>device_phase := Serving, records := records s @ [Dut_ready host port]\<rparr>)"
| shutdown: "closers s = Suc n \<Longrightarrow> quiet_step host port s (s\<lparr>closers := n, shutdown_flag := True\<rparr>)"
| accept: "device_phase s = Serving \<Longrightarrow> \<not> shutdown_flag s \<Longrightarrow>
    quiet_step host port s (s\<lparr>accepted := Suc (accepted s)\<rparr>)"
| return: "device_phase s = Serving \<Longrightarrow> shutdown_flag s \<Longrightarrow>
    quiet_step host port s (s\<lparr>device_phase := Returned, shutdown_flag := False\<rparr>)"
| stop: "device_phase s = Returned \<Longrightarrow>
    quiet_step host port s (s\<lparr>device_phase := Stopped, records := records s @ [Dut_stopped (stop_requested s)]\<rparr>)"

inductive_cases quiet_stepE: "quiet_step host port s t"

text \<open>Handlers are installed only when \<open>run_server\<close> runs in the main thread.\<close>

inductive device_step :: "bool \<Rightarrow> pystr \<Rightarrow> int \<Rightarrow> device \<Rightarrow> device \<Rightarrow> bool" for in_main host port where
  signal: "in_main \<Longrightarrow> signum \<in> {2, 15} \<Longrightarrow> device_step in_main host port s (request_shutdown signum s)"
| quiet: "quiet_step host port s t \<Longrightarrow> device_step in_main host port s t"

inductive_cases device_stepE: "device_step in_main host port s t"

section \<open>The invariant\<close>

fun serving_or_before :: "device_phase \<Rightarrow> bool" where
  "serving_or_before Preparing = True"
| "serving_or_before Serving = True"
| "serving_or_before _ = False"

definition device_ok :: "pystr \<Rightarrow> int \<Rightarrow> device \<Rightarrow> bool" where
  "device_ok host port s \<longleftrightarrow>
     (stop_requested s \<longleftrightarrow> 0 < closers s \<or> shutdown_flag s \<or> \<not> serving_or_before (device_phase s)) \<and>
     (stop_requested s \<longleftrightarrow> (\<exists>n. Shutdown_requested n \<in> set (records s))) \<and>
     (Dut_ready host port \<in> set (records s) \<longleftrightarrow> device_phase s \<noteq> Preparing) \<and>
     (\<forall>b. Dut_stopped b \<in> set (records s) \<longleftrightarrow> b \<and> device_phase s = Stopped)"

lemma device_init_ok: "device_init s \<Longrightarrow> device_ok host port s"
  by (simp add: device_init_def device_ok_def)

lemma quiet_keeps: "quiet_step host port s t \<Longrightarrow> stop_requested t = stop_requested s"
  by (auto elim!: quiet_stepE)

lemma quiet_ok: "quiet_step host port s t \<Longrightarrow> device_ok host port s \<Longrightarrow> device_ok host port t"
  by (elim quiet_stepE) (auto simp: device_ok_def)

lemma signal_ok: "device_ok host port s \<Longrightarrow> device_ok host port (request_shutdown n s)"
  by (simp add: device_ok_def request_shutdown_def ex_disj_distrib)

interpretation devices: transition_invariant device_init "device_step in_main host port" "device_ok host port"
  for in_main host port
  by unfold_locales (auto intro: device_init_ok quiet_ok signal_ok elim!: device_stepE)

section \<open>Properties\<close>

text \<open>Some steps without a signal, in which the device goes on on its own.\<close>

abbreviation goes_to :: "pystr \<Rightarrow> int \<Rightarrow> device \<Rightarrow> device \<Rightarrow> bool" where
  "goes_to host port \<equiv> (quiet_step host port)\<^sup>*\<^sup>*"

lemma returned_stops: "device_phase s = Returned \<Longrightarrow> \<exists>t. goes_to host port s t \<and> device_phase t = Stopped"
  by (intro exI conjI r_into_rtranclp, erule quiet_step.stop) simp

lemma flagged_stops:
  assumes "device_phase s = Serving" and "shutdown_flag s"
  shows "\<exists>t. goes_to host port s t \<and> device_phase t = Stopped"
  using quiet_step.return [OF assms, of host port]
    returned_stops [of "s\<lparr>device_phase := Returned, shutdown_flag := False\<rparr>" host port]
  by (auto intro: converse_rtranclp_into_rtranclp)

lemma serving_stops:
  assumes "device_phase s = Serving" and "0 < closers s \<or> shutdown_flag s"
  shows "\<exists>t. goes_to host port s t \<and> device_phase t = Stopped"
proof (cases "shutdown_flag s")
  case False
  then obtain n where n: "closers s = Suc n" using assms(2) gr0_implies_Suc by blast
  then show ?thesis
    using assms(1) flagged_stops [of "s\<lparr>closers := n, shutdown_flag := True\<rparr>" host port] quiet_step.shutdown [OF n, of host port]
    by (auto intro: converse_rtranclp_into_rtranclp)
qed (use assms flagged_stops in auto)

lemma requested_stops:
  assumes "device_ok host port s" and "stop_requested s"
  shows "\<exists>t. goes_to host port s t \<and> device_phase t = Stopped"
proof (cases "device_phase s")
  case Preparing
  then show ?thesis
    using assms quiet_step.ready [OF Preparing, of host port]
      serving_stops [of "s\<lparr>device_phase := Serving, records := records s @ [Dut_ready host port]\<rparr>" host port]
    by (auto simp: device_ok_def intro: converse_rtranclp_into_rtranclp)
next
  case Serving
  then show ?thesis using assms serving_stops by (auto simp: device_ok_def)
next
  case Returned
  then show ?thesis by (rule returned_stops)
next
  case Stopped
  then show ?thesis by blast
qed

lemma goes_on_unasked: "goes_to host port s t \<Longrightarrow> device_ok host port s \<Longrightarrow> device_ok host port t \<and> stop_requested t = stop_requested s"
  by (induction rule: rtranclp.induct) (auto simp: quiet_keeps intro: quiet_ok)

text \<open>
  C38: A device can go on to its end without a further signal exactly when a signal has reached it, also
  one that came before it was serving; so it neither stops unasked nor gets stuck in \<open>shutdown\<close>.  Its
  log tells: \<open>dut_stopped\<close> is recorded only with \<open>requested=True\<close>, after \<open>dut_ready\<close> and after the
  signal, and an instance outside the main thread, which has no handlers, never stops.
\<close>

theorem device_stops_when_asked:
  assumes "reachable device_init (device_step in_main host port) s"
  shows "((\<exists>t. goes_to host port s t \<and> device_phase t = Stopped) \<longleftrightarrow> (\<exists>n. Shutdown_requested n \<in> set (records s))) \<and>
    (\<forall>b. Dut_stopped b \<in> set (records s) \<longrightarrow>
       b \<and> in_main \<and> Dut_ready host port \<in> set (records s) \<and> (\<exists>n. Shutdown_requested n \<in> set (records s)))"
proof -
  have ok: "device_ok host port s" by (rule devices.inv_reachable [OF assms])
  have asked: "stop_requested s \<longleftrightarrow> (\<exists>n. Shutdown_requested n \<in> set (records s))"
    using ok unfolding device_ok_def by blast
  have "in_main" if "stop_requested s"
    using assms that
  proof (induction rule: reachable.induct)
    case (step s t)
    then show ?case by (auto elim!: device_stepE simp: quiet_keeps)
  qed (simp add: device_init_def)
  moreover have "\<not> (goes_to host port s t \<and> device_phase t = Stopped)" if "\<not> stop_requested s" for t
    using goes_on_unasked [OF _ ok, of t] that by (auto simp: device_ok_def)
  moreover have "b \<and> stop_requested s \<and> Dut_ready host port \<in> set (records s)" if "Dut_stopped b \<in> set (records s)" for b
    using ok that by (auto simp: device_ok_def)
  ultimately show ?thesis
    using requested_stops [OF ok] unfolding asked [symmetric] by blast
qed

definition booting :: device where
  "booting = \<lparr>device_phase = Preparing, stop_requested = False, shutdown_flag = False, closers = 0, records = [], accepted = 0\<rparr>"

theorem device_stops_when_asked_witness:
  "\<exists>t. goes_to (S ''127.0.0.1'') 9000 (request_shutdown 2 booting) t \<and> device_phase t = Stopped"
proof -
  have "reachable device_init (device_step True (S ''127.0.0.1'') 9000) booting"
    by (rule reachable.start) (simp add: booting_def device_init_def)
  moreover have "device_step True (S ''127.0.0.1'') 9000 booting (request_shutdown 2 booting)"
    by (rule device_step.signal) simp_all
  ultimately have "reachable device_init (device_step True (S ''127.0.0.1'') 9000) (request_shutdown 2 booting)"
    by (rule reachable.step)
  from device_stops_when_asked [OF this] show ?thesis by (auto simp: request_shutdown_def)
qed

end
