(* ===== verification/Lab_Client.thy ===== *)
theory Lab_Client
  imports Dut_Server
begin

text \<open>
  The test client (\<open>src/testlab/client.py\<close>): \<open>LabClient\<close>'s connection state, \<open>connect\<close>, \<open>request\<close>,
  \<open>wait_until_ready\<close> and \<open>close\<close>.  What the network does is an argument: whether a connection can
  be opened, and what a request's bytes are answered with.  \<open>dut_reply\<close> is that answer when the
  other end is the server of \<open>Dut_Server\<close>; the last properties are about the pair.

  Times are rationals in seconds, as \<open>time.monotonic\<close> counts them.
\<close>

section \<open>The client\<close>

record lab_client =
  client_host :: pystr
  client_port :: int
  connect_timeout :: rat
  response_timeout :: rat
  socket_open :: bool
  reader_open :: bool

datatype comm_error =
    Unable_to_connect | Not_connected | Request_failed | Connection_closed | Invalid_json
  | Not_an_object

text \<open>\<open>LabCommunicationError\<close>, the documented error, and the others that can come out.\<close>

datatype client_exc = Lab comm_error | Client_ValueError | Unicode_decode_error | Client_timeout

definition lab_client_init :: "pystr \<Rightarrow> int \<Rightarrow> rat \<Rightarrow> rat \<Rightarrow> client_exc + lab_client" where
  "lab_client_init host port ct rt =
     (if host = [] then Inl Client_ValueError
      else if \<not> (1 \<le> port \<and> port \<le> 65535) then Inl Client_ValueError
      else if ct \<le> 0 \<or> rt \<le> 0 then Inl Client_ValueError
      else Inr \<lparr>client_host = host, client_port = port, connect_timeout = ct, response_timeout = rt,
             socket_open = False, reader_open = False\<rparr>)"

definition is_connected :: "lab_client \<Rightarrow> bool" where
  "is_connected c \<longleftrightarrow> socket_open c \<and> reader_open c"

text \<open>
  \<open>close\<close>: each handle is forgotten even when closing it raises; the flags say whether the reader's
  and the socket's \<open>close\<close> do, and the result whether the exception comes out.
\<close>

definition close_client :: "bool \<Rightarrow> bool \<Rightarrow> lab_client \<Rightarrow> lab_client \<times> bool" where
  "close_client reader_raises socket_raises c =
     (let c1 = c\<lparr>reader_open := False\<rparr>
      in if reader_open c \<and> reader_raises then (c1, True)
         else if socket_open c then (c1\<lparr>socket_open := False\<rparr>, socket_raises)
         else (c1, False))"

definition disconnect :: "lab_client \<Rightarrow> lab_client" where
  "disconnect c = fst (close_client False False c)"

text \<open>\<open>connect\<close>, \<open>up\<close> telling whether the operating system opens the connection.\<close>

definition connect :: "bool \<Rightarrow> lab_client \<Rightarrow> lab_client \<times> client_exc option" where
  "connect up c =
     (if is_connected c then (c, None)
      else if up then (c\<lparr>socket_open := True, reader_open := True\<rparr>, None)
      else (disconnect c, Some (Lab Unable_to_connect)))"

text \<open>What comes of \<open>sendall\<close> and \<open>readline\<close>: an \<open>OSError\<close> (a timeout is one), or the bytes of a line.\<close>

datatype exchange = Io_error | Io_line bytes

text \<open>\<open>cap\<close> and \<open>depth\<close> are the limits of the client's interpreter; the caller gives a message dict.\<close>

definition request :: "nat \<Rightarrow> nat \<Rightarrow> (pyfloat \<Rightarrow> pystr) \<Rightarrow> (bytes \<Rightarrow> exchange) \<Rightarrow> lab_client \<Rightarrow> obj \<Rightarrow>
    client_exc + obj" where
  "request cap depth fr net c message =
     (if \<not> is_connected c then Inl (Lab Not_connected)
      else case json_dumps cap fr (JObj message) of
          Inl _ \<Rightarrow> Inl Client_ValueError
        | Inr text \<Rightarrow>
            (case net (utf8_encode (text @ [10])) of
               Io_error \<Rightarrow> Inl (Lab Request_failed)
             | Io_line bs \<Rightarrow>
                 (case utf8_strict bs of
                    None \<Rightarrow> Inl Unicode_decode_error
                  | Some line \<Rightarrow>
                      if line = [] then Inl (Lab Connection_closed)
                      else case loads (builtin_int cap) depth line of
                          Inl _ \<Rightarrow> Inl (Lab Invalid_json)
                        | Inr payload \<Rightarrow>
                            (case payload of JObj d \<Rightarrow> Inr d | _ \<Rightarrow> Inl (Lab Not_an_object)))))"

section \<open>Waiting for the device\<close>

definition status_request :: obj where
  "status_request = [(k_command, JStr (S ''status'')), (k_sequence, JInt 0)]"

definition reports_ready :: "obj \<Rightarrow> bool" where
  "reports_ready payload \<longleftrightarrow> dget payload k_state = Some (JStr (S ''READY''))"

text \<open>One turn of the loop: the clock at its test, and what the network would do in it.\<close>

record poll =
  poll_now :: rat
  poll_reachable :: bool
  poll_net :: "bytes \<Rightarrow> exchange"

text \<open>
  The loop over the turns the clock gives it.  \<open>None\<close> means that the turns ran out while the clock
  was still below the deadline.
\<close>

fun wait_loop :: "nat \<Rightarrow> nat \<Rightarrow> (pyfloat \<Rightarrow> pystr) \<Rightarrow> rat \<Rightarrow> lab_client \<Rightarrow> poll list \<Rightarrow>
    (lab_client \<times> client_exc option) option" where
  "wait_loop cap depth fr deadline c [] = None"
| "wait_loop cap depth fr deadline c (p # ps) =
     (if \<not> poll_now p < deadline then Some (c, Some Client_timeout)
      else case connect (poll_reachable p) c of
          (c1, Some e) \<Rightarrow> wait_loop cap depth fr deadline (disconnect c1) ps
        | (c1, None) \<Rightarrow>
            (case request cap depth fr (poll_net p) c1 status_request of
               Inr payload \<Rightarrow>
                 if reports_ready payload then Some (c1, None)
                 else wait_loop cap depth fr deadline c1 ps
             | Inl (Lab e) \<Rightarrow> wait_loop cap depth fr deadline (disconnect c1) ps
             | Inl e \<Rightarrow> Some (c1, Some e)))"

definition wait_until_ready :: "nat \<Rightarrow> nat \<Rightarrow> (pyfloat \<Rightarrow> pystr) \<Rightarrow> rat \<Rightarrow> rat \<Rightarrow> rat \<Rightarrow> lab_client \<Rightarrow>
    poll list \<Rightarrow> (lab_client \<times> client_exc option) option" where
  "wait_until_ready cap depth fr started deadline_seconds poll_seconds c polls =
     (if deadline_seconds \<le> 0 \<or> poll_seconds \<le> 0 then Some (c, Some Client_ValueError)
      else wait_loop cap depth fr (started + deadline_seconds) c polls)"

section \<open>The device at the other end\<close>

text \<open>Milliseconds a handler sleeps before it sends anything.\<close>

fun pause_before_send :: "action list \<Rightarrow> int" where
  "pause_before_send [] = 0"
| "pause_before_send (Sleep d # as) = d + pause_before_send as"
| "pause_before_send (Send b # as) = 0"
| "pause_before_send (Log e # as) = pause_before_send as"

text \<open>
  What a client sees that sends these bytes on a fresh connection and reads one line: nothing in
  time, the end of the stream when the handler has left without an answer, or the first line sent.
\<close>

definition dut_reply :: "interpreter \<Rightarrow> fault_config \<Rightarrow> int \<Rightarrow> rat \<Rightarrow> bytes \<Rightarrow> exchange" where
  "dut_reply py faults cnt timeout bs =
     (let (cnt', acts, ctl) = handle py faults cnt bs
      in if timeout * 1000 < of_int (pause_before_send acts) then Io_error
         else case sends acts of [] \<Rightarrow> Io_line [] | b # _ \<Rightarrow> Io_line b)"

section \<open>Lemmas\<close>

lemma close_not_connected: "\<not> is_connected (fst (close_client r s c))"
  by (simp add: close_client_def is_connected_def Let_def)

lemma disconnect_closed: "socket_open (disconnect c) = False" "reader_open (disconnect c) = False"
  by (simp_all add: disconnect_def close_client_def Let_def)

lemma connect_connected: "connect b c = (c', None) \<Longrightarrow> is_connected c'"
  by (auto simp: connect_def is_connected_def split: if_splits)

text \<open>Well-formed responses, as \<open>json.loads\<close> gives them back.\<close>

lemma wf_response:
  assumes "\<And>m. decoded = Some m \<Longrightarrow> wf_json m"
  shows "wf_json (JObj (response_for decoded))"
proof (cases "\<exists>d. decoded = Some (JObj d)")
  case True
  then obtain d where d: "decoded = Some (JObj d)" by blast
  have "wf_json (get_or_null d k)" for k
    using assms [OF d] by (auto simp: get_or_null_def dest: map_of_SomeD split: option.splits)
  then show ?thesis using d
    by (simp add: response_for_def build_response_def Let_def protocol_key_defs dict_ok_def dkeys_def)
next
  case False
  then show ?thesis
    by (auto simp: response_for_def build_response_def invalid_json_response_def protocol_key_defs
        dict_ok_def dkeys_def split: option.splits json.splits)
qed

subsection \<open>One exchange with the device\<close>

text \<open>A message the client can serialise and whose echo it can read back.\<close>

definition client_ok :: "nat \<Rightarrow> nat \<Rightarrow> obj \<Rightarrow> bool" where
  "client_ok cap depth m \<longleftrightarrow> plain (builtin_int cap) (JObj m) \<and> containers (JObj m) \<le> depth"

definition expected_reply :: "obj \<Rightarrow> obj" where
  "expected_reply m = sort_key fst (map (\<lambda>(k, v). (k, canon v)) (build_response (canon (JObj m))))"

lemma canon_expected_reply: "canon (JObj (build_response (canon (JObj m)))) = JObj (expected_reply m)"
  by (simp add: expected_reply_def)

lemma lstrip_dec_int: "lstrip_by ((=) 45) (dec_int i) = dec_nat (nat \<bar>i\<bar>)"
proof -
  obtain c t where c: "dec_nat (nat \<bar>i\<bar>) = c # t" using dec_nat_hd by blast
  then have "is_digit c" using dec_nat_digits [of "nat \<bar>i\<bar>"] by simp
  then show ?thesis using c by (auto simp: dec_int_def lstrip_by_def is_digit_def abs_if)
qed

lemma json_dumps_plain: "plain (builtin_int cap) j \<Longrightarrow> json_dumps cap fr j = Inr (dumps fr j)"
proof -
  assume "plain (builtin_int cap) j"
  from plain_json_all [OF this] have "json_all (\<lambda>_. True) (\<lambda>i. cap = 0 \<or> int_digits i \<le> cap) j"
    by (rule json_all_mono) (auto simp: builtin_int_def int_digits_def lstrip_dec_int split: if_splits)
  then show ?thesis by (simp add: json_dumps_def)
qed

lemma get_or_null_canon:
  assumes "wf_json (JObj m)" and "canon (JObj m) = JObj d"
  shows "get_or_null d k = canon (get_or_null m k)"
proof -
  have "dict_ok (map (\<lambda>(k, v). (k, canon v)) m)" using assms(1) by simp
  then have "dget d k = map_option canon (dget m k)"
    using assms(2) by (auto simp: dget_sort map_of_map)
  then show ?thesis by (cases "dget m k") (simp_all add: get_or_null_def)
qed

lemma plain_get_or_null: "plain ph (JObj m) \<Longrightarrow> plain ph (get_or_null m k)"
  by (auto simp: get_or_null_def dest: map_of_SomeD split: option.splits)

lemma containers_get_or_null: "containers (get_or_null m k) \<le> containers (JObj m) - 1"
proof (cases "dget m k")
  case (Some v)
  then have "(k, v) \<in> set m" by (rule map_of_SomeD)
  then have "containers v \<le> foldr max (map (\<lambda>(k, v). containers v) m) 0"
    using foldr_max_le [of "map (\<lambda>(k, v). containers v) m" "foldr max (map (\<lambda>(k, v). containers v) m) 0"]
    by force
  then show ?thesis using Some by (simp add: get_or_null_def)
qed (simp add: get_or_null_def)

lemma str_ok_S: "(\<forall>c \<in> set s. of_char c < (128::nat)) \<Longrightarrow> str_ok (S s)"
  by (auto simp: str_ok_def scalar_def S_def)

lemma response_client_ok:
  assumes "wf_json (JObj m)" and "client_ok cap depth m"
  shows "plain (builtin_int cap) (JObj (build_response (canon (JObj m))))"
    and "containers (JObj (build_response (canon (JObj m)))) \<le> depth"
    and "wf_json (JObj (build_response (canon (JObj m))))"
proof -
  obtain d where d: "canon (JObj m) = JObj d" by simp
  have p: "plain (builtin_int cap) (JObj d)" and c: "containers (JObj d) \<le> depth" and w: "wf_json (JObj d)"
    using assms plain_canon [of "builtin_int cap" "JObj m"] containers_canon [of "JObj m"]
      wf_canon [OF assms(1)] unfolding d client_ok_def by simp_all
  have g: "plain (builtin_int cap) (get_or_null d k)" for k by (rule plain_get_or_null [OF p])
  have h: "containers (get_or_null d k) \<le> depth - 1" "1 \<le> depth" for k
    using containers_get_or_null [of d k] c by auto
  show "plain (builtin_int cap) (JObj (build_response (canon (JObj m))))"
    unfolding d using g by (auto simp: build_response_def Let_def protocol_key_defs str_ok_S)
  show "containers (JObj (build_response (canon (JObj m)))) \<le> depth"
    unfolding d using h
    by (auto simp: build_response_def Let_def foldr_max_le Suc_le_eq) (metis Suc_pred less_Suc_eq_le)+
  show "wf_json (JObj (build_response (canon (JObj m))))"
    using wf_response [of "Some (JObj d)"] w unfolding d by (simp add: response_for_def)
qed

text \<open>The client's side, whatever comes back.\<close>

lemma request_reply:
  assumes "is_connected c" and "client_ok cap depth m" and "net (utf8_encode (dumps fr (JObj m) @ [10])) = x"
  shows "request cap depth fr net c m =
    (case x of
       Io_error \<Rightarrow> Inl (Lab Request_failed)
     | Io_line bs \<Rightarrow>
         (case utf8_strict bs of
            None \<Rightarrow> Inl Unicode_decode_error
          | Some line \<Rightarrow>
              if line = [] then Inl (Lab Connection_closed)
              else case loads (builtin_int cap) depth line of
                  Inl _ \<Rightarrow> Inl (Lab Invalid_json)
                | Inr payload \<Rightarrow> (case payload of JObj d \<Rightarrow> Inr d | _ \<Rightarrow> Inl (Lab Not_an_object))))"
  using assms by (simp add: request_def client_ok_def json_dumps_plain)

text \<open>The reply direction of the wire: what the device writes, the client reads.\<close>

definition replyable :: "nat \<Rightarrow> nat \<Rightarrow> json \<Rightarrow> bool" where
  "replyable cap depth j \<longleftrightarrow> plain (builtin_int cap) j \<and> containers j \<le> depth \<and> wf_json j"

definition client_decode :: "nat \<Rightarrow> nat \<Rightarrow> pystr \<Rightarrow> json option" where
  "client_decode cap depth line = (case loads (builtin_int cap) depth line of Inl _ \<Rightarrow> None | Inr j \<Rightarrow> Some j)"

interpretation reply: line_codec "dumps fr" "client_decode cap depth" "replyable cap depth" canon
  for fr cap depth
proof unfold_locales
  fix j assume ok: "replyable cap depth j"
  show "client_decode cap depth (dumps fr j) = Some (canon j)"
    using ok by (simp add: client_decode_def replyable_def loads_dumps)
  show "printable (dumps fr j)"
    using ok dump_printable_plain [of "builtin_int cap" "canon j"] by (simp add: replyable_def dumps_def)
qed

lemma exchange_reply:
  assumes "replyable cap depth (JObj r)" and "canon (JObj r) = JObj d"
  shows "utf8_strict (utf8_encode (dumps fr (JObj r) @ [10])) = Some (dumps fr (JObj r) @ [10])"
    and "loads (builtin_int cap) depth (dumps fr (JObj r) @ [10]) = Inr (JObj d)"
proof -
  show "utf8_strict (utf8_encode (dumps fr (JObj r) @ [10])) = Some (dumps fr (JObj r) @ [10])"
    using printable_ascii [OF reply.enc_printable [OF assms(1), of fr]] by simp
  show "loads (builtin_int cap) depth (dumps fr (JObj r) @ [10]) = Inr (JObj d)"
    using assms loads_dumps_ws [of "builtin_int cap" "JObj r" depth "[10]" fr]
    by (simp add: replyable_def is_ws_def del: canon.simps)
qed

subsection \<open>The device's side\<close>

definition short_request :: "(pyfloat \<Rightarrow> pystr) \<Rightarrow> obj \<Rightarrow> bool" where
  "short_request fr m \<longleftrightarrow> sendable (JObj m) \<and> length (dumps fr (JObj m)) \<le> MAX_LINE_BYTES"

definition frame :: "(pyfloat \<Rightarrow> pystr) \<Rightarrow> obj \<Rightarrow> bytes" where
  "frame fr m = utf8_encode (dumps fr (JObj m) @ [10])"

lemma frame_read:
  assumes "short_request fr m"
  shows "frame fr m \<noteq> []" "readline_max (MAX_LINE_BYTES + 2) (frame fr m) = (frame fr m, [])"
    "\<not> too_long (frame fr m)"
proof -
  have ok: "sendable (JObj m)" and l: "length (dumps fr (JObj m)) \<le> MAX_LINE_BYTES"
    using assms by (simp_all add: short_request_def)
  have f: "frame fr m = dumps fr (JObj m) @ [10]" by (simp add: frame_def wire.encode_line [OF ok])
  show "frame fr m \<noteq> []" by (simp add: f)
  show "readline_max (MAX_LINE_BYTES + 2) (frame fr m) = (frame fr m, [])"
    using readline_max_frame_short [OF wire.enc_no_newline [OF ok] l, of "[10]" "[]"] by (simp add: f)
  show "\<not> too_long (frame fr m)"
    using rstrip_crlf_printable [OF wire.enc_printable [OF ok, of fr]] l by (simp add: too_long_def f)
qed

lemma frame_response:
  assumes "short_request fr m" and "MAX_NESTING_DEPTH \<le> recursion_room py"
  shows "request_response py (frame fr m) = build_response (canon (JObj m))"
proof -
  have ok: "sendable (JObj m)" using assms(1) by (simp add: short_request_def)
  obtain extra where "recursion_room py = MAX_NESTING_DEPTH + extra" using assms(2) le_Suc_ex by blast
  then show ?thesis
    using wire.receive_replace [OF ok, of "int_max_str_digits py" extra fr]
    by (simp add: request_response_def request_text_def frame_def int_cap_def response_for_def)
qed

lemma handle_frame:
  assumes "short_request fr m"
  shows "handle py faults cnt (frame fr m) =
    (let (cnt', acts, ctl) = handle_line py faults cnt (frame fr m)
     in case ctl of
          Next_line \<Rightarrow> (cnt', Log Client_connected # acts @ [Log Client_disconnected], Return)
        | _ \<Rightarrow> (cnt', Log Client_connected # acts, ctl))"
proof -
  obtain c a k where h: "handle_line py faults cnt (frame fr m) = (c, a, k)" by (metis prod_cases3)
  then show ?thesis using handle_line_control [OF h] frame_read(3) [OF assms]
    by (cases k) (auto simp: handle_def session_loop_line [OF frame_read(1,2) [OF assms]] session_loop_end
        split: if_splits)
qed

text \<open>What the client reads back under each preset.\<close>

lemma dut_reply_preset:
  assumes "short_request fr m" and "MAX_NESTING_DEPTH \<le> recursion_room py" and "0 < timeout"
  shows "dut_reply py (preset delay f) 0 timeout (frame fr m) =
    (let answer = Io_line (utf8_encode (dumps (float_repr py) (JObj (build_response (canon (JObj m)))) @ [10]))
     in case f of
          Delayed_response \<Rightarrow> if timeout * 1000 < of_int delay then Io_error else answer
        | Dropped_connection \<Rightarrow> Io_line []
        | Malformed_response \<Rightarrow> Io_line malformed_line
        | Startup_delay \<Rightarrow> answer
        | Process_termination \<Rightarrow> Io_line [])"
proof -
  have long: "\<not> too_long (frame fr m)" by (rule frame_read(3) [OF assms(1)])
  show ?thesis
  proof (cases f)
    case Delayed_response
    then show ?thesis
      using long assms(3)
      by (auto simp: dut_reply_def handle_frame [OF assms(1)] handle_line_def answer_line_eq Let_def
          frame_response [OF assms(1,2)] delay_actions_def no_faults_def counts_requests_def exit_due_def
          send_line_def not_less intro: order_trans [OF _ less_imp_le])
  qed (use long assms(3) in \<open>simp_all add: dut_reply_def handle_frame [OF assms(1)] handle_line_def
      answer_line_eq Let_def frame_response [OF assms(1,2)] delay_actions_def no_faults_def
      counts_requests_def exit_due_def send_line_def\<close>)
qed

lemma loads_malformed: "loads ph depth (S ''this-is-not-json'' @ [10]) = Inl JSONDecodeError"
  by (simp add: loads_def parse_raw_def S_def scan_value.simps(2) [where n = 34, simplified] scan_atom_def keyword_def starts_with_def
      scan_number_def scan_int_part_def skip_ws_def is_ws_def is_digit_def)

section \<open>Properties\<close>

text \<open>
  C19: What a test sees of each fault preset is the fault's documented effect and nothing else: the
  first request of a client, to a device started with that preset, is answered with the response
  to exactly the message sent under \<open>startup_delay\<close> and under a delay within the client's timeout;
  a longer delay fails the request, a dropped connection and a process termination are a closed
  connection, and a malformed response is invalid JSON.
\<close>

theorem preset_seen_by_client:
  assumes "is_connected c" and "short_request fr m" and "client_ok cap depth m"
    and "MAX_NESTING_DEPTH \<le> recursion_room py" and "0 < response_timeout c"
  shows "request cap depth fr (dut_reply py (preset delay f) 0 (response_timeout c)) c m =
    (case f of
       Delayed_response \<Rightarrow>
         if response_timeout c * 1000 < of_int delay then Inl (Lab Request_failed)
         else Inr (expected_reply m)
     | Dropped_connection \<Rightarrow> Inl (Lab Connection_closed)
     | Malformed_response \<Rightarrow> Inl (Lab Invalid_json)
     | Startup_delay \<Rightarrow> Inr (expected_reply m)
     | Process_termination \<Rightarrow> Inl (Lab Connection_closed))"
proof -
  have wf: "wf_json (JObj m)" using assms(2) by (simp add: short_request_def sendable_def)
  have r: "replyable cap depth (JObj (build_response (canon (JObj m))))"
    using response_client_ok [OF wf assms(3)] by (simp add: replyable_def)
  note ex = exchange_reply [OF r canon_expected_reply]
  have m: "utf8_strict malformed_line = Some (S ''this-is-not-json'' @ [10])"
    unfolding malformed_line_def by (rule utf8_ascii(2)) (simp add: S_def)
  note net = dut_reply_preset [OF assms(2,4,5), of delay f]
  have "request cap depth fr (dut_reply py (preset delay f) 0 (response_timeout c)) c m =
      (case dut_reply py (preset delay f) 0 (response_timeout c) (frame fr m) of
         Io_error \<Rightarrow> Inl (Lab Request_failed)
       | Io_line bs \<Rightarrow>
           (case utf8_strict bs of
              None \<Rightarrow> Inl Unicode_decode_error
            | Some line \<Rightarrow>
                if line = [] then Inl (Lab Connection_closed)
                else case loads (builtin_int cap) depth line of
                    Inl _ \<Rightarrow> Inl (Lab Invalid_json)
                  | Inr payload \<Rightarrow> (case payload of JObj d \<Rightarrow> Inr d | _ \<Rightarrow> Inl (Lab Not_an_object))))"
    by (rule request_reply [OF assms(1,3)]) (simp add: frame_def)
  then show ?thesis unfolding net
    by (cases f) (simp_all add: Let_def ex m loads_malformed del: canon.simps)
qed

theorem preset_seen_by_client_witness:
  "request 4300 900 (\<lambda>_. [])
     (dut_reply \<lparr>int_max_str_digits = 4300, recursion_room = 900, float_repr = \<lambda>_. []\<rparr>
       (preset 400 Delayed_response) 0 (1/2))
     \<lparr>client_host = S ''h'', client_port = 9000, connect_timeout = 1, response_timeout = 1/2,
       socket_open = True, reader_open = True\<rparr> [(k_command, JStr (S ''status''))] =
   Inr [(k_sequence, JNull), (k_state, JStr (S ''READY'')), (k_status, JStr (S ''ok''))]"
proof -
  let ?m = "[(k_command, JStr (S ''status''))]"
  let ?c = "\<lparr>client_host = S ''h'', client_port = 9000, connect_timeout = 1, response_timeout = 1/2,
    socket_open = True, reader_open = True\<rparr>"
  have "length (dumps (\<lambda>_. []) (JObj ?m)) \<le> MAX_LINE_BYTES"
    by (simp add: dumps_def dump_string_def S_def esc_def newline_def k_command_def MAX_LINE_BYTES_def)
  then have short: "short_request (\<lambda>_. []) ?m"
    by (simp add: short_request_def sendable_def MAX_NESTING_DEPTH_def str_ok_S k_command_def dict_ok_def
        dkeys_def)
  have ok: "client_ok 4300 900 ?m" by (simp add: client_ok_def str_ok_S k_command_def)
  have "expected_reply ?m = [(k_sequence, JNull), (k_state, JStr (S ''READY'')), (k_status, JStr (S ''ok''))]"
    by (simp add: expected_reply_def build_response_def get_or_null_def Let_def protocol_key_defs)
      (simp add: S_def)
  then show ?thesis
    using preset_seen_by_client [OF _ short ok, of ?c
        "\<lparr>int_max_str_digits = 4300, recursion_room = 900, float_repr = \<lambda>_. []\<rparr>" 400 Delayed_response]
    by (simp add: is_connected_def MAX_NESTING_DEPTH_def)
qed

text \<open>
  C36: Whatever the device answers, a request either yields a JSON object or raises the documented
  \<open>LabCommunicationError\<close>, with one exception: a reply that is not UTF-8 escapes as the decoder's
  \<open>UnicodeDecodeError\<close>.  (The client is connected and its own message can be serialised.)
\<close>

theorem request_error_documented:
  assumes "is_connected c" and "client_ok cap depth m"
  shows "(\<exists>d. request cap depth fr net c m = Inr d) \<or> (\<exists>e. request cap depth fr net c m = Inl (Lab e)) \<or>
    request cap depth fr net c m = Inl Unicode_decode_error \<and>
    (\<exists>bs. net (frame fr m) = Io_line bs \<and> utf8_strict bs = None)"
  using request_reply [OF assms, of net fr "net (frame fr m)"] unfolding frame_def
  by (auto split: exchange.splits option.splits sum.splits json.splits)

theorem request_error_documented_witness:
  "request 4300 900 (\<lambda>_. []) (\<lambda>_. Io_line [255, 10])
     \<lparr>client_host = S ''h'', client_port = 9000, connect_timeout = 1, response_timeout = 1/2,
       socket_open = True, reader_open = True\<rparr> [] = Inl Unicode_decode_error"
proof -
  have "utf8_strict [255, 10] = None" by (simp add: utf8_next_def)
  then show ?thesis
    using request_error_documented [of "\<lparr>client_host = S ''h'', client_port = 9000, connect_timeout = 1,
        response_timeout = 1/2, socket_open = True, reader_open = True\<rparr>" 4300 900 "[]" "\<lambda>_. []"
        "\<lambda>_. Io_line [255, 10]"]
    by (simp add: is_connected_def client_ok_def request_def json_dumps_def)
qed



end
