(* ===== verification/Toolchain.thy ===== *)
theory Toolchain
  imports Json_Text
begin

text \<open>
  The native toolchain (\<open>learning/server/toolchain.py\<close>): which tools a machine has, what a lesson
  may require of it, and the explanation shown for what is missing.  The machine is a record of
  what the standard library reports about it: \<open>shutil.which\<close>, \<open>Path.is_file\<close>, the environment, the
  interpreter's directory and the joining of path components.
\<close>

record machine =
  which :: "pystr \<Rightarrow> pystr option"
  is_file :: "pystr \<Rightarrow> bool"
  environ :: "pystr \<Rightarrow> pystr option"
  executable_dir :: pystr
  join_path :: "pystr \<Rightarrow> pystr \<Rightarrow> pystr"

record toolchain =
  cmake :: "pystr option"
  ctest :: "pystr option"
  cxx :: "pystr option"
  gdb :: "pystr option"
  ninja :: "pystr option"
  make_tool :: "pystr option"

text \<open>Truth of a path that may be missing: \<open>None\<close> and the empty string are false.\<close>

definition present :: "pystr option \<Rightarrow> bool" where
  "present p \<longleftrightarrow> (case p of None \<Rightarrow> False | Some s \<Rightarrow> s \<noteq> [])"

section \<open>Detection\<close>

text \<open>A Windows path from its components; 92 is the backslash.\<close>

definition windows_path :: "string list \<Rightarrow> pystr" where
  "windows_path parts = join [92] (map S parts)"

definition fallback_dirs :: "pystr list" where
  "fallback_dirs = map windows_path
     [[''C:'', ''dev'', ''mingw64'', ''bin''], [''C:'', ''mingw64'', ''bin''],
      [''C:'', ''msys64'', ''mingw64'', ''bin''], [''C:'', ''msys64'', ''ucrt64'', ''bin''],
      [''C:'', ''Program Files'', ''LLVM'', ''bin''], [''C:'', ''Program Files'', ''CMake'', ''bin'']]"

definition make_candidates :: "pystr list" where
  "make_candidates = map S [''mingw32-make'', ''make'']"

definition cxx_candidates :: "pystr list" where
  "cxx_candidates = map S [''g++'', ''clang++'', ''c++'']"

text \<open>The paths tried after \<open>PATH\<close>: in the interpreter's directory, then in the known ones.\<close>

definition find_candidates :: "machine \<Rightarrow> pystr \<Rightarrow> pystr list" where
  "find_candidates h name =
     concat (map (\<lambda>d. [join_path h d name, join_path h d (name @ S ''.exe'')])
       (executable_dir h # fallback_dirs))"

definition find_tool :: "machine \<Rightarrow> pystr \<Rightarrow> pystr option" where
  "find_tool h name =
     (if present (which h name) then which h name
      else List.find (is_file h) (find_candidates h name))"

text \<open>The environment's override, if it names a file.\<close>

definition override_path :: "machine \<Rightarrow> pystr \<Rightarrow> pystr option" where
  "override_path h var = (case environ h var of
     Some p \<Rightarrow> if p \<noteq> [] \<and> is_file h p then Some p else None | None \<Rightarrow> None)"

text \<open>\<open>for candidate in candidates: found = _find(candidate); if found: return found\<close>\<close>

fun first_found :: "machine \<Rightarrow> pystr list \<Rightarrow> pystr option" where
  "first_found h [] = None"
| "first_found h (n # ns) = (if present (find_tool h n) then find_tool h n else first_found h ns)"

definition resolve_tool :: "machine \<Rightarrow> pystr \<Rightarrow> pystr \<Rightarrow> pystr option" where
  "resolve_tool h var name = (case override_path h var of Some p \<Rightarrow> Some p | None \<Rightarrow> find_tool h name)"

definition resolve_first :: "machine \<Rightarrow> pystr \<Rightarrow> pystr list \<Rightarrow> pystr option" where
  "resolve_first h var names =
     (case override_path h var of Some p \<Rightarrow> Some p | None \<Rightarrow> first_found h names)"

definition detect_toolchain :: "machine \<Rightarrow> toolchain" where
  "detect_toolchain h =
     \<lparr>cmake = resolve_tool h (S ''FTL_CMAKE'') (S ''cmake''),
      ctest = resolve_tool h (S ''FTL_CTEST'') (S ''ctest''),
      cxx = resolve_first h (S ''FTL_CXX'') cxx_candidates,
      gdb = resolve_tool h (S ''FTL_GDB'') (S ''gdb''),
      ninja = resolve_tool h (S ''FTL_NINJA'') (S ''ninja''),
      make_tool = resolve_first h (S ''FTL_MAKE'') make_candidates\<rparr>"

section \<open>Requirements\<close>

definition can_build_cpp :: "toolchain \<Rightarrow> bool" where
  "can_build_cpp t \<longleftrightarrow>
     (if \<not> (present (cmake t) \<and> present (ctest t) \<and> present (cxx t)) then False
      else present (ninja t) \<or> present (make_tool t))"

definition can_debug :: "toolchain \<Rightarrow> bool" where
  "can_debug t \<longleftrightarrow> present (gdb t)"

definition r_cpp_build :: pystr where "r_cpp_build = S ''cpp-build''"
definition r_gdb :: pystr where "r_gdb = S ''gdb''"

definition satisfies :: "toolchain \<Rightarrow> pystr \<Rightarrow> bool" where
  "satisfies t requirement =
     (if requirement = r_cpp_build then can_build_cpp t
      else if requirement = r_gdb then can_debug t else False)"

definition missing_for :: "toolchain \<Rightarrow> pystr \<Rightarrow> pystr list" where
  "missing_for t requirement =
     (if requirement = r_cpp_build
      then map fst (filter (\<lambda>(name, path). \<not> present path)
             [(S ''cmake'', cmake t), (S ''ctest'', ctest t), (S ''a C++ compiler (g++/clang++)'', cxx t)]) @
           (if \<not> (present (ninja t) \<or> present (make_tool t))
            then [S ''a build backend (ninja, or make/mingw32-make)''] else [])
      else if requirement = r_gdb then (if present (gdb t) then [] else [S ''gdb''])
      else [requirement])"

definition requirement_reason :: "pystr \<Rightarrow> toolchain \<Rightarrow> pystr" where
  "requirement_reason requirement t =
     (let missing = join (S '', '') (missing_for t requirement)
      in if requirement = r_cpp_build
         then S ''This module needs a C++ toolchain and none was found: '' @ missing @
              S '' is not on PATH. Install a compiler plus CMake (on Windows: `winget install BrechtSanders.WinLibs.POSIX.UCRT` and `pip install cmake ninja`; on Debian/Ubuntu: `apt install build-essential cmake gdb`), then restart `python -m learning` and this module unlocks itself.''
         else if requirement = r_gdb
         then S ''This module needs the GNU debugger and gdb is not on PATH. Install it (Windows: the WinLibs MinGW-w64 package ships gdb; Debian/Ubuntu: `apt install gdb`), then restart `python -m learning`.''
         else S ''Unsatisfied requirement: '' @ requirement @ S '' ('' @ missing @ S '').'')"

section \<open>Lemmas\<close>

lemma requirement_reason_ne [simp]: "requirement_reason r t \<noteq> []"
  by (simp add: requirement_reason_def Let_def)

text \<open>A path that detection may return: one \<open>which\<close> reports, or an existing file.\<close>

definition usable :: "machine \<Rightarrow> pystr \<Rightarrow> bool" where
  "usable h p \<longleftrightarrow> is_file h p \<or> (\<exists>n. which h n = Some p)"

lemma find_tool_usable: "find_tool h n = Some p \<Longrightarrow> usable h p"
  by (auto simp: find_tool_def usable_def find_Some_iff split: if_splits)

lemma override_usable: "override_path h v = Some p \<Longrightarrow> usable h p"
  by (auto simp: override_path_def usable_def split: option.splits if_splits)

lemma first_found_usable: "first_found h ns = Some p \<Longrightarrow> usable h p"
  by (induction ns) (auto split: if_splits dest: find_tool_usable)

lemma resolve_usable:
  "resolve_tool h v n = Some p \<Longrightarrow> usable h p" "resolve_first h v ns = Some p \<Longrightarrow> usable h p"
  by (auto simp: resolve_tool_def resolve_first_def split: option.splits
      dest: override_usable find_tool_usable first_found_usable)

section \<open>Properties\<close>

text \<open>
  A requirement is satisfied exactly when nothing is reported missing for it, so a lesson is
  never withheld with an empty explanation and never offered while a tool is missing.
\<close>

theorem satisfied_iff_nothing_missing: "satisfies t r \<longleftrightarrow> missing_for t r = []"
  by (auto simp: satisfies_def missing_for_def can_build_cpp_def can_debug_def)

text \<open>
  Detection reports only tools that are there: every path of a detected toolchain is an
  existing file or one \<open>which\<close> found, and an override that names a file always wins.
\<close>

theorem detected_tools_usable:
  "(\<forall>p \<in> Union (set_option ` {cmake (detect_toolchain h), ctest (detect_toolchain h),
      cxx (detect_toolchain h), gdb (detect_toolchain h), ninja (detect_toolchain h),
      make_tool (detect_toolchain h)}). usable h p) \<and>
   (\<forall>p. environ h (S ''FTL_CXX'') = Some p \<longrightarrow> p \<noteq> [] \<longrightarrow> is_file h p \<longrightarrow>
      cxx (detect_toolchain h) = Some p)"
proof (intro conjI)
  show "\<forall>p \<in> Union (set_option ` {cmake (detect_toolchain h), ctest (detect_toolchain h),
      cxx (detect_toolchain h), gdb (detect_toolchain h), ninja (detect_toolchain h),
      make_tool (detect_toolchain h)}). usable h p"
    by (auto simp: detect_toolchain_def elem_set dest: resolve_usable)
  show "\<forall>p. environ h (S ''FTL_CXX'') = Some p \<longrightarrow> p \<noteq> [] \<longrightarrow> is_file h p \<longrightarrow>
      cxx (detect_toolchain h) = Some p"
    by (simp add: detect_toolchain_def resolve_first_def override_path_def)
qed

theorem detected_tools_usable_witness:
  "cxx (detect_toolchain \<lparr>which = \<lambda>_. None, is_file = \<lambda>p. p = S ''/opt/g++'',
     environ = (\<lambda>_. None)(S ''FTL_CXX'' := Some (S ''/opt/g++'')), executable_dir = S ''/usr/bin'',
     join_path = \<lambda>a b. a @ S ''/'' @ b\<rparr>) = Some (S ''/opt/g++'')"
  using detected_tools_usable [of "\<lparr>which = \<lambda>_. None, is_file = \<lambda>p. p = S ''/opt/g++'',
     environ = (\<lambda>_. None)(S ''FTL_CXX'' := Some (S ''/opt/g++'')), executable_dir = S ''/usr/bin'',
     join_path = \<lambda>a b. a @ S ''/'' @ b\<rparr>"]
  by simp

end
