(* ===== verification/Curriculum.thy ===== *)
theory Curriculum
  imports Toolchain Fault_Config
begin

text \<open>
  Loading and validating the curriculum (\<open>learning/server/curriculum.py\<close>): the records \<open>Lesson\<close>,
  \<open>Day\<close>, \<open>InterviewQuestion\<close> and \<open>Curriculum\<close>, the schema checks, and \<open>load_curriculum\<close> over the
  files of the repository.  The files are an argument, \<open>files\<close>, which gives what reading each of
  them yields; \<open>pr\<close> is \<open>str\<close> of a value that is not a string.

  Every \<open>_fail\<close> is a \<open>schema_msg\<close>; an exception the code does not turn into a \<open>CurriculumError\<close> is
  an \<open>Uncaught\<close>.
\<close>

section \<open>Data\<close>

record lesson =
  l_id :: pystr
  l_day :: int
  l_title :: pystr
  l_objective :: pystr
  l_minutes :: int
  l_status :: pystr
  l_reason :: pystr
  l_concepts :: "pystr list"
  l_prereqs :: "pystr list"
  l_source_files :: "pystr list"
  l_flow :: "pystr option"
  l_blocks :: "obj list"
  l_hints :: "obj list"
  l_requirements :: "pystr list"
  l_requires :: "pystr list"

record day =
  d_day :: int
  d_title :: pystr
  d_summary :: pystr
  d_lesson_ids :: "pystr list"

record interview_question =
  q_id :: pystr
  q_question :: pystr
  q_concepts :: "pystr list"
  q_keywords :: "pystr list"
  q_sample :: pystr

record curriculum =
  c_concepts :: "pystr list"
  c_days :: "day list"
  c_lessons :: "lesson dict"
  c_order :: "pystr list"
  c_interview :: "interview_question list"
  c_flows :: "obj dict"

datatype cur_file = Program_file | Module_file pystr | Interview_file | Flow_file pystr

datatype schema_msg =
    Missing_string pystr | Not_string_list pystr | Invalid_json_file
  | Unknown_block_type json | Block_without_id pystr | Duplicate_block pystr | Missing_key pystr pystr
  | Unknown_validator pystr json | Too_few_options pystr | Bad_answer_index pystr | No_keyword pystr
  | Bad_minutes | Bad_status json | No_reason | Unknown_requirement pystr | No_blocks
  | Blocks_not_objects | Hints_not_objects | Bad_hint nat
  | Program_not_object | No_concepts | No_days | Day_not_object | Bad_day | No_module int
  | Bad_module | Lesson_not_object | Duplicate_lesson pystr | Unknown_concept pystr pystr | No_lessons
  | Unknown_prerequisite pystr pystr | Self_prerequisite pystr | Forward_prerequisite pystr pystr
  | Bad_interview | No_questions | Question_not_object | Duplicate_question pystr
  | No_question_keyword pystr | Unknown_question_concept pystr pystr
  | Bad_flow | Unknown_flow pystr pystr

datatype curriculum_exc = Curriculum_error cur_file schema_msg | Uncaught py_exc

type_synonym 'a checked = "curriculum_exc + 'a"

section \<open>Field checks\<close>

definition k_id :: pystr where "k_id = S ''id''"
definition k_type :: pystr where "k_type = S ''type''"
definition k_title :: pystr where "k_title = S ''title''"
definition k_objective :: pystr where "k_objective = S ''objective''"
definition k_keywords :: pystr where "k_keywords = S ''keywords''"
definition k_concepts :: pystr where "k_concepts = S ''concepts''"
definition k_mandatory :: pystr where "k_mandatory = S ''mandatory''"
definition k_options :: pystr where "k_options = S ''options''"
definition k_answer_index :: pystr where "k_answer_index = S ''answer_index''"
definition k_validator :: pystr where "k_validator = S ''validator''"
definition k_question :: pystr where "k_question = S ''question''"
definition k_sample_answer :: pystr where "k_sample_answer = S ''sample_answer''"

definition t_learn :: pystr where "t_learn = S ''learn''"
definition t_predict :: pystr where "t_predict = S ''predict''"
definition t_do :: pystr where "t_do = S ''do''"
definition t_verify :: pystr where "t_verify = S ''verify''"
definition t_quiz :: pystr where "t_quiz = S ''quiz''"
definition t_explain :: pystr where "t_explain = S ''explain''"

definition s_available :: pystr where "s_available = S ''available''"
definition s_unavailable :: pystr where "s_unavailable = S ''unavailable''"

definition BLOCK_TYPES :: "pystr list" where
  "BLOCK_TYPES = [t_learn, t_predict, t_do, t_verify, t_quiz, t_explain]"

definition KNOWN_REQUIREMENTS :: "pystr list" where
  "KNOWN_REQUIREMENTS = [r_cpp_build, r_gdb]"

definition block_required_keys :: "pystr \<Rightarrow> pystr list" where
  "block_required_keys t =
     (if t = t_learn then [S ''text'']
      else if t = t_predict then [k_question, k_options, k_answer_index, S ''reveal'']
      else if t = t_do then [S ''instructions'']
      else if t = t_verify then [k_validator]
      else if t = t_quiz then [k_question, k_options, k_answer_index]
      else if t = t_explain then [k_question, k_keywords, k_sample_answer] else [])"

definition cfail :: "cur_file \<Rightarrow> schema_msg \<Rightarrow> 'a checked" where
  "cfail path msg = Inl (Curriculum_error path msg)"

definition require_str :: "cur_file \<Rightarrow> obj \<Rightarrow> pystr \<Rightarrow> pystr checked" where
  "require_str path data key = (case dget data key of
     Some (JStr s) \<Rightarrow> if py_strip s = [] then cfail path (Missing_string key) else Inr s
   | _ \<Rightarrow> cfail path (Missing_string key))"

definition get_or :: "json \<Rightarrow> obj \<Rightarrow> pystr \<Rightarrow> json" where
  "get_or def d k = (case dget d k of None \<Rightarrow> def | Some v \<Rightarrow> v)"

text \<open>The strings of a list, if all its items are strings.\<close>

fun strings_of :: "json list \<Rightarrow> pystr list option" where
  "strings_of [] = Some []"
| "strings_of (JStr s # xs) = map_option ((#) s) (strings_of xs)"
| "strings_of (_ # xs) = None"

definition require_str_list :: "cur_file \<Rightarrow> obj \<Rightarrow> pystr \<Rightarrow> pystr list checked" where
  "require_str_list path data key = (case get_or (JList []) data key of
     JList xs \<Rightarrow>
       (case strings_of xs of Some ss \<Rightarrow> Inr ss | None \<Rightarrow> cfail path (Not_string_list key))
   | _ \<Rightarrow> cfail path (Not_string_list key))"

fun dicts_of :: "json list \<Rightarrow> obj list option" where
  "dicts_of [] = Some []"
| "dicts_of (JObj d # xs) = map_option ((#) d) (dicts_of xs)"
| "dicts_of (_ # xs) = None"

text \<open>\<open>str(value)\<close>\<close>

fun py_str :: "(json \<Rightarrow> pystr) \<Rightarrow> json \<Rightarrow> pystr" where
  "py_str pr (JStr s) = s"
| "py_str pr v = pr v"

text \<open>\<open>json.loads\<close> of a curriculum file; an \<open>OSError\<close> is not caught.\<close>

definition load_json :: "nat \<Rightarrow> nat \<Rightarrow> (cur_file \<Rightarrow> read_result) \<Rightarrow> cur_file \<Rightarrow> json checked" where
  "load_json cap depth files path = (case files path of
     ReadOSError \<Rightarrow> Inl (Uncaught OSError)
   | ReadDecodeError \<Rightarrow> cfail path Invalid_json_file
   | ReadText t \<Rightarrow>
       (case loads (builtin_int cap) depth t of
          Inl _ \<Rightarrow> cfail path Invalid_json_file
        | Inr j \<Rightarrow> Inr j))"

section \<open>Blocks\<close>

text \<open>\<open>value in a_set_of_strings\<close>: hashing a list or a dict raises \<open>TypeError\<close>.\<close>

definition in_str_set :: "json \<Rightarrow> pystr list \<Rightarrow> bool checked" where
  "in_str_set v ss = (if is_list v \<or> is_dict v then Inl (Uncaught TypeError)
     else Inr (case v of JStr s \<Rightarrow> s \<in> set ss | _ \<Rightarrow> False))"

text \<open>The checks after the keys are known to be there.\<close>

definition check_validator :: "cur_file \<Rightarrow> pystr list \<Rightarrow> pystr \<Rightarrow> pystr \<Rightarrow> obj \<Rightarrow> unit checked" where
  "check_validator path known block_type block_id block =
     (if block_type = t_verify
      then (let validator = get_or JNull block k_validator
            in res_bind (in_str_set validator known) (\<lambda>ok.
                 if ok then Inr () else cfail path (Unknown_validator block_id validator)))
      else Inr ())"

definition check_options :: "cur_file \<Rightarrow> pystr \<Rightarrow> pystr \<Rightarrow> obj \<Rightarrow> unit checked" where
  "check_options path block_type block_id block =
     (if block_type = t_quiz \<or> block_type = t_predict
      then (case get_or JNull block k_options of
              JList options \<Rightarrow>
                if length options < 2 then cfail path (Too_few_options block_id)
                else (case as_int (get_or JNull block k_answer_index) of
                        Some i \<Rightarrow> if 0 \<le> i \<and> i < int (length options) then Inr ()
                                  else cfail path (Bad_answer_index block_id)
                      | None \<Rightarrow> cfail path (Bad_answer_index block_id))
            | _ \<Rightarrow> cfail path (Too_few_options block_id))
      else Inr ())"

definition check_keywords :: "cur_file \<Rightarrow> pystr \<Rightarrow> pystr \<Rightarrow> obj \<Rightarrow> unit checked" where
  "check_keywords path block_type block_id block =
     (if block_type = t_explain
      then res_bind (require_str_list path block k_keywords) (\<lambda>ks.
             if ks = [] then cfail path (No_keyword block_id) else Inr ())
      else Inr ())"

fun check_keys :: "cur_file \<Rightarrow> pystr \<Rightarrow> obj \<Rightarrow> pystr list \<Rightarrow> unit checked" where
  "check_keys path block_id block [] = Inr ()"
| "check_keys path block_id block (k # ks) =
     (if dget block k = None then cfail path (Missing_key block_id k)
      else check_keys path block_id block ks)"

fun validate_blocks :: "cur_file \<Rightarrow> pystr list \<Rightarrow> pystr list \<Rightarrow> obj list \<Rightarrow> unit checked" where
  "validate_blocks path known seen [] = Inr ()"
| "validate_blocks path known seen (block # blocks) =
     (let block_type = get_or JNull block k_type
      in res_bind (in_str_set block_type BLOCK_TYPES) (\<lambda>ok.
           if \<not> ok then cfail path (Unknown_block_type block_type)
           else case (block_type, dget block k_id) of
               (JStr ty, Some (JStr bid)) \<Rightarrow>
                 if bid = [] then cfail path (Block_without_id ty)
                 else if bid \<in> set seen then cfail path (Duplicate_block bid)
                 else res_bind (check_keys path bid block (block_required_keys ty)) (\<lambda>_.
                      res_bind (check_validator path known ty bid block) (\<lambda>_.
                      res_bind (check_options path ty bid block) (\<lambda>_.
                      res_bind (check_keywords path ty bid block) (\<lambda>_.
                        validate_blocks path known (bid # seen) blocks))))
             | (JStr ty, _) \<Rightarrow> cfail path (Block_without_id ty)
             | _ \<Rightarrow> cfail path (Unknown_block_type block_type)))"

section \<open>Lessons\<close>

fun check_requires :: "cur_file \<Rightarrow> toolchain \<Rightarrow> pystr \<Rightarrow> pystr \<Rightarrow> pystr list \<Rightarrow> (pystr \<times> pystr) checked" where
  "check_requires path tc status reason [] = Inr (status, reason)"
| "check_requires path tc status reason (r # rs) =
     (if r \<notin> set KNOWN_REQUIREMENTS then cfail path (Unknown_requirement r)
      else if \<not> satisfies tc r then Inr (s_unavailable, requirement_reason r tc)
      else check_requires path tc status reason rs)"

fun check_hints :: "cur_file \<Rightarrow> nat \<Rightarrow> obj list \<Rightarrow> unit checked" where
  "check_hints path index [] = Inr ()"
| "check_hints path index (hint # hints) =
     (if \<not> py_eq (get_or JNull hint (S ''level'')) (JInt (int index + 1)) \<or>
         \<not> is_str (get_or JNull hint (S ''text''))
      then cfail path (Bad_hint (index + 1))
      else check_hints path (index + 1) hints)"

definition parse_minutes :: "cur_file \<Rightarrow> obj \<Rightarrow> int checked" where
  "parse_minutes path data = (case as_int (get_or JNull data (S ''estimated_minutes'')) of
     Some m \<Rightarrow> if m \<le> 0 then cfail path Bad_minutes else Inr m
   | None \<Rightarrow> cfail path Bad_minutes)"

definition parse_status :: "cur_file \<Rightarrow> (json \<Rightarrow> pystr) \<Rightarrow> obj \<Rightarrow> (pystr \<times> pystr) checked" where
  "parse_status path pr data =
     (let status = get_or (JStr s_available) data (S ''status'')
      in if status \<noteq> JStr s_available \<and> status \<noteq> JStr s_unavailable then cfail path (Bad_status status)
         else (let reason = py_str pr (get_or (JStr []) data (S ''unavailable_reason''))
               in if status = JStr s_unavailable \<and> reason = [] then cfail path No_reason
                  else Inr (if status = JStr s_unavailable then s_unavailable else s_available, reason)))"

definition parse_blocks :: "cur_file \<Rightarrow> pystr list \<Rightarrow> pystr \<Rightarrow> obj \<Rightarrow> obj list checked" where
  "parse_blocks path known status data =
     (let raw = get_or (JList []) data (S ''blocks'')
      in if status = s_available \<and> \<not> truthy raw then cfail path No_blocks
         else case raw of
             JList xs \<Rightarrow>
               (case dicts_of xs of
                  None \<Rightarrow> cfail path Blocks_not_objects
                | Some blocks \<Rightarrow>
                    res_bind (validate_blocks path known [] blocks) (\<lambda>_. Inr blocks))
           | _ \<Rightarrow> cfail path Blocks_not_objects)"

definition parse_hints :: "cur_file \<Rightarrow> obj \<Rightarrow> obj list checked" where
  "parse_hints path data = (case get_or (JList []) data (S ''hints'') of
     JList xs \<Rightarrow>
       (case dicts_of xs of
          None \<Rightarrow> cfail path Hints_not_objects
        | Some hints \<Rightarrow> res_bind (check_hints path 0 hints) (\<lambda>_. Inr hints))
   | _ \<Rightarrow> cfail path Hints_not_objects)"

definition parse_lesson ::
    "(json \<Rightarrow> pystr) \<Rightarrow> obj \<Rightarrow> int \<Rightarrow> cur_file \<Rightarrow> pystr list \<Rightarrow> toolchain \<Rightarrow> lesson checked" where
  "parse_lesson pr data dy path known tc =
     res_bind (require_str path data k_id) (\<lambda>lid.
     res_bind (require_str path data k_title) (\<lambda>title.
     res_bind (require_str path data k_objective) (\<lambda>objective.
     res_bind (parse_minutes path data) (\<lambda>estimated.
     res_bind (parse_status path pr data) (\<lambda>(status0, reason0).
     res_bind (require_str_list path data (S ''requires'')) (\<lambda>requires.
     res_bind (check_requires path tc status0 reason0 requires) (\<lambda>(status, reason).
     res_bind (parse_blocks path known status data) (\<lambda>blocks.
     res_bind (parse_hints path data) (\<lambda>hints.
     res_bind (require_str_list path data k_concepts) (\<lambda>concepts.
     res_bind (require_str_list path data (S ''prerequisites'')) (\<lambda>prereqs.
     res_bind (require_str_list path data (S ''source_files'')) (\<lambda>sources.
     res_bind (require_str_list path data (S ''requirements'')) (\<lambda>requirements.
       Inr \<lparr>l_id = lid, l_day = dy, l_title = title, l_objective = objective, l_minutes = estimated,
            l_status = status, l_reason = reason, l_concepts = concepts, l_prereqs = prereqs,
            l_source_files = sources, l_flow = as_str (get_or JNull data (S ''flow'')),
            l_blocks = blocks, l_hints = hints, l_requirements = requirements,
            l_requires = requires\<rparr>)))))))))))))"

subsection \<open>What a lesson asks for\<close>

definition block_type :: "obj \<Rightarrow> json" where
  "block_type b = get_or JNull b k_type"

definition block_id :: "obj \<Rightarrow> pystr" where
  "block_id b = (case get_or JNull b k_id of JStr s \<Rightarrow> s | _ \<Rightarrow> [])"

definition mandatory_validators :: "lesson \<Rightarrow> obj list" where
  "mandatory_validators l =
     filter (\<lambda>b. block_type b = JStr t_verify \<and> truthy (get_or (JBool False) b k_mandatory)) (l_blocks l)"

definition required_quiz_ids :: "lesson \<Rightarrow> pystr list" where
  "required_quiz_ids l = map block_id (filter (\<lambda>b. block_type b = JStr t_quiz) (l_blocks l))"

definition required_explain_ids :: "lesson \<Rightarrow> pystr list" where
  "required_explain_ids l = map block_id (filter (\<lambda>b. block_type b = JStr t_explain) (l_blocks l))"

definition quiz_block :: "lesson \<Rightarrow> pystr \<Rightarrow> obj option" where
  "quiz_block l bid = List.find (\<lambda>b. (block_type b = JStr t_quiz \<or> block_type b = JStr t_predict) \<and>
     get_or JNull b k_id = JStr bid) (l_blocks l)"

definition explain_block :: "lesson \<Rightarrow> pystr \<Rightarrow> obj option" where
  "explain_block l bid =
     List.find (\<lambda>b. block_type b = JStr t_explain \<and> get_or JNull b k_id = JStr bid) (l_blocks l)"

section \<open>The program\<close>

text \<open>One module's lessons, onto the lessons and the order so far; also their ids.\<close>

fun load_lessons :: "(json \<Rightarrow> pystr) \<Rightarrow> cur_file \<Rightarrow> pystr list \<Rightarrow> toolchain \<Rightarrow> pystr list \<Rightarrow> int \<Rightarrow>
    lesson dict \<times> pystr list \<Rightarrow> json list \<Rightarrow> ((lesson dict \<times> pystr list) \<times> pystr list) checked" where
  "load_lessons pr path known tc concepts dy acc [] = Inr (acc, [])"
| "load_lessons pr path known tc concepts dy (lessons, ordered) (raw # raws) = (case raw of
     JObj data \<Rightarrow>
       res_bind (parse_lesson pr data dy path known tc) (\<lambda>l.
         if dget lessons (l_id l) \<noteq> None then cfail path (Duplicate_lesson (l_id l))
         else case List.find (\<lambda>c. c \<notin> set concepts) (l_concepts l) of
             Some c \<Rightarrow> cfail path (Unknown_concept (l_id l) c)
           | None \<Rightarrow>
               res_bind (load_lessons pr path known tc concepts dy
                   (dset (l_id l) l lessons, ordered @ [l_id l]) raws)
                 (\<lambda>(acc, ids). Inr (acc, l_id l # ids)))
   | _ \<Rightarrow> cfail path Lesson_not_object)"

definition load_day :: "nat \<Rightarrow> nat \<Rightarrow> (cur_file \<Rightarrow> read_result) \<Rightarrow> (json \<Rightarrow> pystr) \<Rightarrow> pystr list \<Rightarrow>
    toolchain \<Rightarrow> pystr list \<Rightarrow> lesson dict \<times> pystr list \<Rightarrow> json \<Rightarrow>
    ((lesson dict \<times> pystr list) \<times> day) checked" where
  "load_day cap depth files pr known tc concepts acc entry = (case entry of
     JObj e \<Rightarrow>
       (case as_int (get_or JNull e (S ''day'')) of
          None \<Rightarrow> cfail Program_file Bad_day
        | Some dy \<Rightarrow>
            if dy \<le> 0 then cfail Program_file Bad_day
            else case get_or JNull e (S ''module'') of
                JStr name \<Rightarrow>
                  res_bind (require_str Program_file e k_title) (\<lambda>title.
                  let summary = py_str pr (get_or (JStr []) e (S ''summary''))
                  in res_bind (load_json cap depth files (Module_file name)) (\<lambda>module.
                     case module of
                       JObj m \<Rightarrow>
                         (case get_or JNull m (S ''lessons'') of
                            JList raws \<Rightarrow>
                              res_bind (load_lessons pr (Module_file name) known tc concepts dy acc raws)
                                (\<lambda>(acc', ids). Inr (acc',
                                  \<lparr>d_day = dy, d_title = title, d_summary = summary, d_lesson_ids = ids\<rparr>))
                          | _ \<Rightarrow> cfail (Module_file name) Bad_module)
                     | _ \<Rightarrow> cfail (Module_file name) Bad_module))
              | _ \<Rightarrow> cfail Program_file (No_module dy))
   | _ \<Rightarrow> cfail Program_file Day_not_object)"

fun load_days :: "nat \<Rightarrow> nat \<Rightarrow> (cur_file \<Rightarrow> read_result) \<Rightarrow> (json \<Rightarrow> pystr) \<Rightarrow> pystr list \<Rightarrow>
    toolchain \<Rightarrow> pystr list \<Rightarrow> lesson dict \<times> pystr list \<Rightarrow> json list \<Rightarrow>
    ((lesson dict \<times> pystr list) \<times> day list) checked" where
  "load_days cap depth files pr known tc concepts acc [] = Inr (acc, [])"
| "load_days cap depth files pr known tc concepts acc (entry # entries) =
     res_bind (load_day cap depth files pr known tc concepts acc entry) (\<lambda>(acc', d).
     res_bind (load_days cap depth files pr known tc concepts acc' entries) (\<lambda>(acc2, ds).
       Inr (acc2, d # ds)))"

text \<open>\<open>position[lesson_id]\<close>, for an id that is there.\<close>

definition position :: "pystr list \<Rightarrow> pystr \<Rightarrow> nat" where
  "position ordered lid = length (takeWhile (\<lambda>x. x \<noteq> lid) ordered)"

fun check_prereqs :: "lesson dict \<Rightarrow> pystr list \<Rightarrow> lesson \<Rightarrow> pystr list \<Rightarrow> unit checked" where
  "check_prereqs lessons ordered l [] = Inr ()"
| "check_prereqs lessons ordered l (p # ps) =
     (if dget lessons p = None then cfail Program_file (Unknown_prerequisite (l_id l) p)
      else if p = l_id l then cfail Program_file (Self_prerequisite (l_id l))
      else if position ordered (l_id l) < position ordered p
      then cfail Program_file (Forward_prerequisite (l_id l) p)
      else check_prereqs lessons ordered l ps)"

text \<open>A check over several items, in order.\<close>

fun check_each :: "('a \<Rightarrow> unit checked) \<Rightarrow> 'a list \<Rightarrow> unit checked" where
  "check_each f [] = Inr ()"
| "check_each f (x # xs) = res_bind (f x) (\<lambda>_. check_each f xs)"

fun load_questions :: "pystr list \<Rightarrow> pystr list \<Rightarrow> json list \<Rightarrow> interview_question list checked" where
  "load_questions concepts seen [] = Inr []"
| "load_questions concepts seen (raw # raws) = (case raw of
     JObj q \<Rightarrow>
       res_bind (require_str Interview_file q k_id) (\<lambda>qid.
         if qid \<in> set seen then cfail Interview_file (Duplicate_question qid)
         else
           res_bind (require_str Interview_file q k_question) (\<lambda>question.
           res_bind (require_str Interview_file q k_sample_answer) (\<lambda>sample.
           res_bind (require_str_list Interview_file q k_keywords) (\<lambda>keywords.
             if keywords = [] then cfail Interview_file (No_question_keyword qid)
             else res_bind (require_str_list Interview_file q k_concepts) (\<lambda>qcs.
               case List.find (\<lambda>c. c \<notin> set concepts) qcs of
                 Some c \<Rightarrow> cfail Interview_file (Unknown_question_concept qid c)
               | None \<Rightarrow>
                   res_bind (load_questions concepts (qid # seen) raws) (\<lambda>qs.
                     Inr (\<lparr>q_id = qid, q_question = question, q_concepts = qcs,
                           q_keywords = keywords, q_sample = sample\<rparr> # qs)))))))
   | _ \<Rightarrow> cfail Interview_file Question_not_object)"

definition load_interview :: "nat \<Rightarrow> nat \<Rightarrow> (cur_file \<Rightarrow> read_result) \<Rightarrow> pystr list \<Rightarrow>
    interview_question list checked" where
  "load_interview cap depth files concepts =
     res_bind (load_json cap depth files Interview_file) (\<lambda>raw.
       case raw of
         JObj d \<Rightarrow>
           (case get_or JNull d (S ''questions'') of
              JList qs \<Rightarrow>
                if qs = [] then cfail Interview_file No_questions else load_questions concepts [] qs
            | _ \<Rightarrow> cfail Interview_file Bad_interview)
       | _ \<Rightarrow> cfail Interview_file Bad_interview)"

text \<open>\<open>stems\<close>: the stems of \<open>sorted(flows_dir.glob("*.json"))\<close>, empty without the directory.\<close>

fun load_flows :: "nat \<Rightarrow> nat \<Rightarrow> (cur_file \<Rightarrow> read_result) \<Rightarrow> obj dict \<Rightarrow> pystr list \<Rightarrow> obj dict checked" where
  "load_flows cap depth files flows [] = Inr flows"
| "load_flows cap depth files flows (stem # stems) =
     res_bind (load_json cap depth files (Flow_file stem)) (\<lambda>j.
       case j of
         JObj d \<Rightarrow>
           if is_list (get_or JNull d (S ''stages''))
           then load_flows cap depth files (dset stem d flows) stems
           else cfail (Flow_file stem) Bad_flow
       | _ \<Rightarrow> cfail (Flow_file stem) Bad_flow)"

definition check_flow :: "obj dict \<Rightarrow> lesson \<Rightarrow> unit checked" where
  "check_flow flows l = (case l_flow l of
     None \<Rightarrow> Inr ()
   | Some f \<Rightarrow> if dget flows f = None then cfail Program_file (Unknown_flow (l_id l) f) else Inr ())"

definition load_curriculum :: "nat \<Rightarrow> nat \<Rightarrow> (json \<Rightarrow> pystr) \<Rightarrow> (cur_file \<Rightarrow> read_result) \<Rightarrow> pystr list \<Rightarrow>
    pystr list \<Rightarrow> toolchain \<Rightarrow> curriculum checked" where
  "load_curriculum cap depth pr files stems known tc =
     res_bind (load_json cap depth files Program_file) (\<lambda>prog.
     case prog of
       JObj program \<Rightarrow>
         res_bind (require_str_list Program_file program k_concepts) (\<lambda>concepts.
         if concepts = [] then cfail Program_file No_concepts
         else case get_or JNull program (S ''days'') of
           JList entries \<Rightarrow>
             if entries = [] then cfail Program_file No_days
             else
               res_bind (load_days cap depth files pr known tc concepts ([], []) entries)
                 (\<lambda>((lessons, ordered), days).
               if ordered = [] then cfail Program_file No_lessons
               else
                 res_bind (check_each (\<lambda>(_, l). check_prereqs lessons ordered l (l_prereqs l)) lessons) (\<lambda>_.
                 res_bind (load_interview cap depth files concepts) (\<lambda>interview.
                 res_bind (load_flows cap depth files [] stems) (\<lambda>flows.
                 res_bind (check_each (\<lambda>(_, l). check_flow flows l) lessons) (\<lambda>_.
                   Inr \<lparr>c_concepts = concepts, c_days = days, c_lessons = lessons, c_order = ordered,
                        c_interview = interview, c_flows = flows\<rparr>)))))
         | _ \<Rightarrow> cfail Program_file No_days)
     | _ \<Rightarrow> cfail Program_file Program_not_object)"

section \<open>What is accepted\<close>

definition block_ok :: "pystr list \<Rightarrow> obj \<Rightarrow> bool" where
  "block_ok known b \<longleftrightarrow>
     (\<exists>ty \<in> set BLOCK_TYPES. block_type b = JStr ty \<and> block_id b \<noteq> [] \<and>
       (\<forall>k \<in> set (block_required_keys ty). dget b k \<noteq> None) \<and>
       (ty = t_verify \<longrightarrow> (\<exists>v \<in> set known. get_or JNull b k_validator = JStr v)) \<and>
       (ty = t_quiz \<or> ty = t_predict \<longrightarrow>
         (\<exists>options i. get_or JNull b k_options = JList options \<and> 2 \<le> length options \<and>
           as_int (get_or JNull b k_answer_index) = Some i \<and> 0 \<le> i \<and> i < int (length options))) \<and>
       (ty = t_explain \<longrightarrow>
         (\<exists>xs ks. get_or (JList []) b k_keywords = JList xs \<and> strings_of xs = Some ks \<and> ks \<noteq> [])))"

definition hint_ok :: "nat \<Rightarrow> obj \<Rightarrow> bool" where
  "hint_ok index h \<longleftrightarrow>
     py_eq (get_or JNull h (S ''level'')) (JInt (int index + 1)) \<and> is_str (get_or JNull h (S ''text''))"

definition lesson_ok :: "pystr list \<Rightarrow> toolchain \<Rightarrow> lesson \<Rightarrow> bool" where
  "lesson_ok known tc l \<longleftrightarrow>
     py_strip (l_id l) \<noteq> [] \<and> py_strip (l_title l) \<noteq> [] \<and> py_strip (l_objective l) \<noteq> [] \<and>
     0 < l_minutes l \<and>
     (l_status l = s_available \<and> l_blocks l \<noteq> [] \<and> (\<forall>r \<in> set (l_requires l). satisfies tc r) \<or>
      l_status l = s_unavailable \<and> l_reason l \<noteq> []) \<and>
     (\<forall>b \<in> set (l_blocks l). block_ok known b) \<and> distinct (map block_id (l_blocks l)) \<and>
     (\<forall>i < length (l_hints l). hint_ok i (l_hints l ! i))"

definition question_ok :: "pystr list \<Rightarrow> interview_question \<Rightarrow> bool" where
  "question_ok concepts q \<longleftrightarrow> py_strip (q_id q) \<noteq> [] \<and> py_strip (q_question q) \<noteq> [] \<and>
     py_strip (q_sample q) \<noteq> [] \<and> q_keywords q \<noteq> [] \<and> set (q_concepts q) \<subseteq> set concepts"

definition curriculum_ok :: "pystr list \<Rightarrow> toolchain \<Rightarrow> curriculum \<Rightarrow> bool" where
  "curriculum_ok known tc c \<longleftrightarrow>
     c_concepts c \<noteq> [] \<and> c_order c \<noteq> [] \<and> distinct (c_order c) \<and>
     dkeys (c_lessons c) = c_order c \<and> c_order c = concat (map d_lesson_ids (c_days c)) \<and>
     (\<forall>(k, l) \<in> set (c_lessons c).
        l_id l = k \<and> lesson_ok known tc l \<and> set (l_concepts l) \<subseteq> set (c_concepts c) \<and>
        (\<forall>p \<in> set (l_prereqs l). p \<in> set (c_order c) \<and> position (c_order c) p < position (c_order c) k) \<and>
        (\<forall>f. l_flow l = Some f \<longrightarrow> dget (c_flows c) f \<noteq> None)) \<and>
     c_interview c \<noteq> [] \<and> distinct (map q_id (c_interview c)) \<and>
     (\<forall>q \<in> set (c_interview c). question_ok (c_concepts c) q)"

section \<open>Lemmas\<close>

lemma cfail_neq [simp]: "cfail p m \<noteq> Inr x" "Inr x \<noteq> cfail p m"
  by (simp_all add: cfail_def)

lemma case_obj_Inr [res_simps]:
  "(case v of JObj d \<Rightarrow> f d | _ \<Rightarrow> cfail p m) = Inr x \<longleftrightarrow> (\<exists>d. v = JObj d \<and> f d = Inr x)"
  by (cases v) auto

lemma case_list_Inr [res_simps]:
  "(case v of JList d \<Rightarrow> f d | _ \<Rightarrow> cfail p m) = Inr x \<longleftrightarrow> (\<exists>d. v = JList d \<and> f d = Inr x)"
  by (cases v) auto

lemma case_str_Inr [res_simps]:
  "(case v of JStr d \<Rightarrow> f d | _ \<Rightarrow> cfail p m) = Inr x \<longleftrightarrow> (\<exists>d. v = JStr d \<and> f d = Inr x)"
  by (cases v) auto

lemma case_option_Inr [res_simps]:
  "(case v of None \<Rightarrow> cfail p m | Some d \<Rightarrow> f d) = Inr x \<longleftrightarrow> (\<exists>d. v = Some d \<and> f d = Inr x)"
  "(case v of None \<Rightarrow> g | Some d \<Rightarrow> cfail p (h d)) = Inr x \<longleftrightarrow> v = None \<and> g = Inr x"
  by (cases v; auto)+

lemma if_cfail_Inr [res_simps]:
  "(if b then cfail p m else r) = Inr x \<longleftrightarrow> \<not> b \<and> r = Inr x"
  by simp

lemma type_names_distinct: "distinct BLOCK_TYPES"
  by (simp add: BLOCK_TYPES_def t_learn_def t_predict_def t_do_def t_verify_def t_quiz_def t_explain_def)

lemma require_str_Inr: "require_str p d k = Inr s \<longleftrightarrow> dget d k = Some (JStr s) \<and> py_strip s \<noteq> []"
  by (auto simp: require_str_def split: option.splits json.splits)

lemma require_str_list_Inr:
  "require_str_list p d k = Inr ss \<longleftrightarrow>
     (\<exists>xs. get_or (JList []) d k = JList xs \<and> strings_of xs = Some ss)"
  by (auto simp: require_str_list_def split: option.splits json.splits)

lemma in_str_set_Inr:
  "in_str_set v ss = Inr b \<longleftrightarrow> \<not> is_list v \<and> \<not> is_dict v \<and> b = (\<exists>s \<in> set ss. v = JStr s)"
  by (cases v) (auto simp: in_str_set_def)

lemma check_keys_Inr: "check_keys p i b ks = Inr () \<longleftrightarrow> (\<forall>k \<in> set ks. dget b k \<noteq> None)"
  by (induction ks) auto

lemma check_validator_Inr:
  "check_validator p known ty i b = Inr () \<longleftrightarrow>
     (ty = t_verify \<longrightarrow> (\<exists>v \<in> set known. get_or JNull b k_validator = JStr v))"
  by (auto simp: check_validator_def Let_def res_simps in_str_set_Inr)

lemma check_options_Inr:
  "check_options p ty i b = Inr () \<longleftrightarrow>
     (ty = t_quiz \<or> ty = t_predict \<longrightarrow>
       (\<exists>options i. get_or JNull b k_options = JList options \<and> 2 \<le> length options \<and>
         as_int (get_or JNull b k_answer_index) = Some i \<and> 0 \<le> i \<and> i < int (length options)))"
  by (auto simp: check_options_def not_less split: json.splits option.splits)

lemma check_keywords_Inr:
  "check_keywords p ty i b = Inr () \<longleftrightarrow>
     (ty = t_explain \<longrightarrow>
       (\<exists>xs ks. get_or (JList []) b k_keywords = JList xs \<and> strings_of xs = Some ks \<and> ks \<noteq> []))"
  by (auto simp: check_keywords_def res_simps require_str_list_Inr)

lemma validate_blocks_Cons:
  "validate_blocks path known seen (b # bs) = Inr () \<longleftrightarrow>
     block_ok known b \<and> block_id b \<notin> set seen \<and> validate_blocks path known (block_id b # seen) bs = Inr ()"
proof (cases "\<exists>ty bid. get_or JNull b k_type = JStr ty \<and> ty \<in> set BLOCK_TYPES \<and> dget b k_id = Some (JStr bid)")
  case True
  then obtain ty bid where t: "get_or JNull b k_type = JStr ty" "ty \<in> set BLOCK_TYPES"
    "dget b k_id = Some (JStr bid)" by blast
  then have i: "block_id b = bid" "block_type b = JStr ty"
    by (simp_all add: block_id_def block_type_def get_or_def)
  show ?thesis using t
    by (auto simp: in_str_set_def i block_ok_def res_simps check_keys_Inr check_validator_Inr
        check_options_Inr check_keywords_Inr)
next
  case False
  then show ?thesis
    by (auto simp: Let_def res_simps in_str_set_Inr block_ok_def block_type_def block_id_def get_or_def
        split: option.splits json.splits)
qed

lemma validate_blocks_accepts:
  assumes "block_ok known b" and "block_id b \<notin> set seen"
  shows "validate_blocks path known seen (b # bs) = validate_blocks path known (block_id b # seen) bs"
proof -
  obtain ty where ty: "get_or JNull b k_type = JStr ty" "ty \<in> set BLOCK_TYPES" "block_id b \<noteq> []"
    using assms(1) by (auto simp: block_ok_def block_type_def)
  have i: "dget b k_id = Some (JStr (block_id b))"
    using ty(3) by (auto simp: block_id_def get_or_def split: option.splits json.splits)
  have c: "check_keys path (block_id b) b (block_required_keys ty) = Inr ()"
    "check_validator path known ty (block_id b) b = Inr ()"
    "check_options path ty (block_id b) b = Inr ()" "check_keywords path ty (block_id b) b = Inr ()"
    using assms(1) ty(1)
    by (auto simp: block_ok_def block_type_def check_keys_Inr check_validator_Inr check_options_Inr
        check_keywords_Inr)
  show ?thesis using ty(2,3) assms(2) by (simp add: ty(1) i c in_str_set_def)
qed

lemma validate_blocks_Inr:
  "validate_blocks path known seen bs = Inr () \<longleftrightarrow>
     (\<forall>b \<in> set bs. block_ok known b) \<and> distinct (map block_id bs) \<and>
     set (map block_id bs) \<inter> set seen = {}"
proof (induction bs arbitrary: seen)
  case (Cons b bs)
  then show ?case unfolding validate_blocks_Cons by auto
qed simp

lemma check_hints_Inr:
  "check_hints p n hs = Inr () \<longleftrightarrow> (\<forall>i < length hs. hint_ok (n + i) (hs ! i))"
proof (induction hs arbitrary: n)
  case (Cons h hs)
  have "(\<forall>i < length (h # hs). hint_ok (n + i) ((h # hs) ! i)) \<longleftrightarrow>
      hint_ok n h \<and> (\<forall>i < length hs. hint_ok (Suc n + i) (hs ! i))"
    by (auto simp: less_Suc_eq_0_disj)
  with Cons show ?case by (auto simp: hint_ok_def)
qed simp

lemma check_requires_Inr:
  "check_requires p tc st re rs = Inr (status, reason) \<Longrightarrow>
     status = st \<and> reason = re \<and> (\<forall>r \<in> set rs. satisfies tc r) \<or> status = s_unavailable \<and> reason \<noteq> []"
  by (induction rs) (auto split: if_splits)

lemma parse_blocks_Inr:
  "parse_blocks p known st d = Inr bs \<Longrightarrow>
     (\<forall>b \<in> set bs. block_ok known b) \<and> distinct (map block_id bs) \<and> (st = s_available \<longrightarrow> bs \<noteq> [])"
proof -
  assume a: "parse_blocks p known st d = Inr bs"
  then obtain xs where x: "get_or (JList []) d (S ''blocks'') = JList xs" "dicts_of xs = Some bs"
    "validate_blocks p known [] bs = Inr ()"
    by (auto simp: parse_blocks_def Let_def res_simps split: if_splits json.splits option.splits)
  have "st = s_available \<Longrightarrow> xs \<noteq> []" using a x(1) by (auto simp: parse_blocks_def Let_def)
  moreover have "xs \<noteq> [] \<Longrightarrow> bs \<noteq> []"
    using x(2) by (cases xs; cases "hd xs") auto
  ultimately show ?thesis using x(3) by (simp add: validate_blocks_Inr)
qed

lemma parse_hints_Inr:
  "parse_hints p d = Inr hs \<Longrightarrow> \<forall>i < length hs. hint_ok i (hs ! i)"
  by (auto simp: parse_hints_def res_simps check_hints_Inr split: json.splits option.splits)

lemma parse_status_Inr:
  "parse_status p pr d = Inr (st, re) \<Longrightarrow> st = s_available \<or> st = s_unavailable \<and> re \<noteq> []"
  by (auto simp: parse_status_def Let_def split: if_splits)

lemma parse_minutes_Inr: "parse_minutes p d = Inr m \<Longrightarrow> 0 < m"
  by (auto simp: parse_minutes_def split: option.splits if_splits)

lemma parse_lesson_ok:
  assumes "parse_lesson pr d dy p known tc = Inr l"
  shows "lesson_ok known tc l"
proof -
  obtain st re requires st2 re2 where
    s: "parse_status p pr d = Inr (st, re)" "check_requires p tc st re requires = Inr (st2, re2)"
    and l: "l_status l = st2" "l_reason l = re2" "l_requires l = requires"
      "parse_blocks p known st2 d = Inr (l_blocks l)" "parse_hints p d = Inr (l_hints l)"
      "parse_minutes p d = Inr (l_minutes l)"
      "py_strip (l_id l) \<noteq> []" "py_strip (l_title l) \<noteq> []" "py_strip (l_objective l) \<noteq> []"
    using assms by (auto simp: parse_lesson_def res_simps require_str_Inr split: prod.splits)
  show ?thesis
    using parse_status_Inr [OF s(1)] check_requires_Inr [OF s(2)] parse_blocks_Inr [OF l(4)]
      parse_hints_Inr [OF l(5)] parse_minutes_Inr [OF l(6)] l
    by (auto simp: lesson_ok_def s_available_def s_unavailable_def)
qed

lemma find_unknown: "List.find (\<lambda>c. c \<notin> set cs) xs = None \<longleftrightarrow> set xs \<subseteq> set cs"
  by (auto simp: find_None_iff)

text \<open>The lessons read so far.\<close>

definition lessons_ok :: "pystr list \<Rightarrow> toolchain \<Rightarrow> pystr list \<Rightarrow> lesson dict \<times> pystr list \<Rightarrow> bool" where
  "lessons_ok known tc concepts acc \<longleftrightarrow>
     (case acc of (lessons, ordered) \<Rightarrow> dkeys lessons = ordered \<and> distinct ordered \<and>
        (\<forall>(k, l) \<in> set lessons. l_id l = k \<and> lesson_ok known tc l \<and> set (l_concepts l) \<subseteq> set concepts))"

lemma load_lessons_ok:
  "load_lessons pr path known tc concepts dy acc raws = Inr (acc', ids) \<Longrightarrow>
     lessons_ok known tc concepts acc \<Longrightarrow>
     lessons_ok known tc concepts acc' \<and> snd acc' = snd acc @ ids"
proof (induction raws arbitrary: acc acc' ids)
  case (Cons raw raws)
  obtain lessons ordered where acc: "acc = (lessons, ordered)" by (cases acc)
  obtain data l ids' where l: "raw = JObj data" "parse_lesson pr data dy path known tc = Inr l"
    "dget lessons (l_id l) = None" "List.find (\<lambda>c. c \<notin> set concepts) (l_concepts l) = None"
    "load_lessons pr path known tc concepts dy (dset (l_id l) l lessons, ordered @ [l_id l]) raws =
       Inr (acc', ids')" "ids = l_id l # ids'"
    using Cons.prems(1) by (auto simp: acc res_simps)
  have new: "l_id l \<notin> set (dkeys lessons)" using l(3) dget_None by metis
  have "lessons_ok known tc concepts (dset (l_id l) l lessons, ordered @ [l_id l])"
    using Cons.prems(2) parse_lesson_ok [OF l(2)] l(4) new
    by (auto simp: acc lessons_ok_def dset_append [OF new] dkeys_def find_unknown)
  from Cons.IH [OF l(5) this] show ?case by (simp add: acc l(6))
qed (simp)

lemma load_day_ok:
  assumes "load_day cap depth files pr known tc concepts acc entry = Inr (acc', d)"
    and "lessons_ok known tc concepts acc"
  shows "lessons_ok known tc concepts acc' \<and> snd acc' = snd acc @ d_lesson_ids d"
  using assms by (auto simp: load_day_def res_simps Let_def dest!: load_lessons_ok)

lemma load_days_ok:
  "load_days cap depth files pr known tc concepts acc entries = Inr (acc', ds) \<Longrightarrow>
     lessons_ok known tc concepts acc \<Longrightarrow>
     lessons_ok known tc concepts acc' \<and> snd acc' = snd acc @ concat (map d_lesson_ids ds)"
proof (induction entries arbitrary: acc ds)
  case (Cons entry entries)
  then obtain acc1 d ds' where d: "load_day cap depth files pr known tc concepts acc entry = Inr (acc1, d)"
    "load_days cap depth files pr known tc concepts acc1 entries = Inr (acc', ds')" "ds = d # ds'"
    by (auto simp: res_simps)
  from load_day_ok [OF d(1) Cons.prems(2)] Cons.IH [OF d(2)] show ?case by (simp add: d(3))
qed simp

lemma position_less:
  "distinct xs \<Longrightarrow> p \<in> set xs \<Longrightarrow> q \<in> set xs \<Longrightarrow> p \<noteq> q \<Longrightarrow> position xs p \<noteq> position xs q"
proof (induction xs)
  case (Cons x xs)
  then show ?case by (auto simp: position_def)
qed simp

lemma check_prereqs_Inr:
  "check_prereqs lessons ordered l ps = Inr () \<longleftrightarrow>
     (\<forall>p \<in> set ps. dget lessons p \<noteq> None \<and> p \<noteq> l_id l \<and> \<not> position ordered (l_id l) < position ordered p)"
  by (induction ps) auto

lemma check_each_Inr: "check_each f xs = Inr () \<longleftrightarrow> (\<forall>x \<in> set xs. f x = Inr ())"
  by (induction xs) (auto simp: res_simps)

lemma load_questions_ok:
  "load_questions concepts seen raws = Inr qs \<Longrightarrow>
     distinct (map q_id qs) \<and> set (map q_id qs) \<inter> set seen = {} \<and>
     (\<forall>q \<in> set qs. question_ok concepts q) \<and> length qs = length raws"
proof (induction raws arbitrary: seen qs)
  case (Cons raw raws)
  then obtain q where q: "raw = JObj q" by (auto split: json.splits)
  from Cons.prems obtain r qs' where r: "qs = r # qs'" "question_ok concepts r" "q_id r \<notin> set seen"
    "load_questions concepts (q_id r # seen) raws = Inr qs'"
    unfolding q by (auto simp: res_simps require_str_Inr question_ok_def find_unknown)
  from Cons.IH [OF r(4)] r show ?case by auto
qed simp

lemma load_interview_ok:
  "load_interview cap depth files concepts = Inr qs \<Longrightarrow>
     qs \<noteq> [] \<and> distinct (map q_id qs) \<and> (\<forall>q \<in> set qs. question_ok concepts q)"
  by (auto simp: load_interview_def res_simps dest!: load_questions_ok)

lemma check_flow_Inr: "check_flow flows l = Inr () \<longleftrightarrow> (\<forall>f. l_flow l = Some f \<longrightarrow> dget flows f \<noteq> None)"
  by (auto simp: check_flow_def split: option.splits)

lemma load_curriculum_parts:
  assumes "load_curriculum cap depth pr files stems known tc = Inr c"
  obtains entries where
    "load_days cap depth files pr known tc (c_concepts c) ([], []) entries =
       Inr ((c_lessons c, c_order c), c_days c)"
    "c_concepts c \<noteq> []" "c_order c \<noteq> []"
    "check_each (\<lambda>(_, l). check_prereqs (c_lessons c) (c_order c) l (l_prereqs l)) (c_lessons c) = Inr ()"
    "load_interview cap depth files (c_concepts c) = Inr (c_interview c)"
    "check_each (\<lambda>(_, l). check_flow (c_flows c) l) (c_lessons c) = Inr ()"
  using assms
  by (auto simp: load_curriculum_def res_simps)

lemma load_curriculum_ok:
  assumes "load_curriculum cap depth pr files stems known tc = Inr c"
  shows "curriculum_ok known tc c"
  using assms
proof (cases rule: load_curriculum_parts)
  case (1 entries)
  have ok: "lessons_ok known tc (c_concepts c) (c_lessons c, c_order c)"
    and order: "c_order c = concat (map d_lesson_ids (c_days c))"
    using load_days_ok [OF 1(1)] by (auto simp: lessons_ok_def dkeys_def)
  have keys: "dkeys (c_lessons c) = c_order c" "distinct (c_order c)" using ok by (simp_all add: lessons_ok_def)
  have fields: "l_id l = k \<and> lesson_ok known tc l \<and> set (l_concepts l) \<subseteq> set (c_concepts c)"
    if "(k, l) \<in> set (c_lessons c)" for k l
    using ok that by (auto simp: lessons_ok_def)
  have "p \<in> set (c_order c) \<and> position (c_order c) p < position (c_order c) k"
    if "(k, l) \<in> set (c_lessons c)" "p \<in> set (l_prereqs l)" for k l p
  proof -
    have "k \<in> set (dkeys (c_lessons c))" using that(1) by (force simp: dkeys_def)
    then have k: "l_id l = k" "k \<in> set (c_order c)"
      using fields [OF that(1)] keys(1) by simp_all
    have "check_prereqs (c_lessons c) (c_order c) l (l_prereqs l) = Inr ()"
      using 1(4) that(1) unfolding check_each_Inr by fast
    then have p: "dget (c_lessons c) p \<noteq> None" "p \<noteq> k" "\<not> position (c_order c) k < position (c_order c) p"
      using that(2) k(1) by (simp_all add: check_prereqs_Inr)
    have "p \<in> set (c_order c)" by (metis dget_None keys(1) p(1))
    then show ?thesis using position_less [OF keys(2) _ k(2) p(2)] p(3) by fastforce
  qed
  moreover have "dget (c_flows c) f \<noteq> None" if "(k, l) \<in> set (c_lessons c)" "l_flow l = Some f" for k l f
  proof -
    have "check_flow (c_flows c) l = Inr ()" using 1(6) that(1) unfolding check_each_Inr by fast
    then show ?thesis using that(2) by (simp add: check_flow_Inr)
  qed
  ultimately show ?thesis
    using fields order keys 1(2,3) load_interview_ok [OF 1(5)] unfolding curriculum_ok_def by blast
qed

lemma load_json_Inl: "load_json cap depth files p = Inl (Uncaught e) \<Longrightarrow> e = OSError \<and> files p = ReadOSError"
  by (auto simp: load_json_def cfail_def split: read_result.splits sum.splits)

lemma load_json_dump:
  assumes "files p = ReadText (dump fr None 0 j)" and "plain (builtin_int cap) j" and "wf_json j"
    and "containers j \<le> depth"
  shows "load_json cap depth files p = Inr j"
  using assms by (simp add: load_json_def loads_dump)

section \<open>A small curriculum\<close>

text \<open>Two lessons on one day, the second behind the first.\<close>

definition block_quiz :: obj where
  "block_quiz = [(k_type, JStr t_quiz), (k_id, JStr (S ''q1'')), (k_question, JStr (S ''?'')),
     (k_options, JList [JStr (S ''x''), JStr (S ''y'')]), (k_answer_index, JInt 1)]"

definition block_verify :: obj where
  "block_verify = [(k_type, JStr t_verify), (k_id, JStr (S ''v1'')), (k_validator, JStr (S ''run'')),
     (k_mandatory, JBool True)]"

definition block_explain :: obj where
  "block_explain = [(k_type, JStr t_explain), (k_id, JStr (S ''e1'')), (k_question, JStr (S ''?'')),
     (k_keywords, JList [JStr (S ''tcp'')]), (k_sample_answer, JStr (S ''tcp''))]"

definition block_learn :: obj where
  "block_learn = [(k_type, JStr t_learn), (k_id, JStr (S ''l1'')), (S ''text'', JStr (S ''t''))]"

definition tiny_lesson :: "pystr \<Rightarrow> obj list \<Rightarrow> pystr list \<Rightarrow> obj" where
  "tiny_lesson lid blocks prereqs =
     [(k_id, JStr lid), (k_title, JStr (S ''T'')), (k_objective, JStr (S ''O'')),
      (S ''estimated_minutes'', JInt 5), (S ''blocks'', JList (map JObj blocks)),
      (k_concepts, JList [JStr (S ''net'')]), (S ''prerequisites'', JList (map JStr prereqs))]"

definition tiny_json :: "cur_file \<Rightarrow> json" where
  "tiny_json p = (case p of
     Program_file \<Rightarrow> JObj [(k_concepts, JList [JStr (S ''net'')]),
       (S ''days'', JList [JObj [(S ''day'', JInt 1), (S ''module'', JStr (S ''m'')), (k_title, JStr (S ''D''))]])]
   | Module_file _ \<Rightarrow> JObj [(S ''lessons'', JList [
       JObj (tiny_lesson (S ''a'') [block_quiz, block_verify, block_explain] []),
       JObj (tiny_lesson (S ''b'') [block_learn] [S ''a''])])]
   | Interview_file \<Rightarrow> JObj [(S ''questions'', JList [JObj [(k_id, JStr (S ''i1'')), (k_question, JStr (S ''?'')),
       (k_sample_answer, JStr (S ''s'')), (k_keywords, JList [JStr (S ''tcp'')])]])]
   | Flow_file _ \<Rightarrow> JNull)"

definition tiny_files :: "cur_file \<Rightarrow> read_result" where
  "tiny_files p = ReadText (dump (\<lambda>_. []) None 0 (tiny_json p))"

definition no_tools :: toolchain where
  "no_tools = \<lparr>cmake = None, ctest = None, cxx = None, gdb = None, ninja = None, make_tool = None\<rparr>"

definition lesson_a :: lesson where
  "lesson_a = \<lparr>l_id = S ''a'', l_day = 1, l_title = S ''T'', l_objective = S ''O'', l_minutes = 5,
     l_status = s_available, l_reason = [], l_concepts = [S ''net''], l_prereqs = [], l_source_files = [],
     l_flow = None, l_blocks = [block_quiz, block_verify, block_explain], l_hints = [],
     l_requirements = [], l_requires = []\<rparr>"

definition lesson_b :: lesson where
  "lesson_b = lesson_a\<lparr>l_id := S ''b'', l_prereqs := [S ''a''], l_blocks := [block_learn]\<rparr>"

definition tiny_curriculum :: curriculum where
  "tiny_curriculum = \<lparr>c_concepts = [S ''net''],
     c_days = [\<lparr>d_day = 1, d_title = S ''D'', d_summary = [], d_lesson_ids = [S ''a'', S ''b'']\<rparr>],
     c_lessons = [(S ''a'', lesson_a), (S ''b'', lesson_b)], c_order = [S ''a'', S ''b''],
     c_interview = [\<lparr>q_id = S ''i1'', q_question = S ''?'', q_concepts = [], q_keywords = [S ''tcp''],
       q_sample = S ''s''\<rparr>], c_flows = []\<rparr>"

lemmas curriculum_key_defs = k_id_def k_type_def k_title_def k_objective_def k_keywords_def k_concepts_def
  k_mandatory_def k_options_def k_answer_index_def k_validator_def k_question_def k_sample_answer_def
  t_learn_def t_predict_def t_do_def t_verify_def t_quiz_def t_explain_def s_available_def s_unavailable_def

lemmas tiny_defs = tiny_json_def tiny_lesson_def block_quiz_def block_verify_def block_explain_def
  block_learn_def lesson_a_def lesson_b_def

lemma builtin_int_small: "builtin_int 4300 (dec_int 1) = Inr 1" "builtin_int 4300 (dec_int 5) = Inr 5"
  by (simp_all add: builtin_int_def dec_int_def dec_nat.simps lstrip_by_def int_of_token_def digits_val_def)

lemma str_ok_literal: "list_all (\<lambda>c. of_char c < (128::nat)) s \<Longrightarrow> str_ok (S s)"
  by (auto simp: str_ok_def scalar_def S_def list_all_iff)

lemma tiny_json_plain: "plain (builtin_int 4300) (tiny_json p) \<and> wf_json (tiny_json p) \<and> containers (tiny_json p) \<le> 900"
  by (cases p) (simp_all add: tiny_defs curriculum_key_defs builtin_int_small str_ok_literal dict_ok_def
      dkeys_def)

lemma load_tiny_json: "load_json 4300 900 tiny_files p = Inr (tiny_json p)"
  using tiny_json_plain by (intro load_json_dump) (auto simp: tiny_files_def)

lemma py_strip_ne: "py_strip s \<noteq> [] \<longleftrightarrow> (\<exists>c \<in> set s. \<not> is_space c)"
  unfolding py_strip_def rstrip_by_def lstrip_by_def
  by (auto simp: dropWhile_eq_Nil_conv dest: set_dropWhileD)
    (metis dropWhile_eq_Nil_conv hd_dropWhile list.set_sel(1))

lemma py_strip_literal: "py_strip (S s) = [] \<longleftrightarrow> list_all (\<lambda>c. is_space (of_char c)) s"
  using py_strip_ne [of "S s"] by (auto simp: list_all_iff S_def)

lemma require_str_literal:
  "dget d k = Some (JStr (S s)) \<Longrightarrow> \<not> list_all (\<lambda>c. is_space (of_char c)) s \<Longrightarrow>
     require_str p d k = Inr (S s)"
  by (simp add: require_str_Inr py_strip_literal)

lemma tiny_blocks_ok: "list_all (block_ok [S ''run'']) [block_quiz, block_verify, block_explain, block_learn]"
  by (simp add: block_ok_def block_type_def block_id_def get_or_def BLOCK_TYPES_def block_required_keys_def
      block_quiz_def block_verify_def block_explain_def block_learn_def curriculum_key_defs)

lemma tiny_blocks_accepted:
  "validate_blocks p [S ''run''] [] [block_quiz, block_verify, block_explain] = Inr ()"
  "validate_blocks p [S ''run''] [] [block_learn] = Inr ()"
  using tiny_blocks_ok
  by (simp_all add: validate_blocks_Inr block_id_def get_or_def block_quiz_def block_verify_def
      block_explain_def curriculum_key_defs del: validate_blocks.simps)

lemma parse_tiny_lesson:
  assumes "validate_blocks p known [] blocks = Inr ()" and "blocks \<noteq> []"
    and "dicts_of (map JObj blocks) = Some blocks" and "strings_of (map JStr prereqs) = Some prereqs"
    and "\<not> list_all (\<lambda>c. is_space (of_char c)) lid"
  shows "parse_lesson pr (tiny_lesson (S lid) blocks prereqs) 1 p known tc =
    Inr (lesson_a\<lparr>l_id := S lid, l_prereqs := prereqs, l_blocks := blocks\<rparr>)"
proof -
  let ?d = "tiny_lesson (S lid) blocks prereqs"
  have "require_str p ?d k_id = Inr (S lid)" "require_str p ?d k_title = Inr (S ''T'')"
    "require_str p ?d k_objective = Inr (S ''O'')"
    using assms(5) by (auto intro!: require_str_literal simp: tiny_lesson_def curriculum_key_defs is_space_def)
  moreover have "parse_minutes p ?d = Inr 5"
    by (simp add: parse_minutes_def get_or_def tiny_lesson_def curriculum_key_defs)
  moreover have "parse_status p pr ?d = Inr (s_available, [])"
    by (simp add: parse_status_def get_or_def tiny_lesson_def curriculum_key_defs)
  moreover have "parse_blocks p known s_available ?d = Inr blocks"
    using assms by (simp add: parse_blocks_def get_or_def tiny_lesson_def curriculum_key_defs)
  moreover have "parse_hints p ?d = Inr []"
    by (simp add: parse_hints_def get_or_def tiny_lesson_def curriculum_key_defs)
  moreover have "require_str_list p ?d k_concepts = Inr [S ''net'']"
    "require_str_list p ?d (S ''prerequisites'') = Inr prereqs" "require_str_list p ?d (S ''requires'') = Inr []"
    "require_str_list p ?d (S ''source_files'') = Inr []" "require_str_list p ?d (S ''requirements'') = Inr []"
    using assms(4) by (simp_all add: require_str_list_def get_or_def tiny_lesson_def curriculum_key_defs)
  moreover have "as_str (get_or JNull ?d (S ''flow'')) = None"
    by (simp add: get_or_def tiny_lesson_def curriculum_key_defs)
  ultimately show ?thesis by (simp add: parse_lesson_def lesson_a_def)
qed

lemma tiny_lessons:
  "load_lessons pr p [S ''run''] tc [S ''net''] 1 ([], [])
     [JObj (tiny_lesson (S ''a'') [block_quiz, block_verify, block_explain] []),
      JObj (tiny_lesson (S ''b'') [block_learn] [S ''a''])] =
   Inr ((c_lessons tiny_curriculum, [S ''a'', S ''b'']), [S ''a'', S ''b''])"
  using parse_tiny_lesson [OF tiny_blocks_accepted(1), of "[]" "''a''" pr p tc]
    parse_tiny_lesson [OF tiny_blocks_accepted(2), of "[S ''a'']" "''b''" pr p tc]
  by (simp add: is_space_def lesson_b_def lesson_a_def tiny_curriculum_def dset_def)

lemma tiny_loads:
  "load_curriculum 4300 900 (\<lambda>_. []) tiny_files [] [S ''run''] no_tools = Inr tiny_curriculum"
proof -
  have "load_day 4300 900 tiny_files (\<lambda>_. []) [S ''run''] no_tools [S ''net''] ([], [])
      (JObj [(S ''day'', JInt 1), (S ''module'', JStr (S ''m'')), (k_title, JStr (S ''D''))]) =
    Inr ((c_lessons tiny_curriculum, [S ''a'', S ''b'']), hd (c_days tiny_curriculum))"
    by (simp add: load_day_def get_or_def load_tiny_json tiny_json_def tiny_lessons require_str_def
        py_strip_literal is_space_def k_title_def del: load_lessons.simps)
      (simp add: tiny_curriculum_def)
  moreover have "load_interview 4300 900 tiny_files [S ''net''] = Inr (c_interview tiny_curriculum)"
    by (simp add: load_interview_def load_tiny_json tiny_json_def get_or_def require_str_def
        require_str_list_def py_strip_literal is_space_def curriculum_key_defs tiny_curriculum_def)
  moreover have "require_str_list Program_file [(k_concepts, JList [JStr (S ''net'')]),
       (S ''days'', JList [JObj [(S ''day'', JInt 1), (S ''module'', JStr (S ''m'')), (k_title, JStr (S ''D''))]])]
       k_concepts = Inr [S ''net'']"
    by (simp add: require_str_list_def get_or_def)
  ultimately show ?thesis
    by (simp add: load_curriculum_def load_tiny_json tiny_json_def get_or_def k_concepts_def)
      (simp add: tiny_curriculum_def lesson_a_def lesson_b_def check_flow_def position_def)
qed

section \<open>Properties\<close>

text \<open>
  C16: The loader accepts only a coherent curriculum: every lesson is registered under its own id,
  in the order of the days; it is offered only with blocks and with all its native requirements
  met, and withheld only with a reason; its blocks have distinct ids, known types, the keys of
  their type, a registered validator and an answer inside the options; its concepts are in the
  taxonomy, its flow exists, and its prerequisites come strictly before it; and the interview bank
  is not empty.
\<close>

theorem loaded_curriculum_coherent:
  assumes "load_curriculum cap depth pr files stems known tc = Inr c"
  shows "curriculum_ok known tc c"
  using assms by (rule load_curriculum_ok)

theorem loaded_curriculum_coherent_witness: "curriculum_ok [S ''run''] no_tools tiny_curriculum"
  by (rule loaded_curriculum_coherent [OF tiny_loads])

text \<open>
  The block schema is decided exactly: a list of blocks passes when each block satisfies the
  schema of its type and no id is repeated, and in no other case.
\<close>

theorem blocks_accepted_iff:
  "validate_blocks path known [] bs = Inr () \<longleftrightarrow>
     list_all (block_ok known) bs \<and> distinct (map block_id bs)"
  by (auto simp: validate_blocks_Inr list_all_iff)

text \<open>
  Not every malformed block is reported as a \<open>CurriculumError\<close>: a block whose type is a list or
  an object makes the membership test raise \<open>TypeError\<close>, wherever it stands among valid blocks
  without a repeated id.
\<close>

theorem unhashable_type_escapes:
  assumes "list_all (block_ok known) bs" and "distinct (map block_id bs)"
    and "is_list (block_type b) \<or> is_dict (block_type b)"
  shows "validate_blocks path known [] (bs @ b # rest) = Inl (Uncaught TypeError)"
proof -
  have "validate_blocks path known seen (bs @ b # rest) = Inl (Uncaught TypeError)"
    if "set (map block_id bs) \<inter> set seen = {}" for seen
    using assms(1,2) that
  proof (induction bs arbitrary: seen)
    case Nil
    then show ?case using assms(3) by (simp add: in_str_set_def block_type_def Let_def)
  next
    case (Cons x bs)
    then show ?case by (auto simp: validate_blocks_accepts simp del: validate_blocks.simps)
  qed
  then show ?thesis by simp
qed

theorem unhashable_type_escapes_witness:
  "validate_blocks Program_file [] [] ([[(k_type, JStr t_learn), (k_id, JStr (S ''a'')), (S ''text'', JStr [])]] @
     [(k_type, JList [])] # []) = Inl (Uncaught TypeError)"
  by (rule unhashable_type_escapes)
    (simp_all add: block_ok_def block_type_def block_id_def get_or_def k_type_def k_id_def BLOCK_TYPES_def
      block_required_keys_def t_learn_def t_verify_def t_quiz_def t_predict_def t_explain_def t_do_def)

end
