(* ===== verification/Progress.thy ===== *)
theory Progress
  imports Curriculum
begin

text \<open>
  The learner's progress (\<open>learning/server/progress.py\<close>): the state file with its validation on
  load, and the operations of \<open>ProgressStore\<close> that record what happens.  The gates that decide
  completion are in \<open>Progress_Gates\<close>.

  A record of the file is a JSON object whose fields the loader has only partly checked, so a field
  is read with \<open>read_field\<close>, which raises what Python raises.  An operation is a function on the
  store that returns a result or an exception together with the store as it is then: what was
  changed before an exception stays changed in memory, and the file changes only with \<open>save\<close>.
  The lock makes each operation atomic.  \<open>now\<close> is the time stamp of \<open>_now()\<close>.
\<close>

section \<open>The state\<close>

definition STATE_VERSION :: int where "STATE_VERSION = 1"
definition MAX_COUNTER :: int where "MAX_COUNTER = 1000000"

definition f_status :: pystr where "f_status = S ''status''"
definition f_steps_done :: pystr where "f_steps_done = S ''steps_done''"
definition f_validations :: pystr where "f_validations = S ''validations''"
definition f_quiz_correct :: pystr where "f_quiz_correct = S ''quiz_correct''"
definition f_quiz_attempts :: pystr where "f_quiz_attempts = S ''quiz_attempts''"
definition f_explain_done :: pystr where "f_explain_done = S ''explain_done''"
definition f_attempts :: pystr where "f_attempts = S ''attempts''"
definition f_hints_used :: pystr where "f_hints_used = S ''hints_used''"
definition f_baseline :: pystr where "f_baseline = S ''interview_baseline''"
definition f_started_at :: pystr where "f_started_at = S ''started_at''"
definition f_completed_at :: pystr where "f_completed_at = S ''completed_at''"
definition f_correct :: pystr where "f_correct = S ''correct''"
definition f_incorrect :: pystr where "f_incorrect = S ''incorrect''"
definition f_streak :: pystr where "f_streak = S ''streak''"
definition f_last_seen :: pystr where "f_last_seen = S ''last_seen''"
definition f_passed :: pystr where "f_passed = S ''passed''"
definition f_at :: pystr where "f_at = S ''at''"

lemmas field_defs = f_status_def f_steps_done_def f_validations_def f_quiz_correct_def
  f_quiz_attempts_def f_explain_done_def f_attempts_def f_hints_used_def f_baseline_def
  f_started_at_def f_completed_at_def f_correct_def f_incorrect_def f_streak_def f_last_seen_def
  f_passed_def f_at_def

definition st_not_started :: pystr where "st_not_started = S ''not_started''"
definition st_in_progress :: pystr where "st_in_progress = S ''in_progress''"
definition st_complete :: pystr where "st_complete = S ''complete''"

lemmas status_defs = st_not_started_def st_in_progress_def st_complete_def

text \<open>The five keys of the file, and whatever else it holds, which is kept.\<close>

record progress =
  p_version :: json
  p_last :: json
  p_lessons :: "obj dict"
  p_concepts :: "obj dict"
  p_interview :: "obj dict"
  p_other :: obj

definition empty_state :: progress where
  "empty_state = \<lparr>p_version = JInt STATE_VERSION, p_last = JNull, p_lessons = [], p_concepts = [],
     p_interview = [], p_other = []\<rparr>"

definition empty_lesson_record :: obj where
  "empty_lesson_record =
     [(f_status, JStr st_not_started), (f_steps_done, JList []), (f_validations, JObj []),
      (f_quiz_correct, JList []), (f_quiz_attempts, JInt 0), (f_explain_done, JList []),
      (f_attempts, JInt 0), (f_hints_used, JInt 0), (f_baseline, JInt 0), (f_started_at, JNull),
      (f_completed_at, JNull)]"

section \<open>Validation on load\<close>

datatype psection = Lessons | Concepts | Interview

fun integer_fields :: "psection \<Rightarrow> pystr list" where
  "integer_fields Lessons = [f_attempts, f_hints_used, f_quiz_attempts, f_baseline]"
| "integer_fields Concepts = [f_correct, f_incorrect]"
| "integer_fields Interview = [f_correct, f_incorrect, f_streak]"

fun list_fields :: "psection \<Rightarrow> pystr list" where
  "list_fields Lessons = [f_steps_done, f_quiz_correct, f_explain_done]"
| "list_fields _ = []"

definition valid_counter :: "json \<Rightarrow> bool" where
  "valid_counter v \<longleftrightarrow> v = JNull \<or>
     (case as_proper_int v of None \<Rightarrow> False | Some i \<Rightarrow> 0 \<le> i \<and> i \<le> MAX_COUNTER)"

definition valid_str_list :: "json \<Rightarrow> bool" where
  "valid_str_list v \<longleftrightarrow> v = JNull \<or> (case v of JList xs \<Rightarrow> list_all is_str xs | _ \<Rightarrow> False)"

definition valid_outcome :: "json \<Rightarrow> bool" where
  "valid_outcome v \<longleftrightarrow> (case v of
     JObj d \<Rightarrow>
       (get_or JNull d f_passed = JNull \<or> is_bool (get_or JNull d f_passed)) \<and>
       (get_or JNull d f_at = JNull \<or> is_str (get_or JNull d f_at))
   | _ \<Rightarrow> False)"

definition valid_validations :: "json \<Rightarrow> bool" where
  "valid_validations v \<longleftrightarrow> v = JNull \<or>
     (case v of JObj d \<Rightarrow> list_all (\<lambda>(k, x). valid_outcome x) d | _ \<Rightarrow> False)"

definition record_is_valid :: "psection \<Rightarrow> obj \<Rightarrow> bool" where
  "record_is_valid sec r \<longleftrightarrow>
     list_all (\<lambda>f. valid_counter (get_or JNull r f)) (integer_fields sec) \<and>
     list_all (\<lambda>f. valid_str_list (get_or JNull r f)) (list_fields sec) \<and>
     (sec = Lessons \<longrightarrow>
        (get_or JNull r f_status = JNull \<or> is_str (get_or JNull r f_status)) \<and>
        valid_validations (get_or JNull r f_validations))"

definition k_version :: pystr where "k_version = S ''version''"
definition k_last_lesson_id :: pystr where "k_last_lesson_id = S ''last_lesson_id''"
definition k_lessons :: pystr where "k_lessons = S ''lessons''"
definition k_concept_section :: pystr where "k_concept_section = S ''concepts''"
definition k_interview :: pystr where "k_interview = S ''interview''"

lemmas state_key_defs = k_version_def k_last_lesson_id_def k_lessons_def k_concept_section_def
  k_interview_def

definition state_keys :: "pystr list" where
  "state_keys = [k_version, k_last_lesson_id, k_lessons, k_concept_section, k_interview]"

text \<open>The records of a section, if it is an object of objects; an absent section is empty.\<close>

fun records_of :: "(pystr \<times> json) list \<Rightarrow> obj dict option" where
  "records_of [] = Some []"
| "records_of ((k, JObj d) # ps) = map_option ((#) (k, d)) (records_of ps)"
| "records_of (_ # ps) = None"

definition load_section :: "obj \<Rightarrow> pystr \<Rightarrow> psection \<Rightarrow> obj dict option" where
  "load_section data key sec = (case get_or (JObj []) data key of
     JObj d \<Rightarrow>
       (case records_of d of
          Some rs \<Rightarrow> if list_all (\<lambda>(k, r). record_is_valid sec r) rs then Some rs else None
        | None \<Rightarrow> None)
   | _ \<Rightarrow> None)"

text \<open>The state a parsed file stands for, if it passes every check.\<close>

definition accept_state :: "json \<Rightarrow> progress option" where
  "accept_state j = (case j of
     JObj data \<Rightarrow>
       if \<not> py_eq (get_or JNull data k_version) (JInt STATE_VERSION) then None
       else
         (case (load_section data k_lessons Lessons, load_section data k_concept_section Concepts,
                load_section data k_interview Interview) of
            (Some ls, Some cs, Some ins) \<Rightarrow>
              if get_or JNull data k_last_lesson_id \<noteq> JNull \<and>
                 \<not> is_str (get_or JNull data k_last_lesson_id) then None
              else Some \<lparr>p_version = get_or JNull data k_version,
                     p_last = get_or JNull data k_last_lesson_id,
                     p_lessons = ls, p_concepts = cs, p_interview = ins,
                     p_other = filter (\<lambda>(k, v). k \<notin> set state_keys) data\<rparr>
          | _ \<Rightarrow> None)
   | _ \<Rightarrow> None)"

datatype progress_file = No_file | Progress_file read_result

text \<open>\<open>_load\<close>: the state, and whether the file was backed up as corrupt.\<close>

definition load_progress :: "nat \<Rightarrow> nat \<Rightarrow> progress_file \<Rightarrow> progress \<times> bool" where
  "load_progress cap depth pf = (case pf of
     No_file \<Rightarrow> (empty_state, False)
   | Progress_file (ReadText t) \<Rightarrow>
       (case loads (builtin_int cap) depth t of
          Inl _ \<Rightarrow> (empty_state, True)
        | Inr j \<Rightarrow> (case accept_state j of None \<Rightarrow> (empty_state, True) | Some st \<Rightarrow> (st, False)))
   | Progress_file _ \<Rightarrow> (empty_state, True))"

definition section_json :: "obj dict \<Rightarrow> json" where
  "section_json rs = JObj (map (\<lambda>(k, r). (k, JObj r)) rs)"

definition state_json :: "progress \<Rightarrow> json" where
  "state_json st = JObj
     ([(k_version, p_version st), (k_last_lesson_id, p_last st), (k_lessons, section_json (p_lessons st)),
       (k_concept_section, section_json (p_concepts st)), (k_interview, section_json (p_interview st))] @
      p_other st)"

section \<open>Operations\<close>

record pstore =
  mem :: progress
  disk :: "json option"  \<comment> \<open>what \<open>_save_locked\<close> last wrote\<close>

type_synonym 'a op = "pstore \<Rightarrow> (py_exc + 'a) \<times> pstore"

definition op_return :: "'a \<Rightarrow> 'a op" where
  "op_return a s = (Inr a, s)"

definition op_bind :: "'a op \<Rightarrow> ('a \<Rightarrow> 'b op) \<Rightarrow> 'b op" where
  "op_bind m f s = (case m s of (Inl e, s') \<Rightarrow> (Inl e, s') | (Inr a, s') \<Rightarrow> f a s')"

definition op_then :: "unit op \<Rightarrow> 'b op \<Rightarrow> 'b op" where
  "op_then m k = op_bind m (\<lambda>_. k)"

definition op_lift :: "py_exc + 'a \<Rightarrow> 'a op" where
  "op_lift r s = (r, s)"

definition op_when :: "bool \<Rightarrow> unit op \<Rightarrow> unit op" where
  "op_when b m = (if b then m else op_return ())"

definition save :: "unit op" where
  "save s = (Inr (), s\<lparr>disk := Some (state_json (mem s))\<rparr>)"

definition set_last :: "pystr \<Rightarrow> unit op" where
  "set_last lid s = (Inr (), s\<lparr>mem := (mem s)\<lparr>p_last := JStr lid\<rparr>\<rparr>)"

definition finish :: "pystr \<Rightarrow> unit op" where
  "finish lid = op_then (set_last lid) save"

subsection \<open>Values\<close>

definition read_field :: "obj \<Rightarrow> pystr \<Rightarrow> py_exc + json" where
  "read_field r k = (case dget r k of None \<Rightarrow> Inl KeyError | Some v \<Rightarrow> Inr v)"

text \<open>\<open>v + 1\<close>\<close>

definition py_incr :: "json \<Rightarrow> py_exc + json" where
  "py_incr v = (case as_int v of
     Some i \<Rightarrow> Inr (JInt (i + 1))
   | None \<Rightarrow>
       (case v of
          JFloat (Fin r) \<Rightarrow> Inr (JFloat (round_double (r + 1)))
        | JFloat f \<Rightarrow> Inr (JFloat f)
        | _ \<Rightarrow> Inl TypeError))"

text \<open>\<open>int(v)\<close>; the loader leaves no string where the code converts.\<close>

definition py_int :: "json \<Rightarrow> py_exc + int" where
  "py_int v = (case as_int v of
     Some i \<Rightarrow> Inr i
   | None \<Rightarrow>
       (case v of
          JFloat (Fin r) \<Rightarrow> Inr (if r < 0 then \<lceil>r\<rceil> else \<lfloor>r\<rfloor>)
        | JFloat NaN \<Rightarrow> Inl ValueError
        | JFloat _ \<Rightarrow> Inl OverflowError
        | JStr _ \<Rightarrow> Inl ValueError
        | _ \<Rightarrow> Inl TypeError))"

text \<open>\<open>block_id in v\<close>\<close>

definition py_in :: "pystr \<Rightarrow> json \<Rightarrow> py_exc + bool" where
  "py_in x v = (case v of
     JList xs \<Rightarrow> Inr (JStr x \<in> set xs)
   | JObj d \<Rightarrow> Inr (dget d x \<noteq> None)
   | JStr s \<Rightarrow> Inr (list_ex (\<lambda>i. starts_with x (drop i s)) [0..<Suc (length s)])
   | _ \<Rightarrow> Inl TypeError)"

definition py_append :: "pystr \<Rightarrow> json \<Rightarrow> py_exc + json" where
  "py_append x v = (case v of JList xs \<Rightarrow> Inr (JList (xs @ [JStr x])) | _ \<Rightarrow> Inl AttributeError)"

definition as_dict_attr :: "json \<Rightarrow> py_exc + obj" where
  "as_dict_attr v = (case v of JObj d \<Rightarrow> Inr d | _ \<Rightarrow> Inl AttributeError)"

subsection \<open>Lesson records\<close>

definition fill_template :: "obj \<Rightarrow> obj" where
  "fill_template r = fold (\<lambda>(k, v). dsetdefault k v) empty_lesson_record r"

definition filled_record :: "pystr \<Rightarrow> obj dict \<Rightarrow> obj" where
  "filled_record lid ls =
     fill_template (case dget ls lid of None \<Rightarrow> empty_lesson_record | Some r \<Rightarrow> r)"

definition put_record :: "pystr \<Rightarrow> obj \<Rightarrow> unit op" where
  "put_record lid r s =
     (Inr (), s\<lparr>mem := (mem s)\<lparr>p_lessons := dset lid r (p_lessons (mem s))\<rparr>\<rparr>)"

text \<open>\<open>_lesson_record_locked\<close>; the record it returns is the one in the state.\<close>

definition lesson_record :: "pystr \<Rightarrow> obj op" where
  "lesson_record lid s =
     (let r = filled_record lid (p_lessons (mem s)) in (Inr r, snd (put_record lid r s)))"

definition get_record :: "pystr \<Rightarrow> obj op" where
  "get_record lid s = (case dget (p_lessons (mem s)) lid of
     None \<Rightarrow> (Inl KeyError, s) | Some r \<Rightarrow> (Inr r, s))"

definition get_field :: "pystr \<Rightarrow> pystr \<Rightarrow> json op" where
  "get_field lid k = op_bind (get_record lid) (\<lambda>r. op_lift (read_field r k))"

definition set_field :: "pystr \<Rightarrow> pystr \<Rightarrow> json \<Rightarrow> unit op" where
  "set_field lid k v = op_bind (get_record lid) (\<lambda>r. put_record lid (dset k v r))"

definition update_field :: "pystr \<Rightarrow> pystr \<Rightarrow> (json \<Rightarrow> py_exc + json) \<Rightarrow> unit op" where
  "update_field lid k f =
     op_bind (get_field lid k) (\<lambda>v. op_bind (op_lift (f v)) (\<lambda>w. set_field lid k w))"

text \<open>\<open>if block_id not in record[k]: record[k].append(block_id)\<close>\<close>

definition add_to_list :: "pystr \<Rightarrow> pystr \<Rightarrow> pystr \<Rightarrow> unit op" where
  "add_to_list lid k x =
     op_bind (get_field lid k) (\<lambda>v. op_bind (op_lift (py_in x v)) (\<lambda>there.
       op_when (\<not> there) (update_field lid k (py_append x))))"

text \<open>\<open>_interview_total_locked\<close>: proper integers only.\<close>

definition entry_count :: "obj \<Rightarrow> pystr \<Rightarrow> int" where
  "entry_count e k = (case as_proper_int (get_or (JInt 0) e k) of Some i \<Rightarrow> i | None \<Rightarrow> 0)"

definition interview_total :: "progress \<Rightarrow> int" where
  "interview_total st =
     sum_list (map (\<lambda>(_, e). entry_count e f_correct + entry_count e f_incorrect) (p_interview st))"

definition mark_started :: "pystr \<Rightarrow> pystr \<Rightarrow> unit op" where
  "mark_started now lid =
     op_bind (lesson_record lid) (\<lambda>_.
     op_bind (get_field lid f_started_at) (\<lambda>started.
     op_then
       (op_when (started = JNull)
         (op_then (set_field lid f_started_at (JStr now))
           (\<lambda>s. set_field lid f_baseline (JInt (interview_total (mem s))) s)))
     (op_bind (get_field lid f_status) (\<lambda>status.
     op_then (op_when (status = JStr st_not_started) (set_field lid f_status (JStr st_in_progress)))
     (op_then (update_field lid f_attempts py_incr)
       (finish lid))))))"

definition record_step :: "pystr \<Rightarrow> pystr \<Rightarrow> unit op" where
  "record_step lid bid =
     op_bind (lesson_record lid) (\<lambda>_. op_then (add_to_list lid f_steps_done bid) (finish lid))"

subsection \<open>Concepts\<close>

text \<open>One turn of \<open>_bump_concepts_locked\<close>'s loop.\<close>

definition bump_entry :: "pystr \<Rightarrow> bool \<Rightarrow> obj \<Rightarrow> py_exc + obj" where
  "bump_entry now correct e =
     (let k = (if correct then f_correct else f_incorrect)
      in res_bind (read_field e k) (\<lambda>v. res_bind (py_incr v) (\<lambda>w.
           Inr (dset f_last_seen (JStr now) (dset k w e)))))"

definition empty_concept :: obj where
  "empty_concept = [(f_correct, JInt 0), (f_incorrect, JInt 0), (f_last_seen, JNull)]"

definition bump_concept :: "pystr \<Rightarrow> bool \<Rightarrow> pystr \<Rightarrow> unit op" where
  "bump_concept now correct c s =
     (let cs = dsetdefault c empty_concept (p_concepts (mem s));
          s1 = s\<lparr>mem := (mem s)\<lparr>p_concepts := cs\<rparr>\<rparr>
      in case bump_entry now correct (the (dget cs c)) of
           Inl e \<Rightarrow> (Inl e, s1)
         | Inr e \<Rightarrow> (Inr (), s1\<lparr>mem := (mem s1)\<lparr>p_concepts := dset c e cs\<rparr>\<rparr>))"

fun bump_concepts :: "pystr \<Rightarrow> bool \<Rightarrow> pystr list \<Rightarrow> unit op" where
  "bump_concepts now correct [] = op_return ()"
| "bump_concepts now correct (c # cs) = op_then (bump_concept now correct c) (bump_concepts now correct cs)"

subsection \<open>Outcomes\<close>

definition outcome_json :: "pystr \<Rightarrow> bool \<Rightarrow> json" where
  "outcome_json now passed = JObj [(f_passed, JBool passed), (f_at, JStr now)]"

definition put_outcome :: "pystr \<Rightarrow> json \<Rightarrow> json \<Rightarrow> py_exc + json" where
  "put_outcome bid out validations =
     res_bind (as_dict_attr validations) (\<lambda>d. Inr (JObj (dset bid out d)))"

definition record_validation ::
    "pystr \<Rightarrow> pystr \<Rightarrow> pystr \<Rightarrow> bool \<Rightarrow> bool \<Rightarrow> pystr list \<Rightarrow> bool \<Rightarrow> unit op" where
  "record_validation now lid bid passed mandatory concepts historical =
     op_bind (lesson_record lid) (\<lambda>_.
     op_bind (get_field lid f_validations) (\<lambda>validations.
     op_bind (op_lift (res_bind (as_dict_attr validations) (\<lambda>d. Inr (get_or (JObj []) d bid)))) (\<lambda>previous.
     op_bind (if historical
              then op_lift (res_bind (as_dict_attr previous) (\<lambda>oc. Inr (get_or JNull oc f_passed = JBool True)))
              else op_return False) (\<lambda>stands.
     if stands then finish lid
     else
       op_then (update_field lid f_validations (put_outcome bid (outcome_json now passed)))
       (op_then (op_when (concepts \<noteq> [] \<and> mandatory) (bump_concepts now passed concepts))
       (op_bind (get_record lid) (\<lambda>r.
       op_then
         (op_when (\<not> passed \<and> mandatory \<and> get_or JNull r f_status = JStr st_complete)
           (op_then (set_field lid f_status (JStr st_in_progress)) (set_field lid f_completed_at JNull)))
         (finish lid))))))))"

definition record_quiz :: "pystr \<Rightarrow> pystr \<Rightarrow> pystr \<Rightarrow> bool \<Rightarrow> pystr list \<Rightarrow> unit op" where
  "record_quiz now lid bid correct concepts =
     op_bind (lesson_record lid) (\<lambda>_.
     op_then (update_field lid f_quiz_attempts py_incr)
     (op_then (op_when correct (add_to_list lid f_quiz_correct bid))
     (op_then (bump_concepts now correct concepts) (finish lid))))"

definition record_explain :: "pystr \<Rightarrow> pystr \<Rightarrow> pystr \<Rightarrow> bool \<Rightarrow> pystr list \<Rightarrow> unit op" where
  "record_explain now lid bid passed concepts =
     op_bind (lesson_record lid) (\<lambda>_.
     op_then (op_when passed (add_to_list lid f_explain_done bid))
     (op_then (bump_concepts now passed concepts) (finish lid)))"

definition record_hint :: "pystr \<Rightarrow> int \<Rightarrow> int op" where
  "record_hint lid index =
     op_bind (lesson_record lid) (\<lambda>_.
     op_bind (get_field lid f_hints_used) (\<lambda>used.
     op_bind (op_lift (py_int used)) (\<lambda>u.
       let revealed = max u (index + 1)
       in op_then
            (op_when (\<not> py_eq (JInt revealed) used)
              (op_then (set_field lid f_hints_used (JInt revealed)) save))
            (op_return revealed))))"

definition empty_interview :: obj where
  "empty_interview = [(f_correct, JInt 0), (f_incorrect, JInt 0), (f_streak, JInt 0)]"

definition set_interview :: "pystr \<Rightarrow> obj \<Rightarrow> unit op" where
  "set_interview qid e s = (Inr (), s\<lparr>mem := (mem s)\<lparr>p_interview := dset qid e (p_interview (mem s))\<rparr>\<rparr>)"

definition record_interview :: "pystr \<Rightarrow> pystr \<Rightarrow> bool \<Rightarrow> pystr list \<Rightarrow> unit op" where
  "record_interview now qid correct concepts s =
     (let e = (case dget (p_interview (mem s)) qid of None \<Rightarrow> empty_interview | Some e \<Rightarrow> e);
          k = (if correct then f_correct else f_incorrect)
      in op_then (set_interview qid e)
         (op_bind (op_lift (res_bind (read_field e k) py_incr)) (\<lambda>v.
          let e1 = dset k v e
          in op_then (set_interview qid e1)
             (op_bind (if correct
                       then op_lift (res_bind (py_int (get_or (JInt 0) e1 f_streak)) (\<lambda>i. Inr (i + 1)))
                       else op_return 0) (\<lambda>streak.
              op_then (set_interview qid (dset f_streak (JInt streak) e1))
              (op_then (op_when (concepts \<noteq> []) (bump_concepts now correct concepts)) save))))) s)"

section \<open>The types of a record's fields\<close>

definition counter_fields :: "pystr list" where
  "counter_fields = [f_quiz_attempts, f_attempts, f_hints_used, f_baseline]"

definition id_list_fields :: "pystr list" where
  "id_list_fields = [f_steps_done, f_quiz_correct, f_explain_done]"

definition template_keys :: "pystr list" where
  "template_keys = dkeys empty_lesson_record"

definition counter_ok :: "json \<Rightarrow> bool" where
  "counter_ok v \<longleftrightarrow> (case v of JInt i \<Rightarrow> 0 \<le> i | _ \<Rightarrow> False)"

definition id_list_ok :: "json \<Rightarrow> bool" where
  "id_list_ok v \<longleftrightarrow> (case v of JList xs \<Rightarrow> list_all is_str xs | _ \<Rightarrow> False)"

definition validations_ok :: "json \<Rightarrow> bool" where
  "validations_ok v \<longleftrightarrow> (case v of JObj d \<Rightarrow> list_all (\<lambda>(k, x). valid_outcome x) d | _ \<Rightarrow> False)"

definition field_ok :: "pystr \<Rightarrow> json \<Rightarrow> bool" where
  "field_ok k v \<longleftrightarrow>
     (k = f_status \<longrightarrow> is_str v) \<and> (k \<in> set id_list_fields \<longrightarrow> id_list_ok v) \<and>
     (k \<in> set counter_fields \<longrightarrow> counter_ok v) \<and> (k = f_validations \<longrightarrow> validations_ok v)"

text \<open>Every field that is there has its type; and, in a full record, every field is there.\<close>

definition typed_record :: "obj \<Rightarrow> bool" where
  "typed_record r \<longleftrightarrow> (\<forall>k v. dget r k = Some v \<longrightarrow> field_ok k v)"

definition full_record :: "obj \<Rightarrow> bool" where
  "full_record r \<longleftrightarrow> typed_record r \<and> (\<forall>k \<in> set template_keys. dget r k \<noteq> None)"

definition counts_ok :: "obj \<Rightarrow> bool" where
  "counts_ok e \<longleftrightarrow> (\<exists>i j. dget e f_correct = Some (JInt i) \<and> dget e f_incorrect = Some (JInt j) \<and> 0 \<le> i \<and> 0 \<le> j)"

definition interview_ok :: "obj \<Rightarrow> bool" where
  "interview_ok e \<longleftrightarrow> counts_ok e \<and> (case dget e f_streak of None \<Rightarrow> True | Some v \<Rightarrow> counter_ok v)"

definition typed_state :: "progress \<Rightarrow> bool" where
  "typed_state st \<longleftrightarrow>
     p_version st = JInt STATE_VERSION \<and> (p_last st = JNull \<or> is_str (p_last st)) \<and>
     dict_ok (p_lessons st) \<and> dict_ok (p_concepts st) \<and> dict_ok (p_interview st) \<and>
     (\<forall>k r. dget (p_lessons st) k = Some r \<longrightarrow> typed_record r) \<and>
     (\<forall>k e. dget (p_concepts st) k = Some e \<longrightarrow> counts_ok e) \<and>
     (\<forall>k e. dget (p_interview st) k = Some e \<longrightarrow> interview_ok e)"

definition full_state :: "progress \<Rightarrow> bool" where
  "full_state st \<longleftrightarrow> typed_state st \<and> (\<forall>k r. dget (p_lessons st) k = Some r \<longrightarrow> full_record r)"

lemma field_distinct:
  "distinct [f_status, f_steps_done, f_validations, f_quiz_correct, f_quiz_attempts, f_explain_done,
     f_attempts, f_hints_used, f_baseline, f_started_at, f_completed_at]"
  by (simp add: field_defs)

lemma count_fields_distinct [simp]:
  "f_correct \<noteq> f_incorrect" "f_incorrect \<noteq> f_correct" "f_last_seen \<noteq> f_correct" "f_last_seen \<noteq> f_incorrect"
  "f_streak \<noteq> f_correct" "f_streak \<noteq> f_incorrect" "f_streak \<noteq> f_last_seen" "f_last_seen \<noteq> f_streak"
  "f_correct \<noteq> f_last_seen" "f_incorrect \<noteq> f_last_seen" "f_correct \<noteq> f_streak" "f_incorrect \<noteq> f_streak"
  by (simp_all add: field_defs)

lemma template_keys_eq:
  "template_keys = [f_status, f_steps_done, f_validations, f_quiz_correct, f_quiz_attempts, f_explain_done,
     f_attempts, f_hints_used, f_baseline, f_started_at, f_completed_at]"
  by (simp add: template_keys_def empty_lesson_record_def dkeys_def)

lemma typed_template: "(k, v) \<in> set empty_lesson_record \<Longrightarrow> field_ok k v"
  using field_distinct
  by (auto simp: empty_lesson_record_def field_ok_def id_list_fields_def counter_fields_def id_list_ok_def
      counter_ok_def validations_ok_def)

lemma typed_record_dset: "typed_record r \<Longrightarrow> field_ok k v \<Longrightarrow> typed_record (dset k v r)"
  by (auto simp: typed_record_def dget_dset)

lemma full_record_dset: "full_record r \<Longrightarrow> field_ok k v \<Longrightarrow> full_record (dset k v r)"
  by (auto simp: full_record_def typed_record_dset dget_dset)

lemma fill_fold:
  "typed_record r \<Longrightarrow> \<forall>(k, v) \<in> set ps. field_ok k v \<Longrightarrow>
     typed_record (fold (\<lambda>(k, v). dsetdefault k v) ps r) \<and>
     (\<forall>k. dget r k \<noteq> None \<or> k \<in> fst ` set ps \<longrightarrow> dget (fold (\<lambda>(k, v). dsetdefault k v) ps r) k \<noteq> None)"
proof (induction ps arbitrary: r)
  case (Cons p ps)
  obtain k v where p: "p = (k, v)" by (cases p)
  have "typed_record (dsetdefault k v r)"
    using Cons.prems p by (auto simp: dsetdefault_def typed_record_dset split: option.splits)
  from Cons.IH [OF this] Cons.prems(2) show ?case
    by (auto simp: p dget_dsetdefault split: option.splits if_splits)
qed (simp add: typed_record_def)

lemma fill_template_full: "typed_record r \<Longrightarrow> full_record (fill_template r)"
proof -
  assume "typed_record r"
  moreover have "\<forall>(k, v) \<in> set empty_lesson_record. field_ok k v"
    using typed_template by blast
  ultimately have "typed_record (fill_template r) \<and>
      (\<forall>k. dget r k \<noteq> None \<or> k \<in> fst ` set empty_lesson_record \<longrightarrow> dget (fill_template r) k \<noteq> None)"
    unfolding fill_template_def by (rule fill_fold)
  then show ?thesis by (simp add: full_record_def template_keys_def dkeys_def)
qed

lemma filled_record_full:
  "(\<And>r. dget ls lid = Some r \<Longrightarrow> typed_record r) \<Longrightarrow> full_record (filled_record lid ls)"
proof -
  have "typed_record empty_lesson_record"
    using typed_template by (auto simp: typed_record_def dest: map_of_SomeD)
  then show "(\<And>r. dget ls lid = Some r \<Longrightarrow> typed_record r) \<Longrightarrow> full_record (filled_record lid ls)"
    by (cases "dget ls lid") (auto simp: filled_record_def fill_template_full)
qed

section \<open>Operations that cannot fail\<close>

text \<open>From \<open>P\<close>, the operation returns a value and a store that satisfy \<open>Q\<close>.\<close>

definition returns :: "(pstore \<Rightarrow> bool) \<Rightarrow> 'a op \<Rightarrow> ('a \<Rightarrow> pstore \<Rightarrow> bool) \<Rightarrow> bool" where
  "returns P m Q \<longleftrightarrow> (\<forall>s. P s \<longrightarrow> (\<exists>a s'. m s = (Inr a, s') \<and> Q a s'))"

lemma returns_bind:
  assumes "returns P m R" and "\<And>a. returns (R a) (f a) Q"
  shows "returns P (op_bind m f) Q"
  unfolding returns_def
proof (intro allI impI)
  fix s assume "P s"
  then obtain a s1 where m: "m s = (Inr a, s1)" and r: "R a s1" using assms(1) by (auto simp: returns_def)
  obtain b s2 where "f a s1 = (Inr b, s2)" "Q b s2" using assms(2) [of a] r by (auto simp: returns_def)
  then show "\<exists>b s'. op_bind m f s = (Inr b, s') \<and> Q b s'" using m by (simp add: op_bind_def)
qed

lemma returns_then:
  "returns P m (\<lambda>_. R) \<Longrightarrow> returns R k Q \<Longrightarrow> returns P (op_then m k) Q"
  unfolding op_then_def by (rule returns_bind)

lemma returns_when:
  "(b \<Longrightarrow> returns P m (\<lambda>_. P)) \<Longrightarrow> returns P (op_when b m) (\<lambda>_. P)"
  by (auto simp: op_when_def returns_def op_return_def)

lemma returns_lift: "(\<And>s. P s \<Longrightarrow> \<exists>a. r = Inr a \<and> Q a s) \<Longrightarrow> returns P (op_lift r) Q"
  by (auto simp: returns_def op_lift_def)

text \<open>
  The store is typed, and only the records of lessons in \<open>L\<close>, which came from a file, may lack
  fields; and the record of lesson \<open>lid\<close> is full.
\<close>

definition typed_store :: "pystr set \<Rightarrow> pstore \<Rightarrow> bool" where
  "typed_store L s \<longleftrightarrow> typed_state (mem s) \<and>
     (\<forall>k r. dget (p_lessons (mem s)) k = Some r \<longrightarrow> k \<notin> L \<longrightarrow> full_record r)"

definition with_record :: "pystr set \<Rightarrow> pystr \<Rightarrow> pstore \<Rightarrow> bool" where
  "with_record L lid s \<longleftrightarrow> typed_store L s \<and> (\<exists>r. dget (p_lessons (mem s)) lid = Some r \<and> full_record r)"

lemma typed_put:
  "typed_store L s \<Longrightarrow> full_record r \<Longrightarrow> typed_store L (snd (put_record lid r s))"
  by (auto simp: typed_store_def typed_state_def full_record_def put_record_def dget_dset)

lemma returns_lesson_record: "returns (typed_store L) (lesson_record lid) (\<lambda>_. with_record L lid)"
  unfolding returns_def
proof (intro allI impI)
  fix s assume s: "typed_store L s"
  then have full: "full_record (filled_record lid (p_lessons (mem s)))"
    by (intro filled_record_full) (auto simp: typed_store_def typed_state_def)
  then have "typed_store L (snd (put_record lid (filled_record lid (p_lessons (mem s))) s))"
    using typed_put [OF s] by (simp add: full_record_def)
  with full show "\<exists>a s'. lesson_record lid s = (Inr a, s') \<and> with_record L lid s'"
    by (auto simp: lesson_record_def Let_def with_record_def put_record_def dget_dset)
qed

lemma returns_get_record: "returns (with_record L lid) (get_record lid) (\<lambda>_. with_record L lid)"
  by (auto simp: returns_def get_record_def with_record_def)

lemma returns_get_field:
  assumes "k \<in> set template_keys"
  shows "returns (with_record L lid) (get_field lid k) (\<lambda>v s. with_record L lid s \<and> field_ok k v)"
  using assms
  by (fastforce simp: returns_def get_field_def get_record_def op_bind_def op_lift_def with_record_def
      read_field_def full_record_def typed_record_def)

lemma returns_set_field:
  assumes "field_ok k v"
  shows "returns (with_record L lid) (set_field lid k v) (\<lambda>_. with_record L lid)"
  unfolding returns_def
proof (intro allI impI)
  fix s assume s: "with_record L lid s"
  then obtain r where r: "dget (p_lessons (mem s)) lid = Some r" "full_record r" "typed_store L s"
    by (auto simp: with_record_def)
  have f: "full_record (dset k v r)" by (rule full_record_dset [OF r(2) assms])
  then have "typed_store L (snd (put_record lid (dset k v r) s))"
    using typed_put [OF r(3)] by (simp add: full_record_def)
  with f r show "\<exists>a s'. set_field lid k v s = (Inr a, s') \<and> with_record L lid s'"
    by (auto simp: set_field_def get_record_def op_bind_def put_record_def with_record_def dget_dset)
qed

lemma returns_update_field:
  assumes "k \<in> set template_keys" and "\<And>v. field_ok k v \<Longrightarrow> \<exists>w. f v = Inr w \<and> field_ok k w"
  shows "returns (with_record L lid) (update_field lid k f) (\<lambda>_. with_record L lid)"
  unfolding update_field_def
proof (rule returns_bind [OF returns_get_field [OF assms(1)]])
  fix v
  show "returns (\<lambda>s. with_record L lid s \<and> field_ok k v)
      (op_bind (op_lift (f v)) (\<lambda>w. set_field lid k w)) (\<lambda>_. with_record L lid)"
  proof (cases "field_ok k v")
    case True
    then obtain w where w: "f v = Inr w" "field_ok k w" using assms(2) by blast
    show ?thesis using returns_set_field [OF w(2)] w(1)
      by (auto simp: returns_def op_bind_def op_lift_def)
  qed (simp add: returns_def)
qed

lemma returns_finish:
  "returns (typed_store L) (finish lid) (\<lambda>_ s. typed_store L s \<and> disk s = Some (state_json (mem s)))"
  by (auto simp: returns_def finish_def op_then_def op_bind_def set_last_def save_def typed_store_def
      typed_state_def)

lemma returns_weaken:
  "returns P m Q \<Longrightarrow> (\<And>s. P' s \<Longrightarrow> P s) \<Longrightarrow> (\<And>a s. Q a s \<Longrightarrow> Q' a s) \<Longrightarrow> returns P' m Q'"
  by (fastforce simp: returns_def)

lemma with_record_typed: "with_record L lid s \<Longrightarrow> typed_store L s"
  by (simp add: with_record_def)

lemma returns_finish_record:
  "returns (with_record L lid) (finish lid') (\<lambda>_ s. typed_store L s \<and> disk s = Some (state_json (mem s)))"
  by (rule returns_weaken [OF returns_finish]) (auto dest: with_record_typed)

subsection \<open>The fields the operations touch\<close>

lemma field_ok_simps [simp]:
  "field_ok f_status v \<longleftrightarrow> is_str v" "field_ok f_validations v \<longleftrightarrow> validations_ok v"
  "field_ok f_started_at v" "field_ok f_completed_at v"
  "field_ok f_steps_done v \<longleftrightarrow> id_list_ok v" "field_ok f_quiz_correct v \<longleftrightarrow> id_list_ok v"
  "field_ok f_explain_done v \<longleftrightarrow> id_list_ok v"
  "field_ok f_quiz_attempts v \<longleftrightarrow> counter_ok v" "field_ok f_attempts v \<longleftrightarrow> counter_ok v"
  "field_ok f_hints_used v \<longleftrightarrow> counter_ok v" "field_ok f_baseline v \<longleftrightarrow> counter_ok v"
  by (auto simp: field_ok_def field_defs id_list_fields_def counter_fields_def)

lemma template_key_simps [simp]:
  "f_status \<in> set template_keys" "f_validations \<in> set template_keys" "f_started_at \<in> set template_keys"
  "f_completed_at \<in> set template_keys" "f_steps_done \<in> set template_keys"
  "f_quiz_correct \<in> set template_keys" "f_explain_done \<in> set template_keys"
  "f_quiz_attempts \<in> set template_keys" "f_attempts \<in> set template_keys"
  "f_hints_used \<in> set template_keys" "f_baseline \<in> set template_keys"
  by (simp_all add: template_keys_eq)

lemma counter_okE: "counter_ok v \<Longrightarrow> (\<And>i. v = JInt i \<Longrightarrow> 0 \<le> i \<Longrightarrow> P) \<Longrightarrow> P"
  by (auto simp: counter_ok_def split: json.splits)

lemma id_list_okE: "id_list_ok v \<Longrightarrow> (\<And>xs. v = JList xs \<Longrightarrow> list_all is_str xs \<Longrightarrow> P) \<Longrightarrow> P"
  by (auto simp: id_list_ok_def split: json.splits)

lemma validations_okE:
  "validations_ok v \<Longrightarrow> (\<And>d. v = JObj d \<Longrightarrow> list_all (\<lambda>(k, x). valid_outcome x) d \<Longrightarrow> P) \<Longrightarrow> P"
  by (auto simp: validations_ok_def split: json.splits)

lemma incr_counter: "counter_ok v \<Longrightarrow> \<exists>w. py_incr v = Inr w \<and> counter_ok w"
  by (erule counter_okE) (simp add: py_incr_def counter_ok_def)

lemma append_id: "id_list_ok v \<Longrightarrow> \<exists>w. py_append x v = Inr w \<and> id_list_ok w"
  by (erule id_list_okE) (simp add: py_append_def id_list_ok_def)

lemma in_id_list: "id_list_ok v \<Longrightarrow> \<exists>b. py_in x v = Inr b"
  by (erule id_list_okE) (simp add: py_in_def)

lemma valid_outcome_dict: "valid_outcome v \<Longrightarrow> is_dict v"
  by (cases v) (simp_all add: valid_outcome_def)

lemma outcome_is_dict: "dget d k = Some v \<Longrightarrow> list_all (\<lambda>(k, x). valid_outcome x) d \<Longrightarrow> is_dict v"
  by (auto simp: list_all_iff intro!: valid_outcome_dict dest!: map_of_SomeD)

lemma valid_outcome_simps [simp]: "valid_outcome (outcome_json now b)" "valid_outcome (JObj [])"
  by (simp_all add: valid_outcome_def outcome_json_def get_or_def f_passed_def f_at_def)

lemma put_outcome_ok:
  "validations_ok v \<Longrightarrow> \<exists>w. put_outcome x (outcome_json now b) v = Inr w \<and> validations_ok w"
proof (erule validations_okE)
  fix d assume "v = JObj d" "list_all (\<lambda>(k, x). valid_outcome x) d"
  then show ?thesis using set_dset [of x "outcome_json now b" d]
    by (auto simp: put_outcome_def as_dict_attr_def validations_ok_def list_all_iff)
qed

lemma returns_add_to_list:
  assumes "k \<in> set id_list_fields"
  shows "returns (with_record L lid) (add_to_list lid k x) (\<lambda>_. with_record L lid)"
  unfolding add_to_list_def
proof (rule returns_bind [OF returns_get_field])
  have k: "field_ok k v \<longleftrightarrow> id_list_ok v" for v using assms by (auto simp: id_list_fields_def)
  show "k \<in> set template_keys" using assms by (auto simp: id_list_fields_def)
  fix v
  show "returns (\<lambda>s. with_record L lid s \<and> field_ok k v)
      (op_bind (op_lift (py_in x v)) (\<lambda>there. op_when (\<not> there) (update_field lid k (py_append x))))
      (\<lambda>_. with_record L lid)"
  proof (rule returns_bind [where R = "\<lambda>_. with_record L lid"])
    show "returns (\<lambda>s. with_record L lid s \<and> field_ok k v) (op_lift (py_in x v)) (\<lambda>_. with_record L lid)"
      using in_id_list [of v x] k by (intro returns_lift) auto
    show "returns (with_record L lid) (op_when (\<not> there) (update_field lid k (py_append x)))
        (\<lambda>_. with_record L lid)" for there
      using append_id k \<open>k \<in> set template_keys\<close> by (intro returns_when returns_update_field) auto
  qed
qed

text \<open>Concepts are another section: a lesson's record stays as it is.\<close>

lemma bump_entry_ok: "counts_ok e \<Longrightarrow> \<exists>e'. bump_entry now b e = Inr e' \<and> counts_ok e'"
  by (auto simp: counts_ok_def bump_entry_def read_field_def py_incr_def Let_def dget_dset)

lemma returns_bump_concept: "returns (with_record L lid) (bump_concept now b c) (\<lambda>_. with_record L lid)"
  unfolding returns_def
proof (intro allI impI)
  fix s assume s: "with_record L lid s"
  define cs where "cs = dsetdefault c empty_concept (p_concepts (mem s))"
  have cs: "counts_ok e" if "dget cs k = Some e" for k e
    using s that by (auto simp: cs_def dget_dsetdefault with_record_def typed_store_def typed_state_def
        counts_ok_def empty_concept_def split: if_splits option.splits)
  have "dict_ok (dset c e cs)" for e
    using s by (simp add: cs_def with_record_def typed_store_def typed_state_def)
  moreover obtain e where e: "dget cs c = Some e" by (auto simp: cs_def dget_dsetdefault)
  moreover obtain e' where e': "bump_entry now b e = Inr e'" "counts_ok e'" using bump_entry_ok [OF cs [OF e]] by blast
  ultimately show "\<exists>a s'. bump_concept now b c s = (Inr a, s') \<and> with_record L lid s'"
    using s cs by (auto simp: bump_concept_def cs_def [symmetric] with_record_def typed_store_def
        typed_state_def dget_dset)
qed

lemma returns_bump_concepts: "returns (with_record L lid) (bump_concepts now b cs) (\<lambda>_. with_record L lid)"
proof (induction cs)
  case (Cons c cs)
  show ?case unfolding bump_concepts.simps by (rule returns_then [OF returns_bump_concept Cons])
qed (simp add: returns_def op_return_def)

subsection \<open>Each operation\<close>

definition saved :: "pystr set \<Rightarrow> pstore \<Rightarrow> bool" where
  "saved L s \<longleftrightarrow> typed_store L s \<and> disk s = Some (state_json (mem s))"

lemma returns_finish_saved: "returns (with_record L lid) (finish lid') (\<lambda>_. saved L)"
  by (rule returns_weaken [OF returns_finish_record]) (auto simp: saved_def)

lemma interview_total_pos: "typed_state st \<Longrightarrow> 0 \<le> interview_total st"
  unfolding interview_total_def
  by (intro sum_list_nonneg)
    (fastforce simp: typed_state_def interview_ok_def counts_ok_def entry_count_def get_or_def dset_in)

lemma returns_mark_started: "returns (typed_store L) (mark_started now lid) (\<lambda>_. saved L)"
proof -
  have baseline: "returns (with_record L lid)
      (\<lambda>s. set_field lid f_baseline (JInt (interview_total (mem s))) s) (\<lambda>_. with_record L lid)"
    unfolding returns_def
  proof (intro allI impI)
    fix s assume s: "with_record L lid s"
    then have "field_ok f_baseline (JInt (interview_total (mem s)))"
      using interview_total_pos by (simp add: counter_ok_def with_record_def typed_store_def)
    from returns_set_field [OF this] s
    show "\<exists>a s'. set_field lid f_baseline (JInt (interview_total (mem s))) s = (Inr a, s') \<and> with_record L lid s'"
      by (simp add: returns_def)
  qed
  have set: "returns (with_record L lid) (set_field lid f_started_at (JStr now)) (\<lambda>_. with_record L lid)"
    "returns (with_record L lid) (set_field lid f_status (JStr st_in_progress)) (\<lambda>_. with_record L lid)"
    by (simp_all add: returns_set_field)
  have get: "returns (with_record L lid) (get_field lid k) (\<lambda>_. with_record L lid)" if "k \<in> set template_keys" for k
    by (rule returns_weaken [OF returns_get_field [OF that]]) auto
  show ?thesis unfolding mark_started_def
    by (intro returns_bind [OF returns_lesson_record] returns_bind [OF get] returns_then [OF returns_when]
        returns_then [OF set(1) baseline] set(2) returns_then [OF returns_update_field] returns_finish_saved)
      (simp_all add: incr_counter)
qed

lemma returns_record_step: "returns (typed_store L) (record_step lid b) (\<lambda>_. saved L)"
  unfolding record_step_def
  by (intro returns_bind [OF returns_lesson_record] returns_then [OF returns_add_to_list] returns_finish_saved)
    (simp add: id_list_fields_def)

lemma returns_record_quiz: "returns (typed_store L) (record_quiz now lid b correct cs) (\<lambda>_. saved L)"
  unfolding record_quiz_def
  by (intro returns_bind [OF returns_lesson_record] returns_then [OF returns_update_field]
      returns_then [OF returns_when] returns_add_to_list returns_then [OF returns_bump_concepts]
      returns_finish_saved)
    (simp_all add: id_list_fields_def incr_counter)

lemma returns_record_explain: "returns (typed_store L) (record_explain now lid b passed cs) (\<lambda>_. saved L)"
  unfolding record_explain_def
  by (intro returns_bind [OF returns_lesson_record] returns_then [OF returns_when] returns_add_to_list
      returns_then [OF returns_bump_concepts] returns_finish_saved)
    (simp_all add: id_list_fields_def)

lemma returns_record_validation:
  "returns (typed_store L) (record_validation now lid b passed mandatory cs historical) (\<lambda>_. saved L)"
proof -
  let ?rest = "op_then (update_field lid f_validations (put_outcome b (outcome_json now passed)))
       (op_then (op_when (cs \<noteq> [] \<and> mandatory) (bump_concepts now passed cs))
       (op_bind (get_record lid) (\<lambda>r.
       op_then
         (op_when (\<not> passed \<and> mandatory \<and> get_or JNull r f_status = JStr st_complete)
           (op_then (set_field lid f_status (JStr st_in_progress)) (set_field lid f_completed_at JNull)))
         (finish lid))))"
  have rest: "returns (with_record L lid) ?rest (\<lambda>_. saved L)"
    by (intro returns_then [OF returns_update_field] returns_then [OF returns_when]
        returns_bind [OF returns_get_record] returns_bump_concepts
        returns_then [OF returns_set_field] returns_set_field returns_finish_saved)
      (simp_all add: put_outcome_ok)
  show ?thesis unfolding record_validation_def
  proof (rule returns_bind [OF returns_lesson_record], rule returns_bind [OF returns_get_field])
    fix v :: json
    let ?P = "\<lambda>s. with_record L lid s \<and> field_ok f_validations v"
    show "returns ?P
      (op_bind (op_lift (res_bind (as_dict_attr v) (\<lambda>d. Inr (get_or (JObj []) d b)))) (\<lambda>previous.
       op_bind (if historical
              then op_lift (res_bind (as_dict_attr previous) (\<lambda>oc. Inr (get_or JNull oc f_passed = JBool True)))
              else op_return False) (\<lambda>stands. if stands then finish lid else ?rest))) (\<lambda>_. saved L)"
    proof (rule returns_bind [where R = "\<lambda>previous s. with_record L lid s \<and> is_dict previous"])
      show "returns ?P (op_lift (res_bind (as_dict_attr v) (\<lambda>d. Inr (get_or (JObj []) d b))))
          (\<lambda>previous s. with_record L lid s \<and> is_dict previous)"
        by (intro returns_lift)
          (auto elim!: validations_okE simp: as_dict_attr_def get_or_def intro: outcome_is_dict
            split: option.splits)
      show "returns (\<lambda>s. with_record L lid s \<and> is_dict previous)
        (op_bind (if historical
              then op_lift (res_bind (as_dict_attr previous) (\<lambda>oc. Inr (get_or JNull oc f_passed = JBool True)))
              else op_return False) (\<lambda>stands. if stands then finish lid else ?rest)) (\<lambda>_. saved L)" for previous
      proof (rule returns_bind [where R = "\<lambda>_. with_record L lid"])
        show "returns (\<lambda>s. with_record L lid s \<and> is_dict previous)
          (if historical
              then op_lift (res_bind (as_dict_attr previous) (\<lambda>oc. Inr (get_or JNull oc f_passed = JBool True)))
              else op_return False) (\<lambda>_. with_record L lid)"
          by (auto simp: returns_def op_lift_def op_return_def as_dict_attr_def is_dict_iff)
        show "returns (with_record L lid) (if stands then finish lid else ?rest) (\<lambda>_. saved L)" for stands
          using rest returns_finish_saved by auto
      qed
    qed
  qed simp
qed

lemma returns_record_hint:
  "returns (typed_store L) (record_hint lid index) (\<lambda>n s. typed_store L s \<and> index < n)"
  unfolding record_hint_def
proof (rule returns_bind [OF returns_lesson_record], rule returns_bind [OF returns_get_field])
  fix v :: json
  let ?P = "\<lambda>s. with_record L lid s \<and> field_ok f_hints_used v"
  show "returns ?P (op_bind (op_lift (py_int v)) (\<lambda>u. let revealed = max u (index + 1) in
      op_then (op_when (\<not> py_eq (JInt revealed) v) (op_then (set_field lid f_hints_used (JInt revealed)) save))
        (op_return revealed))) (\<lambda>n s. typed_store L s \<and> index < n)"
  proof (rule returns_bind [where R = "\<lambda>u s. with_record L lid s \<and> 0 \<le> u"])
    show "returns ?P (op_lift (py_int v)) (\<lambda>u s. with_record L lid s \<and> 0 \<le> u)"
      by (intro returns_lift) (auto elim!: counter_okE simp: py_int_def)
    fix u :: int
    let ?n = "max u (index + 1)"
    have save: "returns (with_record L lid) save (\<lambda>_. with_record L lid)"
      by (auto simp: returns_def save_def with_record_def typed_store_def)
    have "returns (with_record L lid)
        (op_when (\<not> py_eq (JInt ?n) v) (op_then (set_field lid f_hints_used (JInt ?n)) save))
        (\<lambda>_. with_record L lid)" if "0 \<le> u"
      using that by (intro returns_when returns_then [OF returns_set_field save]) (simp add: counter_ok_def)
    then have "returns (\<lambda>s. with_record L lid s \<and> 0 \<le> u)
        (op_when (\<not> py_eq (JInt ?n) v) (op_then (set_field lid f_hints_used (JInt ?n)) save))
        (\<lambda>_. with_record L lid)" by (auto simp: returns_def)
    then show "returns (\<lambda>s. with_record L lid s \<and> 0 \<le> u) (let revealed = ?n in
      op_then (op_when (\<not> py_eq (JInt revealed) v) (op_then (set_field lid f_hints_used (JInt revealed)) save))
        (op_return revealed)) (\<lambda>n s. typed_store L s \<and> index < n)"
      unfolding Let_def
      by (rule returns_then) (auto simp: returns_def op_return_def with_record_def)
  qed
qed simp

text \<open>Interview answers touch no lesson record.\<close>

lemma typed_set_interview:
  "typed_store L s \<Longrightarrow> interview_ok e \<Longrightarrow> typed_store L (snd (set_interview qid e s))"
  by (auto simp: typed_store_def typed_state_def set_interview_def dget_dset)

lemma returns_set_interview: "interview_ok e \<Longrightarrow> returns (typed_store L) (set_interview qid e) (\<lambda>_. typed_store L)"
  using typed_set_interview by (simp add: returns_def set_interview_def)

lemma bump_typed: "typed_store L s \<Longrightarrow> \<exists>s'. bump_concepts now b cs s = (Inr (), s') \<and> typed_store L s'"
proof (induction cs arbitrary: s)
  case (Cons c cs)
  define ps where "ps = dsetdefault c empty_concept (p_concepts (mem s))"
  have ps: "counts_ok e" if "dget ps k = Some e" for k e
    using Cons.prems that by (auto simp: ps_def dget_dsetdefault typed_store_def typed_state_def
        counts_ok_def empty_concept_def split: if_splits option.splits)
  obtain e where e: "dget ps c = Some e" by (auto simp: ps_def dget_dsetdefault)
  obtain e' where e': "bump_entry now b e = Inr e'" "counts_ok e'" using bump_entry_ok [OF ps [OF e]] by blast
  have "dict_ok (dset c e' ps)" using Cons.prems by (simp add: ps_def typed_store_def typed_state_def)
  then obtain s1 where "bump_concept now b c s = (Inr (), s1)" "typed_store L s1"
    using Cons.prems ps e e' by (auto simp: bump_concept_def ps_def [symmetric] typed_store_def
        typed_state_def dget_dset)
  with Cons.IH show ?case by (simp add: op_then_def op_bind_def)
qed (simp add: op_return_def)

lemma interview_dset:
  "interview_ok e \<Longrightarrow> counter_ok v \<Longrightarrow> k = f_correct \<or> k = f_incorrect \<or> k = f_streak \<Longrightarrow>
     interview_ok (dset k v e)"
  by (elim counter_okE) (auto simp: interview_ok_def counts_ok_def dget_dset counter_ok_def)

text \<open>What \<open>record_interview\<close> does to its entry before it moves on to the concepts.\<close>

lemma record_interview_run:
  assumes s: "typed_store L s"
    and e_def: "e = (case dget (p_interview (mem s)) qid of None \<Rightarrow> empty_interview | Some e \<Rightarrow> e)"
    and k_def: "k = (if correct then f_correct else f_incorrect)"
  shows "\<exists>i m. interview_ok e \<and> dget e k = Some (JInt i) \<and> 0 \<le> i \<and> 0 \<le> m \<and>
    record_interview now qid correct cs s =
      op_then (op_when (cs \<noteq> []) (bump_concepts now correct cs)) save
        (snd (set_interview qid (dset f_streak (JInt m) (dset k (JInt (i + 1)) e))
          (snd (set_interview qid (dset k (JInt (i + 1)) e) (snd (set_interview qid e s))))))"
proof -
  have e: "interview_ok e"
    using s by (auto simp: e_def interview_ok_def counts_ok_def empty_interview_def counter_ok_def
        typed_store_def typed_state_def split: option.splits)
  obtain i where i: "dget e k = Some (JInt i)" "0 \<le> i"
    using e by (cases correct) (auto simp: k_def interview_ok_def counts_ok_def)
  define e1 where "e1 = dset k (JInt (i + 1)) e"
  have e1: "interview_ok e1" unfolding e1_def k_def using e i(2) by (intro interview_dset) (auto simp: counter_ok_def)
  obtain n where n: "py_int (get_or (JInt 0) e1 f_streak) = Inr n" "0 \<le> n"
  proof (cases "dget e1 f_streak")
    case None
    then show ?thesis using that [of 0] by (simp add: get_or_def py_int_def)
  next
    case (Some v)
    then have "counter_ok v" using e1 by (simp add: interview_ok_def)
    then show ?thesis using Some that by (elim counter_okE) (simp add: get_or_def py_int_def)
  qed
  define m where "m = (if correct then n + 1 else 0)"
  have "record_interview now qid correct cs s =
      op_then (op_when (cs \<noteq> []) (bump_concepts now correct cs)) save
        (snd (set_interview qid (dset f_streak (JInt m) e1) (snd (set_interview qid e1 (snd (set_interview qid e s))))))"
  proof (cases correct)
    case True
    then have "dset f_correct (JInt (i + 1)) e = e1" by (simp add: e1_def k_def)
    then show ?thesis using True i(1) n(1)
      by (simp add: record_interview_def e_def [symmetric] Let_def op_then_def op_bind_def
          set_interview_def op_lift_def read_field_def py_incr_def m_def k_def)
  next
    case False
    then have "dset f_incorrect (JInt (i + 1)) e = e1" by (simp add: e1_def k_def)
    then show ?thesis using False i(1)
      by (simp add: record_interview_def e_def [symmetric] Let_def op_then_def op_bind_def
          set_interview_def op_lift_def read_field_def py_incr_def m_def op_return_def k_def)
  qed
  then show ?thesis using e i n(2) by (intro exI [of _ i] exI [of _ m]) (simp add: m_def e1_def)
qed

lemma returns_record_interview: "returns (typed_store L) (record_interview now qid correct cs) (\<lambda>_. saved L)"
  unfolding returns_def
proof (intro allI impI)
  fix s assume s: "typed_store L s"
  define e where "e = (case dget (p_interview (mem s)) qid of None \<Rightarrow> empty_interview | Some e \<Rightarrow> e)"
  define k where "k = (if correct then f_correct else f_incorrect)"
  obtain i m where e: "interview_ok e" and i: "0 \<le> i" and m: "0 \<le> m"
    and run: "record_interview now qid correct cs s =
      op_then (op_when (cs \<noteq> []) (bump_concepts now correct cs)) save
        (snd (set_interview qid (dset f_streak (JInt m) (dset k (JInt (i + 1)) e))
          (snd (set_interview qid (dset k (JInt (i + 1)) e) (snd (set_interview qid e s))))))"
    using record_interview_run [OF s e_def k_def] by blast
  let ?s3 = "snd (set_interview qid (dset f_streak (JInt m) (dset k (JInt (i + 1)) e))
          (snd (set_interview qid (dset k (JInt (i + 1)) e) (snd (set_interview qid e s)))))"
  have e1: "interview_ok (dset k (JInt (i + 1)) e)"
    unfolding k_def using e i by (intro interview_dset) (auto simp: counter_ok_def)
  have e2: "interview_ok (dset f_streak (JInt m) (dset k (JInt (i + 1)) e))"
    by (rule interview_dset [OF e1]) (simp_all add: counter_ok_def m)
  have typed: "typed_store L ?s3" by (intro typed_set_interview s e e1 e2)
  obtain s4 where s4: "op_when (cs \<noteq> []) (bump_concepts now correct cs) ?s3 = (Inr (), s4)" "typed_store L s4"
    using bump_typed [OF typed, of now correct cs] typed
    by (cases "cs = []") (auto simp: op_when_def op_return_def)
  with run show "\<exists>a s'. record_interview now qid correct cs s = (Inr a, s') \<and> saved L s'"
    by (simp add: op_then_def op_bind_def save_def saved_def typed_store_def)
qed

end
