(* ===== verification/Progress_Gates.thy ===== *)
theory Progress_Gates
  imports Progress
begin

text \<open>
  When a lesson is complete (\<open>learning/server/progress.py\<close>): the recursive evaluation of the gates
  with its set of lessons already seen, \<open>mark_complete\<close>, \<open>completion_map\<close>, \<open>resume_lesson_id\<close> and
  \<open>concept_mastery\<close>.

  \<open>certified\<close> is the specification: the least predicate that holds of a lesson marked complete
  whose own gates hold and whose prerequisites are certified.  On a curriculum the loader accepts,
  the code's evaluation computes it.
\<close>

section \<open>The gates of one lesson\<close>

datatype missing =
    Lesson_unavailable | Not_started | Missing_prerequisite pystr | Missing_validation pystr
  | Missing_quiz pystr | Missing_explain pystr

definition outcome_passed :: "obj \<Rightarrow> pystr \<Rightarrow> bool" where
  "outcome_passed d bid = (case dget d bid of
     Some (JObj oc) \<Rightarrow> get_or JNull oc f_passed = JBool True | _ \<Rightarrow> False)"

fun missing_validations :: "json \<Rightarrow> pystr list \<Rightarrow> py_exc + missing list" where
  "missing_validations validations [] = Inr []"
| "missing_validations validations (b # bs) =
     res_bind (as_dict_attr validations) (\<lambda>d. res_bind (missing_validations validations bs) (\<lambda>ms.
       Inr (if outcome_passed d b then ms else Missing_validation b # ms)))"

text \<open>The ids not in the list \<open>record[k]\<close>.\<close>

fun missing_ids :: "(pystr \<Rightarrow> missing) \<Rightarrow> obj \<Rightarrow> pystr \<Rightarrow> pystr list \<Rightarrow> py_exc + missing list" where
  "missing_ids mk r k [] = Inr []"
| "missing_ids mk r k (b # bs) =
     res_bind (read_field r k) (\<lambda>v. res_bind (py_in b v) (\<lambda>there.
     res_bind (missing_ids mk r k bs) (\<lambda>ms. Inr (if there then ms else mk b # ms))))"

definition own_missing :: "lesson \<Rightarrow> obj \<Rightarrow> py_exc + missing list" where
  "own_missing l r =
     res_bind (read_field r f_validations) (\<lambda>validations.
     res_bind (missing_validations validations (map block_id (mandatory_validators l))) (\<lambda>vs.
     res_bind (missing_ids Missing_quiz r f_quiz_correct (required_quiz_ids l)) (\<lambda>qs.
     res_bind (missing_ids Missing_explain r f_explain_done (required_explain_ids l)) (\<lambda>es.
       Inr (vs @ qs @ es)))))"

section \<open>The whole chain\<close>

definition marked_complete :: "progress \<Rightarrow> pystr \<Rightarrow> bool" where
  "marked_complete st lid = (case dget (p_lessons st) lid of
     None \<Rightarrow> False | Some r \<Rightarrow> get_or JNull r f_status = JStr st_complete)"

definition known_lesson :: "curriculum option \<Rightarrow> pystr \<Rightarrow> lesson option" where
  "known_lesson cur lid = (case cur of None \<Rightarrow> None | Some c \<Rightarrow> dget (c_lessons c) lid)"

text \<open>What \<open>_lesson_is_complete_locked\<close> leaves in the set it is given.\<close>

definition seen_after :: "progress \<Rightarrow> curriculum option \<Rightarrow> pystr \<Rightarrow> pystr list \<Rightarrow> pystr list" where
  "seen_after st cur lid seen =
     (if marked_complete st lid \<and> known_lesson cur lid \<noteq> None \<and> lid \<notin> set seen then lid # seen else seen)"

text \<open>The recursion descends only into known lessons it has not seen.\<close>

definition unseen :: "curriculum option \<Rightarrow> pystr list \<Rightarrow> nat" where
  "unseen cur seen = (case cur of None \<Rightarrow> 0 | Some c \<Rightarrow> card (set (dkeys (c_lessons c)) - set seen))"

lemma unseen_mono: "set seen \<subseteq> set seen' \<Longrightarrow> unseen cur seen' \<le> unseen cur seen"
  by (auto simp: unseen_def intro!: card_mono split: option.splits)

lemma unseen_less:
  assumes "known_lesson cur lid = Some l" and "lid \<notin> set seen"
  shows "unseen cur (lid # seen) < unseen cur seen"
proof -
  obtain c where c: "cur = Some c" "dget (c_lessons c) lid = Some l"
    using assms(1) by (auto simp: known_lesson_def split: option.splits)
  have "lid \<in> set (dkeys (c_lessons c))"
  proof (rule ccontr)
    assume "lid \<notin> set (dkeys (c_lessons c))"
    then have "dget (c_lessons c) lid = None" by (simp only: dget_None not_False_eq_True)
    with c(2) show False by simp
  qed
  with assms(2) have "set (dkeys (c_lessons c)) - set (lid # seen) \<subset> set (dkeys (c_lessons c)) - set seen"
    by auto
  then show ?thesis unfolding unseen_def c(1) option.case by (intro psubset_card_mono) simp_all
qed

lemma seen_after_mono: "set seen \<subseteq> set (seen_after st cur p seen)"
  by (auto simp: seen_after_def)

function
  is_complete :: "progress \<Rightarrow> curriculum option \<Rightarrow> pystr \<Rightarrow> pystr list \<Rightarrow> py_exc + bool" and
  completion :: "progress \<Rightarrow> curriculum option \<Rightarrow> lesson \<Rightarrow> pystr list \<Rightarrow> py_exc + bool \<times> missing list" and
  missing_prereqs :: "progress \<Rightarrow> curriculum option \<Rightarrow> pystr list \<Rightarrow> pystr list \<Rightarrow> py_exc + missing list"
where
  "is_complete st cur lid seen =
     (if \<not> marked_complete st lid then Inr False
      else if cur = None \<or> lid \<in> set seen then Inr True
      else case known_lesson cur lid of
          None \<Rightarrow> Inr True
        | Some l \<Rightarrow> res_bind (completion st cur l (lid # seen)) (\<lambda>(b, _). Inr b))"
| "completion st cur l seen =
     (if l_status l = s_unavailable then Inr (False, [Lesson_unavailable])
      else case dget (p_lessons st) (l_id l) of
          None \<Rightarrow> Inr (False, [Not_started])
        | Some r \<Rightarrow>
            res_bind (missing_prereqs st cur (l_prereqs l) (l_id l # seen)) (\<lambda>ps.
            res_bind (own_missing l r) (\<lambda>os.
              Inr (ps @ os = [], ps @ os))))"
| "missing_prereqs st cur [] seen = Inr []"
| "missing_prereqs st cur (p # ps) seen =
     res_bind (is_complete st cur p seen) (\<lambda>b.
     res_bind (missing_prereqs st cur ps (seen_after st cur p seen)) (\<lambda>ms.
       Inr (if b then ms else Missing_prerequisite p # ms)))"
  by pat_completeness auto

termination
proof (relation "measures
    [\<lambda>x. case x of Inl (st, cur, lid, seen) \<Rightarrow> unseen cur seen
       | Inr (Inl (st, cur, l, seen)) \<Rightarrow> unseen cur seen
       | Inr (Inr (st, cur, ps, seen)) \<Rightarrow> unseen cur seen,
     \<lambda>x. case x of Inl _ \<Rightarrow> 0 | Inr (Inl _) \<Rightarrow> 2 | Inr (Inr _) \<Rightarrow> 1,
     \<lambda>x. case x of Inr (Inr (st, cur, ps, seen)) \<Rightarrow> length ps | _ \<Rightarrow> 0]", goal_cases)
  case (2 st cur lid seen l)
  then show ?case using unseen_less by simp
next
  case (3 st cur l seen r)
  have "unseen cur (l_id l # seen) \<le> unseen cur seen" by (rule unseen_mono) auto
  then show ?case by auto
next
  case (5 st cur p ps seen b)
  have "unseen cur (seen_after st cur p seen) \<le> unseen cur seen" by (rule unseen_mono [OF seen_after_mono])
  then show ?case by auto
qed auto

declare is_complete.simps [simp del] completion.simps [simp del]

section \<open>The specification\<close>

definition has_passed :: "obj \<Rightarrow> pystr \<Rightarrow> bool" where
  "has_passed r bid \<longleftrightarrow> (case dget r f_validations of
     Some (JObj d) \<Rightarrow> (case dget d bid of Some (JObj oc) \<Rightarrow> dget oc f_passed = Some (JBool True) | _ \<Rightarrow> False)
   | _ \<Rightarrow> False)"

definition has_id :: "obj \<Rightarrow> pystr \<Rightarrow> pystr \<Rightarrow> bool" where
  "has_id r k bid \<longleftrightarrow> (case dget r k of Some (JList xs) \<Rightarrow> JStr bid \<in> set xs | _ \<Rightarrow> False)"

text \<open>The record shows everything the lesson's blocks ask for.\<close>

definition record_suffices :: "lesson \<Rightarrow> obj \<Rightarrow> bool" where
  "record_suffices l r \<longleftrightarrow>
     list_all (\<lambda>b. has_passed r (block_id b)) (mandatory_validators l) \<and>
     list_all (has_id r f_quiz_correct) (required_quiz_ids l) \<and>
     list_all (has_id r f_explain_done) (required_explain_ids l)"

definition gates_hold :: "progress \<Rightarrow> lesson \<Rightarrow> bool" where
  "gates_hold st l \<longleftrightarrow> l_status l \<noteq> s_unavailable \<and>
     (case dget (p_lessons st) (l_id l) of None \<Rightarrow> False | Some r \<Rightarrow> record_suffices l r)"

inductive certified :: "progress \<Rightarrow> curriculum \<Rightarrow> pystr \<Rightarrow> bool" for st c where
  certify: "marked_complete st lid \<Longrightarrow> dget (c_lessons c) lid = Some l \<Longrightarrow> gates_hold st l \<Longrightarrow>
    (\<And>p. p \<in> set (l_prereqs l) \<Longrightarrow> certified st c p) \<Longrightarrow> certified st c lid"

inductive_cases certifiedE: "certified st c lid"

section \<open>Records with every field raise nothing\<close>

lemma full_record_field:
  assumes "full_record r" and "k \<in> set template_keys"
  shows "\<exists>v. dget r k = Some v \<and> field_ok k v"
proof -
  obtain v where "dget r k = Some v" using assms by (cases "dget r k") (auto simp: full_record_def)
  then show ?thesis using assms(1) by (auto simp: full_record_def typed_record_def)
qed

lemma outcome_passed_iff:
  "outcome_passed d bid \<longleftrightarrow> (\<exists>oc. dget d bid = Some (JObj oc) \<and> dget oc f_passed = Some (JBool True))"
  by (auto simp: outcome_passed_def get_or_def split: option.splits json.splits)

lemma missing_validations_exact:
  "\<exists>ms. missing_validations (JObj d) bs = Inr ms \<and> (ms = [] \<longleftrightarrow> list_all (outcome_passed d) bs)"
  by (induction bs) (auto simp: as_dict_attr_def)

lemma missing_ids_exact:
  "full_record r \<Longrightarrow> k \<in> set id_list_fields \<Longrightarrow>
     \<exists>ms. missing_ids mk r k bs = Inr ms \<and> (ms = [] \<longleftrightarrow> list_all (has_id r k) bs)"
proof (induction bs)
  case (Cons b bs)
  have t: "k \<in> set template_keys" and f: "field_ok k v \<longleftrightarrow> id_list_ok v" for v
    using Cons.prems(2) by (auto simp: id_list_fields_def)
  obtain xs where v: "dget r k = Some (JList xs)"
    using full_record_field [OF Cons.prems(1) t] f by (auto elim: id_list_okE)
  then show ?case using Cons by (auto simp: read_field_def py_in_def has_id_def)
qed simp

lemma own_missing_exact:
  assumes r: "full_record r"
  shows "\<exists>ms. own_missing l r = Inr ms \<and> (ms = [] \<longleftrightarrow> record_suffices l r)"
proof -
  obtain d where d: "dget r f_validations = Some (JObj d)"
    using full_record_field [OF r template_key_simps(2)] by (auto elim: validations_okE)
  have passed: "outcome_passed d b = has_passed r b" for b
    using d by (auto simp: outcome_passed_iff has_passed_def split: option.splits json.splits)
  obtain vs where vs: "missing_validations (JObj d) (map block_id (mandatory_validators l)) = Inr vs"
    "vs = [] \<longleftrightarrow> list_all (\<lambda>b. has_passed r (block_id b)) (mandatory_validators l)"
    using missing_validations_exact [of d "map block_id (mandatory_validators l)"]
    by (auto simp: list.pred_map comp_def passed)
  obtain qs where qs: "missing_ids Missing_quiz r f_quiz_correct (required_quiz_ids l) = Inr qs"
    "qs = [] \<longleftrightarrow> list_all (has_id r f_quiz_correct) (required_quiz_ids l)"
    using missing_ids_exact [OF r, of f_quiz_correct] by (auto simp: id_list_fields_def)
  obtain es where es: "missing_ids Missing_explain r f_explain_done (required_explain_ids l) = Inr es"
    "es = [] \<longleftrightarrow> list_all (has_id r f_explain_done) (required_explain_ids l)"
    using missing_ids_exact [OF r, of f_explain_done] by (auto simp: id_list_fields_def)
  have "own_missing l r = Inr (vs @ qs @ es)"
    using d vs(1) qs(1) es(1) by (simp add: own_missing_def read_field_def)
  then show ?thesis using vs(2) qs(2) es(2) by (simp add: record_suffices_def)
qed

lemma gates_total:
  assumes full: "full_state st"
  shows "\<exists>b. is_complete st cur lid seen = Inr b" "\<exists>b ms. completion st cur l seen = Inr (b, ms)"
    "\<exists>ms. missing_prereqs st cur ps seen = Inr ms"
  using full
proof (induction st cur lid seen and st cur l seen and st cur ps seen
    rule: is_complete_completion_missing_prereqs.induct)
  case (1 st cur lid seen)
  show ?case
  proof (cases "\<not> marked_complete st lid \<or> cur = None \<or> lid \<in> set seen \<or> known_lesson cur lid = None")
    case False
    then obtain l where l: "known_lesson cur lid = Some l" by auto
    obtain b ms where "completion st cur l (lid # seen) = Inr (b, ms)"
      using 1(1) [OF _ _ l] False 1(2) by blast
    then show ?thesis using False l by (auto simp: is_complete.simps)
  qed (auto simp: is_complete.simps)
next
  case (2 st cur l seen)
  show ?case
  proof (cases "l_status l = s_unavailable \<or> dget (p_lessons st) (l_id l) = None")
    case False
    then obtain r where r: "dget (p_lessons st) (l_id l) = Some r" by auto
    obtain ps where ps: "missing_prereqs st cur (l_prereqs l) (l_id l # seen) = Inr ps"
      using 2(1) [OF _ r] False 2(2) by auto
    have "full_record r" using 2(2) r by (simp add: full_state_def)
    then obtain os where "own_missing l r = Inr os" using own_missing_exact by blast
    then show ?thesis using False r ps by (subst completion.simps) simp
  qed (auto simp: completion.simps)
next
  case (4 st cur p ps seen)
  obtain b where b: "is_complete st cur p seen = Inr b" using 4(1) 4(3) by blast
  obtain ms where "missing_prereqs st cur ps (seen_after st cur p seen) = Inr ms"
    using 4(2) [OF b] 4(3) by blast
  then show ?case using b by simp
qed simp

section \<open>The evaluation computes the specification\<close>

text \<open>What an accepted curriculum gives the evaluation.\<close>

lemma curriculum_lesson:
  assumes "curriculum_ok known tc c" and "lid \<in> set (c_order c)"
  obtains l where "dget (c_lessons c) lid = Some l" and "l_id l = lid" and "lesson_ok known tc l"
    and "\<And>p. p \<in> set (l_prereqs l) \<Longrightarrow> p \<in> set (c_order c) \<and> position (c_order c) p < position (c_order c) lid"
proof -
  have keys: "dkeys (c_lessons c) = c_order c" using assms(1) by (simp add: curriculum_ok_def)
  obtain l where l: "dget (c_lessons c) lid = Some l"
    using assms(2) by (metis keys dget_None option.exhaust)
  then have "(lid, l) \<in> set (c_lessons c)" by (rule map_of_SomeD)
  then show ?thesis using assms(1) l that by (fastforce simp: curriculum_ok_def)
qed

lemma certified_iff:
  "dget (c_lessons c) lid = Some l \<Longrightarrow>
     certified st c lid \<longleftrightarrow>
       marked_complete st lid \<and> gates_hold st l \<and> (\<forall>p \<in> set (l_prereqs l). certified st c p)"
  by (auto elim: certifiedE intro: certify)

lemma certified_marked: "certified st c lid \<Longrightarrow> marked_complete st lid"
  by (auto elim: certifiedE)

lemma missing_prereqs_exact:
  assumes full: "full_state st"
    and each: "\<And>p seen. p \<in> P \<Longrightarrow> (\<forall>x \<in> set seen. pos x \<le> pos p \<longrightarrow> certified st c x) \<Longrightarrow>
      is_complete st (Some c) p seen = Inr (certified st c p)"
    and below: "\<And>p. p \<in> P \<Longrightarrow> pos p < (n::nat)"
  shows "set ps \<subseteq> P \<Longrightarrow> \<forall>x \<in> set seen. pos x < n \<longrightarrow> certified st c x \<Longrightarrow>
    \<exists>ms. missing_prereqs st (Some c) ps seen = Inr ms \<and> (ms = [] \<longleftrightarrow> (\<forall>p \<in> set ps. certified st c p))"
proof (induction ps arbitrary: seen)
  case (Cons p ps)
  have p: "is_complete st (Some c) p seen = Inr (certified st c p)"
    using Cons.prems below by (intro each) fastforce+
  show ?case
  proof (cases "certified st c p")
    case True
    have "\<forall>x \<in> set (seen_after st (Some c) p seen). pos x < n \<longrightarrow> certified st c x"
      using Cons.prems(2) True by (simp add: seen_after_def)
    from Cons.IH [OF _ this] Cons.prems(1) obtain ms where
      "missing_prereqs st (Some c) ps (seen_after st (Some c) p seen) = Inr ms"
      "ms = [] \<longleftrightarrow> (\<forall>p \<in> set ps. certified st c p)" by auto
    then show ?thesis using p True by simp
  next
    case False
    obtain ms where "missing_prereqs st (Some c) ps (seen_after st (Some c) p seen) = Inr ms"
      using gates_total(3) [OF full] by blast
    then show ?thesis using p False by simp
  qed
qed simp

lemma completion_exact_step:
  assumes full: "full_state st" and id: "l_id l = lid"
    and loop: "\<exists>ms. missing_prereqs st (Some c) (l_prereqs l) (lid # seen) = Inr ms \<and>
      (ms = [] \<longleftrightarrow> (\<forall>p \<in> set (l_prereqs l). certified st c p))"
  shows "\<exists>ms. completion st (Some c) l seen = Inr (ms = [], ms) \<and>
    (ms = [] \<longleftrightarrow> gates_hold st l \<and> (\<forall>p \<in> set (l_prereqs l). certified st c p))"
proof (cases "l_status l = s_unavailable \<or> dget (p_lessons st) lid = None")
  case True
  then show ?thesis using id by (auto simp: completion.simps gates_hold_def)
next
  case False
  then obtain r where r: "dget (p_lessons st) lid = Some r" by auto
  then have "full_record r" using full by (simp add: full_state_def)
  then obtain os where "own_missing l r = Inr os" "os = [] \<longleftrightarrow> record_suffices l r"
    using own_missing_exact by blast
  then show ?thesis using loop False r id by (auto simp: completion.simps gates_hold_def)
qed

lemma is_complete_certified:
  assumes ok: "curriculum_ok known tc c" and full: "full_state st"
  shows "lid \<in> set (c_order c) \<Longrightarrow>
    \<forall>x \<in> set seen. position (c_order c) x \<le> position (c_order c) lid \<longrightarrow> certified st c x \<Longrightarrow>
    is_complete st (Some c) lid seen = Inr (certified st c lid)"
proof (induction "position (c_order c) lid" arbitrary: lid seen rule: less_induct)
  case less
  obtain l where l: "dget (c_lessons c) lid = Some l" "l_id l = lid"
    and pre: "\<And>p. p \<in> set (l_prereqs l) \<Longrightarrow>
      p \<in> set (c_order c) \<and> position (c_order c) p < position (c_order c) lid"
    using curriculum_lesson [OF ok less.prems(1)] by metis
  have known: "known_lesson (Some c) lid = Some l" using l(1) by (simp add: known_lesson_def)
  have "\<exists>ms. missing_prereqs st (Some c) (l_prereqs l) (lid # lid # seen) = Inr ms \<and>
      (ms = [] \<longleftrightarrow> (\<forall>p \<in> set (l_prereqs l). certified st c p))"
    using less.prems(2)
    by (intro missing_prereqs_exact [where P = "set (l_prereqs l)" and pos = "position (c_order c)"
          and n = "position (c_order c) lid"] full less.hyps) (auto dest: pre)
  then obtain ms where ms: "completion st (Some c) l (lid # seen) = Inr (ms = [], ms)"
    "ms = [] \<longleftrightarrow> gates_hold st l \<and> (\<forall>p \<in> set (l_prereqs l). certified st c p)"
    using completion_exact_step [OF full l(2)] by blast
  consider "\<not> marked_complete st lid" | "marked_complete st lid" "lid \<in> set seen"
    | "marked_complete st lid" "lid \<notin> set seen" by blast
  then show ?case
  proof cases
    case 1
    then show ?thesis using certified_marked by (auto simp: is_complete.simps)
  next
    case 2
    then show ?thesis using less.prems(2) by (auto simp: is_complete.simps)
  next
    case 3
    then show ?thesis using ms known certified_iff [OF l(1)] by (auto simp: is_complete.simps)
  qed
qed

lemma completion_certified:
  assumes ok: "curriculum_ok known tc c" and full: "full_state st" and l: "dget (c_lessons c) lid = Some l"
  shows "\<exists>ms. completion st (Some c) l [] = Inr (ms = [], ms) \<and>
    (ms = [] \<longleftrightarrow> gates_hold st l \<and> (\<forall>p \<in> set (l_prereqs l). certified st c p))"
proof -
  have "dget (c_lessons c) lid \<noteq> None" using l by simp
  then have lid: "lid \<in> set (c_order c)" using ok unfolding dget_None by (simp add: curriculum_ok_def)
  obtain l' where l': "dget (c_lessons c) lid = Some l'" "l_id l' = lid"
    and pre: "\<And>p. p \<in> set (l_prereqs l') \<Longrightarrow>
      p \<in> set (c_order c) \<and> position (c_order c) p < position (c_order c) lid"
    using curriculum_lesson [OF ok lid] by metis
  have [simp]: "l' = l" using l l'(1) by simp
  have "\<exists>ms. missing_prereqs st (Some c) (l_prereqs l) (lid # []) = Inr ms \<and>
      (ms = [] \<longleftrightarrow> (\<forall>p \<in> set (l_prereqs l). certified st c p))"
    using pre
    by (intro missing_prereqs_exact [where P = "set (l_prereqs l)" and pos = "position (c_order c)"
          and n = "position (c_order c) lid"] full is_complete_certified [OF ok full]) auto
  then show ?thesis using completion_exact_step [OF full, of l lid] l'(2) by simp
qed

end
