(* ===== verification/Progress_Queries.thy ===== *)
theory Progress_Queries
  imports Progress_Gates
begin

text \<open>
  The operations of \<open>ProgressStore\<close> that rest on the gates (\<open>learning/server/progress.py\<close>):
  \<open>mark_complete\<close>, \<open>completion_map\<close>, \<open>resume_lesson_id\<close>, and the read-only queries
  \<open>validation_passed\<close>, \<open>lesson_status\<close>, \<open>snapshot\<close>, \<open>concept_mastery\<close> and \<open>interview_weights\<close>.
\<close>

section \<open>Completing a lesson\<close>

definition mark_complete :: "pystr \<Rightarrow> lesson \<Rightarrow> curriculum option \<Rightarrow> (bool \<times> missing list) op" where
  "mark_complete now l cur s = (case completion (mem s) cur l [] of
     Inl e \<Rightarrow> (Inl e, s)
   | Inr (holds, ms) \<Rightarrow>
       if \<not> holds then (Inr (False, ms), s)
       else op_bind (lesson_record (l_id l)) (\<lambda>_.
            op_then (set_field (l_id l) f_status (JStr st_complete))
            (op_then (set_field (l_id l) f_completed_at (JStr now))
            (op_then save (op_return (True, []))))) s)"

section \<open>Where the learner is\<close>

definition completion_map :: "progress \<Rightarrow> curriculum \<Rightarrow> py_exc + bool dict" where
  "completion_map st c =
     res_map (\<lambda>lid. res_bind (is_complete st (Some c) lid []) (\<lambda>b. Inr (lid, b))) (c_order c)"

definition is_actionable :: "curriculum \<Rightarrow> bool dict \<Rightarrow> pystr \<Rightarrow> bool" where
  "is_actionable c cm lid = (case dget (c_lessons c) lid of
     None \<Rightarrow> False
   | Some l \<Rightarrow> l_status l \<noteq> s_unavailable \<and> dget cm lid \<noteq> Some True \<and>
       list_all (\<lambda>p. dget cm p = Some True) (l_prereqs l))"

definition first_actionable :: "curriculum \<Rightarrow> bool dict \<Rightarrow> py_exc + pystr" where
  "first_actionable c cm = (case List.find (is_actionable c cm) (c_order c) of
     Some lid \<Rightarrow> Inr lid
   | None \<Rightarrow> if c_order c = [] then Inl IndexError else Inr (last (c_order c)))"

definition resume_lesson_id :: "progress \<Rightarrow> curriculum \<Rightarrow> py_exc + pystr" where
  "resume_lesson_id st c =
     res_bind (completion_map st c) (\<lambda>cm.
       case p_last st of
         JStr lid \<Rightarrow> if is_actionable c cm lid then Inr lid else first_actionable c cm
       | _ \<Rightarrow> first_actionable c cm)"

section \<open>Reading single values\<close>

definition validation_passed :: "progress \<Rightarrow> pystr \<Rightarrow> pystr \<Rightarrow> py_exc + bool" where
  "validation_passed st lid bid =
     (let r = (case dget (p_lessons st) lid of None \<Rightarrow> [] | Some r \<Rightarrow> r)
      in res_bind (as_dict_attr (get_or (JObj []) r f_validations)) (\<lambda>d. Inr (outcome_passed d bid)))"

text \<open>\<open>pr\<close> is \<open>str\<close> of a value that is not a string, as in the curriculum loader.\<close>

definition lesson_status :: "(json \<Rightarrow> pystr) \<Rightarrow> progress \<Rightarrow> lesson \<Rightarrow> py_exc + pystr" where
  "lesson_status pr st l = (case dget (p_lessons st) (l_id l) of
     None \<Rightarrow> Inr st_not_started
   | Some r \<Rightarrow> res_bind (read_field r f_status) (\<lambda>v. Inr (py_str pr v)))"

text \<open>\<open>fr\<close> is \<open>float.__repr__\<close>, as in the serialiser.\<close>

definition snapshot :: "nat \<Rightarrow> nat \<Rightarrow> (pyfloat \<Rightarrow> pystr) \<Rightarrow> progress \<Rightarrow> py_exc + json" where
  "snapshot cap depth fr st = loads (builtin_int cap) depth (dump fr None 0 (state_json st))"

section \<open>Concept mastery\<close>

text \<open>\<open>float(x)\<close> of a rational: the nearest binary64 value, \<open>OverflowError\<close> beyond the range.\<close>

definition to_double :: "rat \<Rightarrow> py_exc + rat" where
  "to_double x = (case round_double x of Fin r \<Rightarrow> Inr r | _ \<Rightarrow> Inl OverflowError)"

text \<open>The value of a float literal.\<close>

definition literal_double :: "rat \<Rightarrow> rat" where
  "literal_double x = (case round_double x of Fin r \<Rightarrow> r | _ \<Rightarrow> 0)"

record mastery =
  m_correct :: int
  m_incorrect :: int
  m_score :: "rat option"
  m_weak :: bool

definition entry_mastery :: "obj \<Rightarrow> py_exc + mastery" where
  "entry_mastery e =
     res_bind (py_int (get_or (JInt 0) e f_correct)) (\<lambda>correct.
     res_bind (py_int (get_or (JInt 0) e f_incorrect)) (\<lambda>incorrect.
       let total = correct + incorrect
       in if total = 0
          then Inr \<lparr>m_correct = correct, m_incorrect = incorrect, m_score = None, m_weak = False\<rparr>
          else res_bind (to_double (of_int correct / of_int total)) (\<lambda>score.
               Inr \<lparr>m_correct = correct, m_incorrect = incorrect, m_score = Some score,
                    m_weak = (0 < total \<and> score < literal_double (7 / 10))\<rparr>)))"

definition concept_mastery :: "progress \<Rightarrow> pystr list \<Rightarrow> py_exc + mastery dict" where
  "concept_mastery st concepts =
     res_bind (res_map (\<lambda>c. res_bind (entry_mastery (case dget (p_concepts st) c of None \<Rightarrow> [] | Some e \<Rightarrow> e))
       (\<lambda>m. Inr (c, m))) concepts) (\<lambda>ms. Inr (dict_of ms))"

section \<open>Interview weights\<close>

fun f_add :: "pyfloat \<Rightarrow> pyfloat \<Rightarrow> pyfloat" where
  "f_add (Fin a) (Fin b) = round_double (a + b)"
| "f_add NaN _ = NaN"
| "f_add _ NaN = NaN"
| "f_add PInf NInf = NaN"
| "f_add NInf PInf = NaN"
| "f_add PInf _ = PInf"
| "f_add _ PInf = PInf"
| "f_add NInf _ = NInf"
| "f_add _ NInf = NInf"

text \<open>\<open>x * f\<close> for a finite \<open>f\<close>.\<close>

definition f_scale :: "pyfloat \<Rightarrow> rat \<Rightarrow> pyfloat" where
  "f_scale x f = (case x of
     Fin a \<Rightarrow> round_double (a * f)
   | NaN \<Rightarrow> NaN
   | PInf \<Rightarrow> if f = 0 then NaN else if 0 < f then PInf else NInf
   | NInf \<Rightarrow> if f = 0 then NaN else if 0 < f then NInf else PInf)"

text \<open>\<open>max(x, m)\<close> for a finite \<open>m\<close>: \<open>x\<close> unless \<open>m > x\<close>.\<close>

definition f_max :: "pyfloat \<Rightarrow> rat \<Rightarrow> pyfloat" where
  "f_max x m = (case x of Fin a \<Rightarrow> if a < m then Fin m else x | NInf \<Rightarrow> Fin m | _ \<Rightarrow> x)"

text \<open>\<open>float(v)\<close>; the loader leaves no string where the code converts.\<close>

definition py_float :: "json \<Rightarrow> py_exc + pyfloat" where
  "py_float v = (case as_int v of
     Some i \<Rightarrow> res_bind (to_double (of_int i)) (\<lambda>r. Inr (Fin r))
   | None \<Rightarrow> (case v of JFloat f \<Rightarrow> Inr f | JStr _ \<Rightarrow> Inl ValueError | _ \<Rightarrow> Inl TypeError))"

definition MIN_INTERVIEW_WEIGHT :: rat where
  "MIN_INTERVIEW_WEIGHT = literal_double (1 / 20)"

fun concept_weight :: "mastery dict \<Rightarrow> pyfloat \<Rightarrow> pystr list \<Rightarrow> pyfloat" where
  "concept_weight ms w [] = w"
| "concept_weight ms w (c # cs) =
     concept_weight ms
       (f_add w (case dget ms c of
          None \<Rightarrow> Fin (1 / 2)
        | Some m \<Rightarrow> (case m_score m of None \<Rightarrow> Fin (1 / 2) | Some s \<Rightarrow> round_double (1 - s)))) cs"

definition question_weight :: "progress \<Rightarrow> mastery dict \<Rightarrow> pystr \<Rightarrow> pystr list \<Rightarrow> py_exc + pyfloat" where
  "question_weight st ms qid cs =
     (let w = concept_weight ms (Fin 1) cs;
          history = (case dget (p_interview st) qid of None \<Rightarrow> [] | Some e \<Rightarrow> e)
      in res_bind (py_float (get_or (JInt 0) history f_incorrect)) (\<lambda>misses.
         res_bind (py_int (get_or (JInt 0) history f_streak)) (\<lambda>i.
         res_bind (to_double ((1 / 2) powi min i 6)) (\<lambda>decay.
           Inr (f_max (f_scale (f_add w (f_scale misses 2)) decay) MIN_INTERVIEW_WEIGHT)))))"

definition interview_weights :: "progress \<Rightarrow> (pystr \<times> pystr list) list \<Rightarrow> py_exc + pyfloat dict" where
  "interview_weights st qcs =
     res_bind (concept_mastery st (remdups (concat (map snd qcs)))) (\<lambda>ms.
       res_map (\<lambda>(qid, cs). res_bind (question_weight st ms qid cs) (\<lambda>w. Inr (qid, w))) qcs)"

end
