(* ===== verification/Progress_Machine.thy ===== *)
theory Progress_Machine
  imports Progress_Queries
begin

text \<open>
  The progress store as a machine: the commands of its interface, the states they reach from an
  empty file, and what holds in all of them.  The invariant is proved as an instance of
  \<open>transition_invariant\<close>: every record has all its fields with their types, every dict has each key
  once, and the file holds what the memory holds.
\<close>

section \<open>Full stores\<close>

lemma typed_store_full: "typed_store {} s \<longleftrightarrow> full_state (mem s)"
  by (simp add: typed_store_def full_state_def)

lemma returns_mark_complete: "returns (typed_store {}) (mark_complete now l cur) (\<lambda>_. typed_store {})"
  unfolding returns_def
proof (intro allI impI)
  fix s assume s: "typed_store {} s"
  then obtain b ms where c: "completion (mem s) cur l [] = Inr (b, ms)"
    using gates_total(2) typed_store_full by blast
  have save: "returns (with_record {} lid) save (\<lambda>_. typed_store {})" for lid
    by (auto simp: returns_def save_def with_record_def typed_store_def)
  have "returns (typed_store {})
      (op_bind (lesson_record (l_id l)) (\<lambda>_.
            op_then (set_field (l_id l) f_status (JStr st_complete))
            (op_then (set_field (l_id l) f_completed_at (JStr now))
            (op_then save (op_return (True, [] :: missing list)))))) (\<lambda>_. typed_store {})"
    by (intro returns_bind [OF returns_lesson_record] returns_then [OF returns_set_field]
        returns_then [OF save]) (auto simp: returns_def op_return_def)
  then show "\<exists>a s'. mark_complete now l cur s = (Inr a, s') \<and> typed_store {} s'"
    using s c by (auto simp: mark_complete_def returns_def)
qed

section \<open>Commands\<close>

datatype command =
    Mark_started pystr pystr
  | Record_step pystr pystr
  | Record_validation pystr pystr pystr bool bool "pystr list" bool
  | Record_quiz pystr pystr pystr bool "pystr list"
  | Record_explain pystr pystr pystr bool "pystr list"
  | Record_hint pystr nat
  | Record_interview pystr pystr bool "pystr list"
  | Mark_complete pystr lesson "curriculum option"

definition ignore :: "'a op \<Rightarrow> unit op" where
  "ignore m = op_bind m (\<lambda>_. op_return ())"

fun perform :: "command \<Rightarrow> unit op" where
  "perform (Mark_started now lid) = mark_started now lid"
| "perform (Record_step lid b) = record_step lid b"
| "perform (Record_validation now lid b passed mandatory cs historical) =
     record_validation now lid b passed mandatory cs historical"
| "perform (Record_quiz now lid b correct cs) = record_quiz now lid b correct cs"
| "perform (Record_explain now lid b passed cs) = record_explain now lid b passed cs"
| "perform (Record_hint lid i) = ignore (record_hint lid (int i))"
| "perform (Record_interview now qid correct cs) = record_interview now qid correct cs"
| "perform (Mark_complete now l cur) = ignore (mark_complete now l cur)"

inductive progress_step :: "pstore \<Rightarrow> pstore \<Rightarrow> bool" where
  "perform cmd s = (r, t) \<Longrightarrow> progress_step s t"

inductive_cases progress_stepE: "progress_step s t"

text \<open>A new store on a file that is missing.\<close>

definition fresh_store :: "pstore \<Rightarrow> bool" where
  "fresh_store s \<longleftrightarrow> s = \<lparr>mem = fst (load_progress 0 0 No_file), disk = None\<rparr>"

text \<open>The file holds what the memory holds, or there is none yet and nothing has been recorded.\<close>

definition in_sync :: "pstore \<Rightarrow> bool" where
  "in_sync s \<longleftrightarrow> disk s = Some (state_json (mem s)) \<or> disk s = None \<and> mem s = empty_state"

definition healthy :: "pstore \<Rightarrow> bool" where
  "healthy s \<longleftrightarrow> typed_store {} s \<and> in_sync s"

subsection \<open>A full record needs no filling\<close>

lemma dset_same: "dget d k = Some v \<Longrightarrow> dset k v d = d"
  unfolding dset_def by (induction d) auto

lemma fill_same:
  "\<forall>k \<in> fst ` set ps. dget r k \<noteq> None \<Longrightarrow> fold (\<lambda>(k, v). dsetdefault k v) ps r = r"
  by (induction ps) (auto simp: dsetdefault_def)

lemma lesson_record_same:
  assumes "dget (p_lessons (mem s)) lid = Some r" and "full_record r"
  shows "lesson_record lid s = (Inr r, s)"
proof -
  have "\<forall>k \<in> fst ` set empty_lesson_record. dget r k \<noteq> None"
    using assms(2) by (auto simp: full_record_def template_keys_def dkeys_def)
  then have "filled_record lid (p_lessons (mem s)) = r"
    using assms(1) by (simp add: filled_record_def fill_template_def fill_same)
  then show ?thesis using assms(1) by (simp add: lesson_record_def Let_def put_record_def dset_same)
qed

lemma lesson_record_new:
  assumes "dget (p_lessons (mem s)) lid = None"
  shows "fst (lesson_record lid s) = Inr empty_lesson_record"
proof -
  have "\<forall>k \<in> fst ` set empty_lesson_record. dget empty_lesson_record k \<noteq> None"
    by (auto simp: map_of_eq_None_iff)
  then have "fill_template empty_lesson_record = empty_lesson_record"
    unfolding fill_template_def by (rule fill_same)
  then show ?thesis using assms by (simp add: lesson_record_def Let_def filled_record_def)
qed

section \<open>Every command keeps the store healthy\<close>

text \<open>The record \<open>_lesson_record_locked\<close> leaves in the state.\<close>

lemma lesson_record_put:
  "lesson_record lid s = (Inr r, s1) \<Longrightarrow> dget (p_lessons (mem s1)) lid = Some r"
  by (auto simp: lesson_record_def Let_def put_record_def dget_dset)

lemma hint_exact:
  assumes "lesson_record lid s = (Inr r, s1)" and "dget r f_hints_used = Some (JInt u)"
  shows "record_hint lid i s =
    (let n = max u (i + 1)
     in (Inr n, if n = u then s1 else snd (save (snd (put_record lid (dset f_hints_used (JInt n) r) s1)))))"
  using assms lesson_record_put [OF assms(1)]
  by (simp add: record_hint_def op_bind_def op_then_def op_lift_def op_when_def op_return_def get_field_def
      get_record_def read_field_def set_field_def py_int_def Let_def save_def put_record_def)

lemma hint_in_sync:
  assumes s: "healthy s"
  shows "in_sync (snd (record_hint lid (int i) s))"
proof (cases "dget (p_lessons (mem s)) lid")
  case None
  obtain s1 where r: "lesson_record lid s = (Inr empty_lesson_record, s1)"
    using lesson_record_new [OF None] by (metis prod.collapse)
  have "dget empty_lesson_record f_hints_used = Some (JInt 0)"
    by (simp add: empty_lesson_record_def field_defs)
  from hint_exact [OF r this] show ?thesis by (simp add: Let_def in_sync_def save_def)
next
  case (Some r)
  then have full: "full_record r" using s by (auto simp: healthy_def typed_store_def)
  obtain v where "dget r f_hints_used = Some v" "counter_ok v"
    using full_record_field [OF full template_key_simps(10)] by auto
  then obtain u where "dget r f_hints_used = Some (JInt u)" by (auto elim: counter_okE)
  from hint_exact [OF lesson_record_same [OF Some full] this] s show ?thesis
    by (auto simp: Let_def in_sync_def save_def healthy_def)
qed

lemma complete_in_sync: "healthy s \<Longrightarrow> in_sync (snd (mark_complete now l cur s))"
proof -
  assume s: "healthy s"
  obtain b ms where c: "completion (mem s) cur l [] = Inr (b, ms)"
    using s gates_total(2) typed_store_full by (metis healthy_def)
  let ?set = "op_then (set_field (l_id l) f_status (JStr st_complete))
            (op_then (set_field (l_id l) f_completed_at (JStr now))
            (op_then save (op_return (True, [] :: missing list))))"
  have save: "returns (with_record {} lid) (op_then save (op_return (True, [] :: missing list))) (\<lambda>_. in_sync)" for lid
    by (auto simp: returns_def op_then_def op_bind_def op_return_def save_def in_sync_def)
  have "returns (typed_store {}) (op_bind (lesson_record (l_id l)) (\<lambda>_. ?set)) (\<lambda>_. in_sync)"
    by (intro returns_bind [OF returns_lesson_record] returns_then [OF returns_set_field] save) auto
  then have "in_sync (snd (op_bind (lesson_record (l_id l)) (\<lambda>_. ?set) s))"
    using s unfolding returns_def healthy_def by fastforce
  then show ?thesis using s c by (auto simp: mark_complete_def healthy_def)
qed

lemma returns_saved_healthy:
  "returns (typed_store {}) m (\<lambda>_. saved {}) \<Longrightarrow> returns healthy m (\<lambda>_. healthy)"
  by (erule returns_weaken) (auto simp: healthy_def in_sync_def saved_def)

lemma returns_ignore: "returns P m (\<lambda>_. Q) \<Longrightarrow> returns P (ignore m) (\<lambda>_. Q)"
  unfolding ignore_def by (rule returns_bind) (auto simp: returns_def op_return_def)

lemma returns_hint_healthy: "returns healthy (record_hint lid (int i)) (\<lambda>_. healthy)"
  unfolding returns_def
proof (intro allI impI)
  fix s assume s: "healthy s"
  then obtain n t where "record_hint lid (int i) s = (Inr n, t)" "typed_store {} t"
    using returns_record_hint [of "{}" lid "int i"] unfolding returns_def healthy_def by blast
  with hint_in_sync [OF s, of lid i]
  show "\<exists>a s'. record_hint lid (int i) s = (Inr a, s') \<and> healthy s'" by (simp add: healthy_def)
qed

lemma returns_complete_healthy: "returns healthy (mark_complete now l cur) (\<lambda>_. healthy)"
  unfolding returns_def
proof (intro allI impI)
  fix s assume s: "healthy s"
  then obtain n t where "mark_complete now l cur s = (Inr n, t)" "typed_store {} t"
    using returns_mark_complete [of now l cur] unfolding returns_def healthy_def by blast
  with complete_in_sync [OF s, of now l cur]
  show "\<exists>a s'. mark_complete now l cur s = (Inr a, s') \<and> healthy s'" by (simp add: healthy_def)
qed

lemma returns_perform: "returns healthy (perform cmd) (\<lambda>_. healthy)"
  by (cases cmd)
    (simp_all only: perform.simps returns_saved_healthy returns_mark_started returns_record_step
      returns_record_validation returns_record_quiz returns_record_explain returns_record_interview
      returns_ignore returns_hint_healthy returns_complete_healthy)

lemma fresh_healthy: "fresh_store s \<Longrightarrow> healthy s"
  by (simp add: fresh_store_def load_progress_def healthy_def in_sync_def typed_store_def typed_state_def
      empty_state_def)

lemma step_healthy: "healthy s \<Longrightarrow> progress_step s t \<Longrightarrow> healthy t"
  using returns_perform unfolding returns_def by (auto elim!: progress_stepE) (metis snd_conv)

interpretation store: transition_invariant fresh_store progress_step healthy
  by unfold_locales (auto intro: fresh_healthy step_healthy)

end
