(* ===== verification/Progress_Evidence.thy ===== *)
theory Progress_Evidence
  imports Progress_Machine
begin

text \<open>
  What the commands of the progress store do to the evidence of a lesson: which of them can only
  add to it, what a failing mandatory check takes away, and how a lesson gets certified.

  \<open>tracks lid ls R\<close> says of a store that only the record of \<open>lid\<close> differs from the lessons \<open>ls\<close> and
  that \<open>R\<close> holds of it; the rules carry it through each operation.
\<close>

section \<open>Evidence\<close>

definition record_le :: "obj \<Rightarrow> obj \<Rightarrow> bool" where
  "record_le r r' \<longleftrightarrow>
     (dget r f_status = Some (JStr st_complete) \<longrightarrow> dget r' f_status = Some (JStr st_complete)) \<and>
     (\<forall>b. (has_passed r b \<longrightarrow> has_passed r' b) \<and> (has_id r f_quiz_correct b \<longrightarrow> has_id r' f_quiz_correct b) \<and>
       (has_id r f_explain_done b \<longrightarrow> has_id r' f_explain_done b))"

definition progress_le :: "progress \<Rightarrow> progress \<Rightarrow> bool" where
  "progress_le st st' \<longleftrightarrow>
     (\<forall>lid r. dget (p_lessons st) lid = Some r \<longrightarrow>
       (\<exists>r'. dget (p_lessons st') lid = Some r' \<and> record_le r r'))"

lemma record_le_refl [simp]: "record_le r r"
  by (simp add: record_le_def)

lemma record_le_trans: "record_le r1 r2 \<Longrightarrow> record_le r2 r3 \<Longrightarrow> record_le r1 r3"
  by (simp add: record_le_def)

lemma progress_le_refl [simp]: "progress_le st st"
  by (simp add: progress_le_def)

lemma progress_le_trans: "progress_le s1 s2 \<Longrightarrow> progress_le s2 s3 \<Longrightarrow> progress_le s1 s3"
  by (fastforce simp: progress_le_def intro: record_le_trans)

lemma marked_iff:
  "marked_complete st lid \<longleftrightarrow>
     (\<exists>r. dget (p_lessons st) lid = Some r \<and> dget r f_status = Some (JStr st_complete))"
  by (auto simp: marked_complete_def get_or_def split: option.splits)

lemma gates_iff:
  "gates_hold st l \<longleftrightarrow> l_status l \<noteq> s_unavailable \<and>
     (\<exists>r. dget (p_lessons st) (l_id l) = Some r \<and> record_suffices l r)"
  by (auto simp: gates_hold_def split: option.splits)

lemma record_suffices_mono: "record_le r r' \<Longrightarrow> record_suffices l r \<Longrightarrow> record_suffices l r'"
  by (auto simp: record_suffices_def record_le_def list_all_iff)

lemma marked_mono: "progress_le st st' \<Longrightarrow> marked_complete st lid \<Longrightarrow> marked_complete st' lid"
  by (fastforce simp: progress_le_def record_le_def marked_iff)

lemma gates_mono: "progress_le st st' \<Longrightarrow> gates_hold st l \<Longrightarrow> gates_hold st' l"
  by (fastforce simp: progress_le_def gates_iff intro: record_suffices_mono)

lemma certified_mono: "certified st c lid \<Longrightarrow> progress_le st st' \<Longrightarrow> certified st' c lid"
proof (induction rule: certified.induct)
  case (certify lid l)
  then show ?case by (intro certified.certify [of st' lid c l]) (auto intro: marked_mono gates_mono)
qed

text \<open>How writing a field changes the evidence.\<close>

lemma evidence_other_field:
  "k \<noteq> f_validations \<Longrightarrow> has_passed (dset k v r) b = has_passed r b"
  "k \<noteq> k' \<Longrightarrow> has_id (dset k v r) k' b = has_id r k' b"
  by (simp_all add: has_passed_def has_id_def dget_dset)

lemma has_passed_put:
  "dget r f_validations = Some (JObj d) \<Longrightarrow>
     has_passed (dset f_validations (JObj (dset b (outcome_json now p) d)) r) b' =
       (if b' = b then p else has_passed r b')"
  by (auto simp: has_passed_def dget_dset outcome_json_def f_passed_def f_at_def)

lemma has_id_append:
  "dget r k = Some (JList xs) \<Longrightarrow>
     has_id (dset k (JList (xs @ [JStr x])) r) k b \<longleftrightarrow> has_id r k b \<or> b = x"
  by (auto simp: has_id_def dget_dset)

lemma evidence_fields_distinct [simp]:
  "f_status \<noteq> f_validations" "f_status \<noteq> f_quiz_correct" "f_status \<noteq> f_explain_done"
  "f_quiz_correct \<noteq> f_validations" "f_quiz_correct \<noteq> f_status" "f_quiz_correct \<noteq> f_explain_done"
  "f_explain_done \<noteq> f_validations" "f_explain_done \<noteq> f_status" "f_explain_done \<noteq> f_quiz_correct"
  "f_validations \<noteq> f_status" "f_validations \<noteq> f_quiz_correct" "f_validations \<noteq> f_explain_done"
  "f_completed_at \<noteq> f_validations" "f_completed_at \<noteq> f_status" "f_status \<noteq> f_completed_at"
  by (simp_all add: field_defs)

definition evidence_keys :: "pystr list" where
  "evidence_keys = [f_status, f_validations, f_quiz_correct, f_explain_done]"

lemma other_keys [simp]:
  "f_steps_done \<notin> set evidence_keys" "f_quiz_attempts \<notin> set evidence_keys" "f_attempts \<notin> set evidence_keys"
  "f_hints_used \<notin> set evidence_keys" "f_baseline \<notin> set evidence_keys" "f_started_at \<notin> set evidence_keys"
  "f_completed_at \<notin> set evidence_keys"
  by (simp_all add: evidence_keys_def field_defs)

section \<open>The entry of a lesson\<close>

text \<open>
  The evidence a record holds, apart from how the record spells it: whether the lesson is marked
  complete, which checks stand as passed, which quizzes and explanations have been answered.
\<close>

record entry =
  en_marked :: bool
  en_passed :: "pystr set"
  en_quiz :: "pystr set"
  en_explained :: "pystr set"

definition no_entry :: entry where
  "no_entry = \<lparr>en_marked = False, en_passed = {}, en_quiz = {}, en_explained = {}\<rparr>"

definition entry_of :: "obj \<Rightarrow> entry" where
  "entry_of r = \<lparr>en_marked = (dget r f_status = Some (JStr st_complete)), en_passed = {b. has_passed r b},
     en_quiz = {b. has_id r f_quiz_correct b}, en_explained = {b. has_id r f_explain_done b}\<rparr>"

lemma entry_sel [simp]:
  "en_marked (entry_of r) \<longleftrightarrow> dget r f_status = Some (JStr st_complete)"
  "b \<in> en_passed (entry_of r) \<longleftrightarrow> has_passed r b"
  "b \<in> en_quiz (entry_of r) \<longleftrightarrow> has_id r f_quiz_correct b"
  "b \<in> en_explained (entry_of r) \<longleftrightarrow> has_id r f_explain_done b"
  by (simp_all add: entry_of_def)

definition entry_le :: "entry \<Rightarrow> entry \<Rightarrow> bool" where
  "entry_le x y \<longleftrightarrow> (en_marked x \<longrightarrow> en_marked y) \<and> en_passed x \<subseteq> en_passed y \<and> en_quiz x \<subseteq> en_quiz y \<and>
     en_explained x \<subseteq> en_explained y"

lemma record_le_entry: "record_le r r' \<longleftrightarrow> entry_le (entry_of r) (entry_of r')"
  by (auto simp: record_le_def entry_le_def subset_eq)

lemma entry_other: "k \<notin> set evidence_keys \<Longrightarrow> entry_of (dset k v r) = entry_of r"
  by (auto simp: entry_of_def evidence_other_field evidence_keys_def dget_dset)

lemma unmarked_same: "\<not> en_marked x \<Longrightarrow> x\<lparr>en_marked := False\<rparr> = x"
  by (cases x) simp

text \<open>What an answer, an outcome and the revocation do to an entry.\<close>

definition answer_entry :: "pystr \<Rightarrow> pystr \<Rightarrow> entry \<Rightarrow> entry" where
  "answer_entry k b x =
     (if k = f_quiz_correct then x\<lparr>en_quiz := insert b (en_quiz x)\<rparr>
      else if k = f_explain_done then x\<lparr>en_explained := insert b (en_explained x)\<rparr> else x)"

definition outcome_entry :: "pystr \<Rightarrow> bool \<Rightarrow> entry \<Rightarrow> entry" where
  "outcome_entry b passed x = x\<lparr>en_passed := if passed then insert b (en_passed x) else en_passed x - {b}\<rparr>"

definition check_entry :: "pystr \<Rightarrow> bool \<Rightarrow> bool \<Rightarrow> entry \<Rightarrow> entry" where
  "check_entry b passed mandatory x =
     (let y = outcome_entry b passed x in if passed \<or> \<not> mandatory then y else y\<lparr>en_marked := False\<rparr>)"

lemma entry_append:
  assumes "dget r k = Some (JList xs)" and "k \<in> set id_list_fields"
  shows "entry_of (dset k (JList (xs @ [JStr b])) r) = answer_entry k b (entry_of r)"
  using assms
  by (auto simp: entry_of_def answer_entry_def id_list_fields_def has_id_append evidence_other_field dget_dset field_defs)

lemma entry_there:
  "dget r k = Some (JList xs) \<Longrightarrow> JStr b \<in> set xs \<Longrightarrow> answer_entry k b (entry_of r) = entry_of r"
  by (auto simp: entry_of_def answer_entry_def has_id_def)

lemma entry_put:
  assumes "dget r f_validations = Some (JObj d)"
  shows "entry_of (dset f_validations (JObj (dset b (outcome_json now passed) d)) r) = outcome_entry b passed (entry_of r)"
  using has_passed_put [OF assms, of b now passed]
  by (auto simp: entry_of_def outcome_entry_def evidence_other_field dget_dset)

lemma entry_status:
  "entry_of (dset f_status (JStr w) r) = (entry_of r)\<lparr>en_marked := (w = st_complete)\<rparr>"
  by (simp add: entry_of_def evidence_other_field dget_dset)

section \<open>Following one record\<close>

lemma dset_dset [simp]: "dset k v (dset k w d) = dset k v d"
  unfolding dset_def by (induction d) auto

definition tracks :: "pystr \<Rightarrow> obj dict \<Rightarrow> (obj \<Rightarrow> bool) \<Rightarrow> pstore \<Rightarrow> bool" where
  "tracks lid ls R s \<longleftrightarrow> typed_store {} s \<and>
     (\<exists>r. p_lessons (mem s) = dset lid r ls \<and> full_record r \<and> R r)"

lemma tracksE:
  assumes "tracks lid ls R s"
  obtains r where "typed_store {} s" and "p_lessons (mem s) = dset lid r ls" and "full_record r" and "R r"
    and "with_record {} lid s"
  using assms by (auto simp: tracks_def with_record_def dget_dset)

lemma tracks_weaken: "tracks lid ls R s \<Longrightarrow> (\<And>r. full_record r \<Longrightarrow> R r \<Longrightarrow> R' r) \<Longrightarrow> tracks lid ls R' s"
  by (auto simp: tracks_def)

text \<open>Before a command: the lessons are \<open>ls\<close>.\<close>

definition at_lessons :: "obj dict \<Rightarrow> pstore \<Rightarrow> bool" where
  "at_lessons ls s \<longleftrightarrow> typed_store {} s \<and> p_lessons (mem s) = ls"

definition known_record :: "obj dict \<Rightarrow> pystr \<Rightarrow> obj" where
  "known_record ls lid = (case dget ls lid of None \<Rightarrow> empty_lesson_record | Some r \<Rightarrow> r)"

definition known_entry :: "obj dict \<Rightarrow> pystr \<Rightarrow> entry" where
  "known_entry ls lid = (case dget ls lid of None \<Rightarrow> no_entry | Some r \<Rightarrow> entry_of r)"

lemma known_entry: "entry_of (known_record ls lid) = known_entry ls lid"
proof -
  have "entry_of empty_lesson_record = no_entry"
    by (simp add: entry_of_def no_entry_def has_passed_def has_id_def empty_lesson_record_def field_defs status_defs)
  then show ?thesis by (simp add: known_record_def known_entry_def split: option.split)
qed

text \<open>The entry of the record is \<open>x\<close>.\<close>

definition enters :: "entry \<Rightarrow> obj \<Rightarrow> bool" where
  "enters x r \<longleftrightarrow> entry_of r = x"

lemma tracks_first:
  "returns (at_lessons ls) (lesson_record lid) (\<lambda>_. tracks lid ls (\<lambda>r. r = known_record ls lid))"
  unfolding returns_def
proof (intro allI impI)
  fix s assume s: "at_lessons ls s"
  have r: "fst (lesson_record lid s) = Inr (known_record ls lid)"
  proof (cases "dget ls lid")
    case None
    then show ?thesis using s lesson_record_new [of s lid] by (simp add: known_record_def at_lessons_def)
  next
    case (Some r)
    then have "full_record r" using s by (auto simp: at_lessons_def typed_store_def)
    with Some show ?thesis
      using s lesson_record_same [of s lid r] by (simp add: known_record_def at_lessons_def)
  qed
  obtain a t where t: "lesson_record lid s = (Inr a, t)" "with_record {} lid t"
    using returns_lesson_record [of "{}" lid] s unfolding returns_def at_lessons_def by blast
  then have "p_lessons (mem t) = dset lid a ls"
    using s by (auto simp: lesson_record_def Let_def put_record_def at_lessons_def)
  with r t show "\<exists>a s'. lesson_record lid s = (Inr a, s') \<and> tracks lid ls (\<lambda>r. r = known_record ls lid) s'"
    by (auto simp: tracks_def with_record_def dget_dset)
qed

lemma tracks_start: "returns (at_lessons ls) (lesson_record lid) (\<lambda>_. tracks lid ls (enters (known_entry ls lid)))"
  by (rule returns_weaken [OF tracks_first]) (auto simp: enters_def known_entry elim!: tracks_weaken)

lemma tracks_get:
  assumes "k \<in> set template_keys"
  shows "returns (tracks lid ls R) (get_field lid k)
    (\<lambda>v. tracks lid ls (\<lambda>r. R r \<and> dget r k = Some v \<and> field_ok k v))"
  unfolding returns_def
proof (intro allI impI)
  fix s assume "tracks lid ls R s"
  then obtain r where r: "p_lessons (mem s) = dset lid r ls" "full_record r" "R r" "typed_store {} s"
    by (rule tracksE)
  obtain v where "dget r k = Some v" "field_ok k v" using full_record_field [OF r(2) assms] by blast
  with r show "\<exists>a s'. get_field lid k s = (Inr a, s') \<and> tracks lid ls (\<lambda>r. R r \<and> dget r k = Some a \<and> field_ok k a) s'"
    by (auto simp: get_field_def get_record_def op_bind_def op_lift_def read_field_def tracks_def dget_dset)
qed

lemma tracks_set:
  assumes "field_ok k v" and "\<And>r. full_record r \<Longrightarrow> R r \<Longrightarrow> R' (dset k v r)"
  shows "returns (tracks lid ls R) (set_field lid k v) (\<lambda>_. tracks lid ls R')"
  unfolding returns_def
proof (intro allI impI)
  fix s assume "tracks lid ls R s"
  then obtain r where r: "p_lessons (mem s) = dset lid r ls" "full_record r" "R r" "with_record {} lid s"
    by (rule tracksE)
  obtain t where t: "set_field lid k v s = (Inr (), t)" "with_record {} lid t"
    using returns_set_field [OF assms(1), of "{}" lid] r(4) unfolding returns_def by fastforce
  have "p_lessons (mem t) = dset lid (dset k v r) ls"
    using t(1) r(1) by (auto simp: set_field_def get_record_def op_bind_def put_record_def dget_dset)
  then show "\<exists>a s'. set_field lid k v s = (Inr a, s') \<and> tracks lid ls R' s'"
    using t r assms by (auto simp: tracks_def with_record_def full_record_dset)
qed

lemma tracks_update:
  assumes k: "k \<in> set template_keys"
    and f: "\<And>r v. full_record r \<Longrightarrow> R r \<Longrightarrow> dget r k = Some v \<Longrightarrow> field_ok k v \<Longrightarrow>
      \<exists>w. f v = Inr w \<and> field_ok k w \<and> R' (dset k w r)"
  shows "returns (tracks lid ls R) (update_field lid k f) (\<lambda>_. tracks lid ls R')"
  unfolding update_field_def
proof (rule returns_bind [OF tracks_get [OF k]])
  fix v
  show "returns (tracks lid ls (\<lambda>r. R r \<and> dget r k = Some v \<and> field_ok k v))
      (op_bind (op_lift (f v)) (\<lambda>w. set_field lid k w)) (\<lambda>_. tracks lid ls R')"
    unfolding returns_def
  proof (intro allI impI)
    fix s assume s: "tracks lid ls (\<lambda>r. R r \<and> dget r k = Some v \<and> field_ok k v) s"
    then obtain r where r: "p_lessons (mem s) = dset lid r ls" "full_record r" "typed_store {} s"
      "R r \<and> dget r k = Some v \<and> field_ok k v" by (rule tracksE)
    then obtain w where w: "f v = Inr w" "field_ok k w" "R' (dset k w r)" using f by blast
    have "tracks lid ls ((=) r) s" using r by (auto simp: tracks_def)
    moreover have "returns (tracks lid ls ((=) r)) (set_field lid k w) (\<lambda>_. tracks lid ls R')"
      using w by (intro tracks_set) auto
    ultimately show "\<exists>a s'. op_bind (op_lift (f v)) (\<lambda>w. set_field lid k w) s = (Inr a, s') \<and> tracks lid ls R' s'"
      using w(1) by (simp add: returns_def op_bind_def op_lift_def)
  qed
qed

lemma tracks_bump: "returns (tracks lid ls R) (bump_concepts now b cs) (\<lambda>_. tracks lid ls R)"
proof (induction cs)
  case (Cons c cs)
  have "returns (tracks lid ls R) (bump_concept now b c) (\<lambda>_. tracks lid ls R)"
    unfolding returns_def
  proof (intro allI impI)
    fix s assume s: "tracks lid ls R s"
    then obtain t where t: "bump_concept now b c s = (Inr (), t)" "with_record {} lid t"
      using returns_bump_concept [of "{}" lid now b c] unfolding returns_def by (fastforce elim: tracksE)
    then have "p_lessons (mem t) = p_lessons (mem s)"
      by (auto simp: bump_concept_def Let_def split: sum.splits)
    with s t show "\<exists>a s'. bump_concept now b c s = (Inr a, s') \<and> tracks lid ls R s'"
      by (auto simp: tracks_def with_record_def)
  qed
  then show ?case unfolding bump_concepts.simps by (rule returns_then) (rule Cons)
qed (simp add: returns_def op_return_def)

lemma tracks_finish: "returns (tracks lid ls R) (finish lid') (\<lambda>_. tracks lid ls R)"
  by (auto simp: returns_def finish_def op_then_def op_bind_def set_last_def save_def tracks_def
      typed_store_def typed_state_def)

lemma tracks_save: "returns (tracks lid ls R) save (\<lambda>_. tracks lid ls R)"
  by (auto simp: returns_def save_def tracks_def typed_store_def)

lemma returns_cases:
  "(b \<Longrightarrow> returns P m (\<lambda>_. Q)) \<Longrightarrow> (\<And>s. \<not> b \<Longrightarrow> P s \<Longrightarrow> Q s) \<Longrightarrow> returns P (op_when b m) (\<lambda>_. Q)"
  by (auto simp: op_when_def returns_def op_return_def)

lemma tracks_add:
  assumes k: "k \<in> set id_list_fields"
    and there: "\<And>r xs. R r \<Longrightarrow> dget r k = Some (JList xs) \<Longrightarrow> JStr x \<in> set xs \<Longrightarrow> R' r"
    and new: "\<And>r xs. R r \<Longrightarrow> dget r k = Some (JList xs) \<Longrightarrow> R' (dset k (JList (xs @ [JStr x])) r)"
  shows "returns (tracks lid ls R) (add_to_list lid k x) (\<lambda>_. tracks lid ls R')"
  unfolding add_to_list_def
proof (rule returns_bind [OF tracks_get])
  show t: "k \<in> set template_keys" using k by (auto simp: id_list_fields_def)
  have ok: "field_ok k v \<longleftrightarrow> id_list_ok v" for v using k by (auto simp: id_list_fields_def)
  fix v
  let ?P = "tracks lid ls (\<lambda>r. R r \<and> dget r k = Some v \<and> field_ok k v)"
  show "returns ?P (op_bind (op_lift (py_in x v)) (\<lambda>there. op_when (\<not> there) (update_field lid k (py_append x))))
      (\<lambda>_. tracks lid ls R')"
  proof (cases "id_list_ok v")
    case True
    then obtain xs where xs: "v = JList xs" "list_all is_str xs" by (rule id_list_okE)
    then have v: "v = JList xs" "id_list_ok (JList (xs @ [JStr x]))" by (simp_all add: id_list_ok_def)
    have upd: "returns ?P (update_field lid k (py_append x)) (\<lambda>_. tracks lid ls R')"
      using v new by (intro tracks_update t) (auto simp: ok py_append_def)
    have "returns ?P (op_when (JStr x \<notin> set xs) (update_field lid k (py_append x))) (\<lambda>_. tracks lid ls R')"
      using v there by (intro returns_cases upd) (auto elim: tracks_weaken)
    then show ?thesis by (simp add: v py_in_def returns_def op_bind_def op_lift_def)
  next
    case False
    then show ?thesis by (auto simp: returns_def tracks_def ok)
  qed
qed

section \<open>Each operation\<close>

text \<open>Writing a field that is no evidence.\<close>

lemma tracks_set_other:
  "field_ok k v \<Longrightarrow> k \<notin> set evidence_keys \<Longrightarrow>
     returns (tracks lid ls (enters x)) (set_field lid k v) (\<lambda>_. tracks lid ls (enters x))"
  by (rule tracks_set) (simp_all add: enters_def entry_other)

lemma tracks_count:
  "k \<in> set counter_fields \<Longrightarrow> k \<notin> set evidence_keys \<Longrightarrow>
     returns (tracks lid ls (enters x)) (update_field lid k py_incr) (\<lambda>_. tracks lid ls (enters x))"
  by (rule tracks_update) (auto simp: counter_fields_def enters_def entry_other dest!: incr_counter)

lemma tracks_add_entry:
  "k \<in> set id_list_fields \<Longrightarrow>
     returns (tracks lid ls (enters x)) (add_to_list lid k b) (\<lambda>_. tracks lid ls (enters (answer_entry k b x)))"
  by (rule tracks_add) (auto simp: enters_def entry_append entry_there)

lemma tracks_add_when:
  "k \<in> set id_list_fields \<Longrightarrow>
     returns (tracks lid ls (enters x)) (op_when ok (add_to_list lid k b))
       (\<lambda>_. tracks lid ls (enters (if ok then answer_entry k b x else x)))"
  by (intro returns_cases) (auto intro: tracks_add_entry)

lemma started_evidence:
  "returns (at_lessons ls) (mark_started now lid) (\<lambda>_. tracks lid ls (enters (known_entry ls lid)))"
proof -
  define x where "x = known_entry ls lid"
  let ?T = "tracks lid ls (enters x)"
  have get: "returns ?T (get_field lid k) (\<lambda>v. tracks lid ls (\<lambda>r. enters x r \<and> dget r k = Some v))"
    if "k \<in> set template_keys" for k
    by (rule returns_weaken [OF tracks_get [OF that]]) (auto elim: tracks_weaken)
  have baseline: "returns ?T (\<lambda>s. set_field lid f_baseline (JInt (interview_total (mem s))) s) (\<lambda>_. ?T)"
    unfolding returns_def
  proof (intro allI impI)
    fix s assume s: "?T s"
    then have "field_ok f_baseline (JInt (interview_total (mem s)))"
      using interview_total_pos by (simp add: counter_ok_def tracks_def typed_store_def)
    from tracks_set_other [OF this] s
    show "\<exists>a s'. set_field lid f_baseline (JInt (interview_total (mem s))) s = (Inr a, s') \<and> ?T s'"
      by (simp add: returns_def)
  qed
  have "st_not_started \<noteq> st_complete" "st_in_progress \<noteq> st_complete" by (simp_all add: status_defs)
  then have status: "returns (tracks lid ls (\<lambda>r. enters x r \<and> dget r f_status = Some v))
      (op_when (v = JStr st_not_started) (set_field lid f_status (JStr st_in_progress))) (\<lambda>_. ?T)" for v
    by (intro returns_cases tracks_set) (auto simp: enters_def entry_status elim: tracks_weaken)
  have first: "returns (tracks lid ls (\<lambda>r. enters x r \<and> dget r f_started_at = Some v))
      (op_when (v = JNull) (op_then (set_field lid f_started_at (JStr now))
        (\<lambda>s. set_field lid f_baseline (JInt (interview_total (mem s))) s))) (\<lambda>_. ?T)" for v
    by (intro returns_cases returns_then [OF _ baseline] returns_weaken [OF tracks_set_other])
      (auto elim: tracks_weaken)
  show ?thesis unfolding mark_started_def x_def [symmetric]
    by (intro returns_bind [OF tracks_start [of ls lid, folded x_def]] returns_bind [OF get] returns_then [OF first]
        returns_then [OF status] returns_then [OF tracks_count] tracks_finish) (simp_all add: counter_fields_def)
qed

lemma step_evidence: "returns (at_lessons ls) (record_step lid b) (\<lambda>_. tracks lid ls (enters (known_entry ls lid)))"
proof -
  have "f_steps_done \<in> set id_list_fields" by (simp add: id_list_fields_def)
  moreover have "answer_entry f_steps_done b x = x" for x by (simp add: answer_entry_def field_defs)
  ultimately show ?thesis
    unfolding record_step_def using tracks_add_entry [of f_steps_done lid ls "known_entry ls lid" b]
    by (intro returns_bind [OF tracks_start] returns_then [OF _ tracks_finish]) simp
qed

lemma quiz_evidence:
  "returns (at_lessons ls) (record_quiz now lid b correct cs)
     (\<lambda>_. tracks lid ls (enters (if correct then answer_entry f_quiz_correct b (known_entry ls lid) else known_entry ls lid)))"
  unfolding record_quiz_def
  by (intro returns_bind [OF tracks_start] returns_then [OF tracks_count] returns_then [OF tracks_add_when]
      returns_then [OF tracks_bump] tracks_finish)
    (simp_all add: id_list_fields_def counter_fields_def)

lemma explain_evidence:
  "returns (at_lessons ls) (record_explain now lid b passed cs)
     (\<lambda>_. tracks lid ls (enters (if passed then answer_entry f_explain_done b (known_entry ls lid) else known_entry ls lid)))"
  unfolding record_explain_def
  by (intro returns_bind [OF tracks_start] returns_then [OF tracks_add_when]
      returns_then [OF tracks_bump] tracks_finish)
    (simp add: id_list_fields_def)

text \<open>A recorded outcome replaces the one of its own block; a failing mandatory one takes the mark away.\<close>

definition stands :: "obj dict \<Rightarrow> pystr \<Rightarrow> pystr \<Rightarrow> bool" where
  "stands ls lid b \<longleftrightarrow> (case dget ls lid of None \<Rightarrow> False | Some r \<Rightarrow> has_passed r b)"

lemma stands_entry: "stands ls lid b \<longleftrightarrow> b \<in> en_passed (known_entry ls lid)"
  by (simp add: stands_def known_entry_def no_entry_def split: option.split)

lemma put_outcome_evidence:
  "returns (tracks lid ls (enters x)) (update_field lid f_validations (put_outcome b (outcome_json now passed)))
     (\<lambda>_. tracks lid ls (enters (outcome_entry b passed x)))"
proof (rule tracks_update)
  fix r v assume a: "enters x r" "dget r f_validations = Some v" "field_ok f_validations v"
  then have "validations_ok v" by simp
  then obtain d where d: "v = JObj d" by (rule validations_okE)
  have "enters (outcome_entry b passed x) (dset f_validations (JObj (dset b (outcome_json now passed) d)) r)"
    using a d by (simp add: enters_def entry_put)
  then show "\<exists>w. put_outcome b (outcome_json now passed) v = Inr w \<and> field_ok f_validations w \<and>
      enters (outcome_entry b passed x) (dset f_validations w r)"
    using put_outcome_ok [OF \<open>validations_ok v\<close>, of b now passed] d
    by (auto simp: put_outcome_def as_dict_attr_def)
qed simp

lemma revoke_evidence:
  "returns (tracks lid ls (enters (outcome_entry b passed x)))
     (op_bind (get_record lid) (\<lambda>r.
       op_then
         (op_when (\<not> passed \<and> mandatory \<and> get_or JNull r f_status = JStr st_complete)
           (op_then (set_field lid f_status (JStr st_in_progress)) (set_field lid f_completed_at JNull)))
         (finish lid)))
     (\<lambda>_. tracks lid ls (enters (check_entry b passed mandatory x)))"
proof (rule returns_bind)
  let ?y = "outcome_entry b passed x"
  show "returns (tracks lid ls (enters ?y)) (get_record lid) (\<lambda>r. tracks lid ls (\<lambda>q. q = r \<and> enters ?y q))"
    by (auto simp: returns_def get_record_def tracks_def dget_dset)
  fix r
  let ?P = "tracks lid ls (\<lambda>q. q = r \<and> enters ?y q)"
  let ?Q = "tracks lid ls (enters (check_entry b passed mandatory x))"
  have "st_in_progress \<noteq> st_complete" by (simp add: status_defs)
  then have revoke: "returns ?P (set_field lid f_status (JStr st_in_progress)) (\<lambda>_. ?Q)"
    if "\<not> passed \<and> mandatory" using that
    by (intro tracks_set) (auto simp: enters_def entry_status check_entry_def Let_def)
  have "returns ?P (op_when (\<not> passed \<and> mandatory \<and> get_or JNull r f_status = JStr st_complete)
      (op_then (set_field lid f_status (JStr st_in_progress)) (set_field lid f_completed_at JNull))) (\<lambda>_. ?Q)"
  proof (rule returns_cases)
    assume "\<not> passed \<and> mandatory \<and> get_or JNull r f_status = JStr st_complete"
    then show "returns ?P (op_then (set_field lid f_status (JStr st_in_progress)) (set_field lid f_completed_at JNull))
        (\<lambda>_. ?Q)"
      by (intro returns_then [OF revoke] tracks_set_other) auto
  next
    fix s assume no: "\<not> (\<not> passed \<and> mandatory \<and> get_or JNull r f_status = JStr st_complete)" and "?P s"
    have "enters (check_entry b passed mandatory x) r" if y: "enters ?y r"
    proof (cases "passed \<or> \<not> mandatory")
      case False
      then have "\<not> en_marked (entry_of r)" using no by (auto simp: get_or_def split: option.splits)
      from unmarked_same [OF this] show ?thesis
        using y False by (simp add: enters_def check_entry_def Let_def)
    qed (use y in \<open>auto simp: enters_def check_entry_def Let_def\<close>)
    with \<open>?P s\<close> show "?Q s" by (auto elim!: tracks_weaken)
  qed
  from returns_then [OF this tracks_finish]
  show "returns ?P (op_then (op_when (\<not> passed \<and> mandatory \<and> get_or JNull r f_status = JStr st_complete)
      (op_then (set_field lid f_status (JStr st_in_progress)) (set_field lid f_completed_at JNull))) (finish lid))
    (\<lambda>_. ?Q)" .
qed

lemma known_passed: "has_passed (known_record ls lid) b = stands ls lid b"
  using entry_sel(2) [of b "known_record ls lid"] by (simp only: known_entry stands_entry)

lemma op_bind_run: "m s = (Inr a, t) \<Longrightarrow> op_bind m f s = f a t"
  by (simp add: op_bind_def)

lemma validation_evidence:
  "returns (at_lessons ls) (record_validation now lid b passed mandatory cs historical)
     (\<lambda>_. tracks lid ls (enters
       (if historical \<and> stands ls lid b then known_entry ls lid else check_entry b passed mandatory (known_entry ls lid))))"
  unfolding returns_def
proof (intro allI impI)
  fix s assume s: "at_lessons ls s"
  let ?rest = "op_then (update_field lid f_validations (put_outcome b (outcome_json now passed)))
       (op_then (op_when (cs \<noteq> [] \<and> mandatory) (bump_concepts now passed cs))
       (op_bind (get_record lid) (\<lambda>r.
       op_then
         (op_when (\<not> passed \<and> mandatory \<and> get_or JNull r f_status = JStr st_complete)
           (op_then (set_field lid f_status (JStr st_in_progress)) (set_field lid f_completed_at JNull)))
         (finish lid))))"
  obtain a s1 where s1: "lesson_record lid s = (Inr a, s1)" "tracks lid ls (\<lambda>r. r = known_record ls lid) s1"
    using tracks_first [of ls lid] s unfolding returns_def by blast
  then obtain r where r: "r = known_record ls lid" "full_record r" "p_lessons (mem s1) = dset lid r ls"
    by (auto elim: tracksE)
  have t: "tracks lid ls (enters (known_entry ls lid)) s1"
    by (rule tracks_weaken [OF s1(2)]) (simp add: enters_def known_entry)
  obtain v where v: "dget r f_validations = Some v" "validations_ok v"
    using full_record_field [OF r(2) template_key_simps(2)] by auto
  then obtain d where d: "v = JObj d" "list_all (\<lambda>(k, x). valid_outcome x) d" by (auto elim: validations_okE)
  have "is_dict (get_or (JObj []) d b)"
    using d(2) outcome_is_dict [of d b] by (simp add: get_or_def split: option.splits)
  then obtain oc where oc: "get_or (JObj []) d b = JObj oc" by (auto simp: is_dict_iff)
  have st: "get_or JNull oc f_passed = JBool True \<longleftrightarrow> stands ls lid b"
    unfolding known_passed [symmetric] r(1) [symmetric]
    using v(1) d(1) oc by (auto simp: has_passed_def get_or_def split: option.splits)
  have get: "get_field lid f_validations s1 = (Inr v, s1)"
    using r(3) v(1) by (simp add: get_field_def op_bind_def get_record_def op_lift_def read_field_def dget_dset)
  have previous: "op_lift (res_bind (as_dict_attr v) (\<lambda>d. Inr (get_or (JObj []) d b))) s1 = (Inr (JObj oc), s1)"
    using d(1) oc by (simp add: op_lift_def as_dict_attr_def)
  have seen: "(if historical
              then op_lift (res_bind (as_dict_attr (JObj oc)) (\<lambda>oc. Inr (get_or JNull oc f_passed = JBool True)))
              else op_return False) s1 = (Inr (historical \<and> stands ls lid b), s1)"
    using st by (simp add: op_lift_def op_return_def as_dict_attr_def)
  have run: "record_validation now lid b passed mandatory cs historical s =
      (if historical \<and> stands ls lid b then finish lid s1 else ?rest s1)"
    unfolding record_validation_def op_bind_run [of "lesson_record lid", OF s1(1)] op_bind_run [of "get_field lid f_validations", OF get]
    by (simp only: op_bind_run [of "op_lift r" for r, OF previous] op_bind_run [of "if historical then _ else op_return False", OF seen] if_distribR)
  have rest: "returns (tracks lid ls (enters (known_entry ls lid))) ?rest (\<lambda>_. tracks lid ls (enters (check_entry b passed mandatory (known_entry ls lid))))"
    by (intro returns_then [OF put_outcome_evidence] returns_then [OF returns_when] tracks_bump revoke_evidence)
  show "\<exists>a s'. record_validation now lid b passed mandatory cs historical s = (Inr a, s') \<and>
      tracks lid ls (enters
       (if historical \<and> stands ls lid b then known_entry ls lid else check_entry b passed mandatory (known_entry ls lid))) s'"
    using t rest tracks_finish [of lid ls "enters (known_entry ls lid)" lid] unfolding run by (auto simp: returns_def)
qed

lemma hint_evidence: "returns (at_lessons ls) (record_hint lid (int i)) (\<lambda>_. tracks lid ls (enters (known_entry ls lid)))"
  unfolding returns_def
proof (intro allI impI)
  fix s assume s: "at_lessons ls s"
  let ?r = "known_record ls lid"
  obtain a s1 where s1: "lesson_record lid s = (Inr a, s1)" "tracks lid ls (\<lambda>r. r = ?r) s1"
    using tracks_first [of ls lid] s unfolding returns_def by blast
  then have r: "p_lessons (mem s1) = dset lid ?r ls" "full_record ?r" by (auto elim!: tracksE)
  have "dget (p_lessons (mem s1)) lid = Some a" by (rule lesson_record_put [OF s1(1)])
  then have a: "a = ?r" using r(1) by (simp add: dget_dset)
  obtain v where "dget ?r f_hints_used = Some v" "counter_ok v"
    using full_record_field [OF r(2) template_key_simps(10)] by auto
  then obtain u where u: "dget ?r f_hints_used = Some (JInt u)" "0 \<le> u" by (auto elim: counter_okE)
  let ?n = "max u (int i + 1)"
  have t: "tracks lid ls (enters (known_entry ls lid)) s1"
    by (rule tracks_weaken [OF s1(2)]) (simp add: enters_def known_entry)
  have put: "snd (put_record lid (dset f_hints_used (JInt ?n) ?r) s1) = snd (set_field lid f_hints_used (JInt ?n) s1)"
    using r(1) by (simp add: set_field_def get_record_def op_bind_def dget_dset)
  have "field_ok f_hints_used (JInt ?n)" using u(2) by (simp add: counter_ok_def)
  from returns_then [OF tracks_set_other [OF this] tracks_save] t
  have "tracks lid ls (enters (known_entry ls lid)) (snd (op_then (set_field lid f_hints_used (JInt ?n)) save s1))"
    unfolding returns_def by fastforce
  moreover have "op_then (set_field lid f_hints_used (JInt ?n)) save s1 =
      save (snd (put_record lid (dset f_hints_used (JInt ?n) ?r) s1))"
    using r(1) by (simp add: set_field_def get_record_def op_bind_def op_then_def dget_dset put_record_def)
  ultimately show "\<exists>a s'. record_hint lid (int i) s = (Inr a, s') \<and> tracks lid ls (enters (known_entry ls lid)) s'"
    using hint_exact [OF s1(1), unfolded a, OF u(1), of "int i"] t by (auto simp: Let_def)
qed

text \<open>Operations that leave the lessons alone.\<close>

definition keeps_lessons :: "'a op \<Rightarrow> bool" where
  "keeps_lessons m \<longleftrightarrow> (\<forall>s. p_lessons (mem (snd (m s))) = p_lessons (mem s))"

lemma keeps_bind: "keeps_lessons m \<Longrightarrow> (\<And>a. keeps_lessons (f a)) \<Longrightarrow> keeps_lessons (op_bind m f)"
  by (auto simp: keeps_lessons_def op_bind_def split: prod.split sum.split) (metis snd_conv)+

lemma keeps_then: "keeps_lessons m \<Longrightarrow> keeps_lessons k \<Longrightarrow> keeps_lessons (op_then m k)"
  unfolding op_then_def by (rule keeps_bind)

lemma keeps_simps:
  "keeps_lessons (op_return a)" "keeps_lessons (op_lift r)" "keeps_lessons save"
  "keeps_lessons (set_interview q e)" "keeps_lessons (bump_concept now b c)"
  by (simp_all add: keeps_lessons_def op_return_def op_lift_def save_def set_interview_def bump_concept_def
      Let_def split: sum.split)

lemma keeps_bump: "keeps_lessons (bump_concepts now b cs)"
  by (induction cs) (simp_all add: keeps_simps keeps_then)

lemma keeps_when: "keeps_lessons m \<Longrightarrow> keeps_lessons (op_when b m)"
  by (simp add: op_when_def keeps_simps)

lemma interview_lessons: "returns (at_lessons ls) (record_interview now qid correct cs) (\<lambda>_. at_lessons ls)"
  unfolding returns_def
proof (intro allI impI)
  fix s assume s: "at_lessons ls s"
  then obtain t where t: "record_interview now qid correct cs s = (Inr (), t)" "saved {} t"
    using returns_record_interview [of "{}"] unfolding returns_def at_lessons_def by fastforce
  have "keeps_lessons (op_then (set_interview qid e)
         (op_bind (op_lift v) (\<lambda>v.
          let e1 = dset k v e
          in op_then (set_interview qid e1)
             (op_bind (if correct then op_lift (w e1) else op_return 0) (\<lambda>streak.
              op_then (set_interview qid (dset f_streak (JInt streak) e1))
              (op_then (op_when (cs \<noteq> []) (bump_concepts now correct cs)) save)))))) " for e v k w
    unfolding Let_def by (intro keeps_then keeps_bind keeps_simps keeps_when keeps_bump) (simp add: keeps_simps)
  note keep = this [unfolded keeps_lessons_def Let_def, rule_format]
  have "p_lessons (mem (snd (record_interview now qid correct cs s))) = p_lessons (mem s)"
    unfolding record_interview_def Let_def by (rule keep)
  then show "\<exists>a s'. record_interview now qid correct cs s = (Inr a, s') \<and> at_lessons ls s'"
    using t s by (simp add: at_lessons_def saved_def)
qed

lemma complete_evidence:
  assumes s: "at_lessons ls s" and c: "completion (mem s) cur l [] = Inr (True, ms)"
  shows "\<exists>t. mark_complete now l cur s = (Inr (True, []), t) \<and>
    tracks (l_id l) ls (enters ((known_entry ls (l_id l))\<lparr>en_marked := True\<rparr>)) t"
proof -
  let ?R = "enters ((known_entry ls (l_id l))\<lparr>en_marked := True\<rparr>)"
  have ret: "returns (tracks (l_id l) ls ?R) (op_return (True, [] :: missing list))
      (\<lambda>x s. x = (True, []) \<and> tracks (l_id l) ls ?R s)" by (simp add: returns_def op_return_def)
  have status: "returns (tracks (l_id l) ls (enters (known_entry ls (l_id l)))) (set_field (l_id l) f_status (JStr st_complete))
      (\<lambda>_. tracks (l_id l) ls ?R)"
    by (rule tracks_set) (auto simp: enters_def entry_status)
  have at: "returns (tracks (l_id l) ls ?R) (set_field (l_id l) f_completed_at (JStr now)) (\<lambda>_. tracks (l_id l) ls ?R)"
    by (rule tracks_set_other) auto
  have "returns (at_lessons ls) (op_bind (lesson_record (l_id l)) (\<lambda>_.
            op_then (set_field (l_id l) f_status (JStr st_complete))
            (op_then (set_field (l_id l) f_completed_at (JStr now))
            (op_then save (op_return (True, [] :: missing list))))))
      (\<lambda>x s. x = (True, []) \<and> tracks (l_id l) ls ?R s)"
    by (intro returns_bind [OF tracks_start] returns_then [OF status] returns_then [OF at]
        returns_then [OF tracks_save] ret)
  with s c show ?thesis by (auto simp: mark_complete_def returns_def)
qed

section \<open>From one record to the state\<close>

text \<open>The ledger of a state: the entry of every lesson that has a record.\<close>

definition ledger :: "progress \<Rightarrow> pystr \<Rightarrow> entry option" where
  "ledger st lid = map_option entry_of (dget (p_lessons st) lid)"

lemma ledger_entry: "known_entry (p_lessons st) lid = (case ledger st lid of None \<Rightarrow> no_entry | Some x \<Rightarrow> x)"
  by (simp add: known_entry_def ledger_def split: option.split)

lemma tracks_ledger: "tracks lid (p_lessons st) (enters x) t \<Longrightarrow> ledger (mem t) = (ledger st)(lid \<mapsto> x)"
  by (auto simp: tracks_def ledger_def enters_def dget_dset)

lemma ledger_run:
  assumes "returns (at_lessons (p_lessons (mem s))) m (\<lambda>_. tracks lid (p_lessons (mem s)) (enters x))" and "typed_store {} s"
  shows "ledger (mem (snd (m s))) = (ledger (mem s))(lid \<mapsto> x)"
proof (rule tracks_ledger)
  show "tracks lid (p_lessons (mem s)) (enters x) (snd (m s))"
    using assms unfolding returns_def by (fastforce simp: at_lessons_def)
qed

lemma progress_le_ledger:
  assumes "\<And>lid x. ledger st lid = Some x \<Longrightarrow> \<exists>y. ledger st' lid = Some y \<and> entry_le x y"
  shows "progress_le st st'"
  unfolding progress_le_def
proof (intro allI impI)
  fix lid r assume "dget (p_lessons st) lid = Some r"
  then have "ledger st lid = Some (entry_of r)" by (simp add: ledger_def)
  from assms [OF this] show "\<exists>r'. dget (p_lessons st') lid = Some r' \<and> record_le r r'"
    by (auto simp: ledger_def record_le_entry)
qed

lemma entry_le_refl [simp]: "entry_le x x"
  by (simp add: entry_le_def)

lemma entry_le_grows [simp]:
  "entry_le x (answer_entry k b x)" "entry_le x (check_entry b True m x)" "entry_le x (x\<lparr>en_marked := True\<rparr>)"
  by (auto simp: entry_le_def answer_entry_def check_entry_def outcome_entry_def Let_def)

text \<open>A failing check: the only command that takes evidence away.\<close>

fun loses_evidence :: "obj dict \<Rightarrow> command \<Rightarrow> bool" where
  "loses_evidence ls (Record_validation now lid b passed mandatory cs historical) \<longleftrightarrow>
     \<not> passed \<and> \<not> (historical \<and> stands ls lid b)"
| "loses_evidence ls _ \<longleftrightarrow> False"

lemma snd_ignore: "snd (ignore m s) = snd (m s)"
  by (simp add: ignore_def op_bind_def op_return_def split: prod.split sum.split)

text \<open>
  What each command does to the ledger.  \<open>mark_complete\<close> marks its lesson when its gates evaluate to
  true, and \<open>record_interview\<close> leaves every entry as it is.
\<close>

fun next_ledger :: "progress \<Rightarrow> command \<Rightarrow> pystr \<Rightarrow> entry option" where
  "next_ledger st (Mark_started now lid) = (ledger st)(lid \<mapsto> known_entry (p_lessons st) lid)"
| "next_ledger st (Record_step lid b) = (ledger st)(lid \<mapsto> known_entry (p_lessons st) lid)"
| "next_ledger st (Record_validation now lid b passed mandatory cs historical) = (ledger st)(lid \<mapsto>
     (let x = known_entry (p_lessons st) lid
      in if historical \<and> b \<in> en_passed x then x else check_entry b passed mandatory x))"
| "next_ledger st (Record_quiz now lid b correct cs) = (ledger st)(lid \<mapsto>
     (let x = known_entry (p_lessons st) lid in if correct then answer_entry f_quiz_correct b x else x))"
| "next_ledger st (Record_explain now lid b passed cs) = (ledger st)(lid \<mapsto>
     (let x = known_entry (p_lessons st) lid in if passed then answer_entry f_explain_done b x else x))"
| "next_ledger st (Record_hint lid i) = (ledger st)(lid \<mapsto> known_entry (p_lessons st) lid)"
| "next_ledger st (Record_interview now q correct cs) = ledger st"
| "next_ledger st (Mark_complete now l cur) =
     (if \<exists>ms. completion st cur l [] = Inr (True, ms)
      then (ledger st)(l_id l \<mapsto> (known_entry (p_lessons st) (l_id l))\<lparr>en_marked := True\<rparr>) else ledger st)"

lemma perform_ledger:
  assumes s: "typed_store {} s"
  shows "ledger (mem (snd (perform cmd s))) = next_ledger (mem s) cmd"
proof (cases cmd)
  case (Mark_complete now l cur)
  obtain b ms where c: "completion (mem s) cur l [] = Inr (b, ms)"
    using gates_total(2) s typed_store_full by blast
  show ?thesis
  proof (cases b)
    case True
    have "at_lessons (p_lessons (mem s)) s" using s by (simp add: at_lessons_def)
    from complete_evidence [OF this, of cur l ms now] c True show ?thesis
      using Mark_complete tracks_ledger by (auto simp: snd_ignore)
  qed (use Mark_complete c in \<open>simp add: snd_ignore mark_complete_def\<close>)
next
  case (Record_interview now q correct cs)
  have "p_lessons (mem (snd (record_interview now q correct cs s))) = p_lessons (mem s)"
    using interview_lessons [of "p_lessons (mem s)" now q correct cs] s
    unfolding returns_def by (fastforce simp: at_lessons_def)
  then show ?thesis using Record_interview by (simp add: ledger_def fun_eq_iff)
qed (use s in \<open>simp_all add: snd_ignore Let_def stands_entry [symmetric] ledger_run [OF started_evidence]
  ledger_run [OF step_evidence] ledger_run [OF validation_evidence] ledger_run [OF quiz_evidence]
  ledger_run [OF explain_evidence] ledger_run [OF hint_evidence]\<close>)

lemma perform_progress_le:
  assumes s: "typed_store {} s" and k: "\<not> loses_evidence (p_lessons (mem s)) cmd"
  shows "progress_le (mem s) (mem (snd (perform cmd s)))"
proof (rule progress_le_ledger, unfold perform_ledger [OF s])
  fix lid x assume "ledger (mem s) lid = Some x"
  then show "\<exists>y. next_ledger (mem s) cmd lid = Some y \<and> entry_le x y"
    using k by (cases cmd) (auto simp: Let_def ledger_entry stands_entry split: if_splits)
qed

end
