(* ===== verification/Progress_Certification.thy ===== *)
theory Progress_Certification
  imports Progress_Evidence
begin

text \<open>
  How lessons become certified and how they stop being so: what a successful \<open>mark_complete\<close> gives,
  what a failing mandatory check takes away from a lesson and everything behind it, and that a
  learner can always get every lesson whose chain is available certified.
\<close>

section \<open>Dependence\<close>

inductive depends_on :: "curriculum \<Rightarrow> pystr \<Rightarrow> pystr \<Rightarrow> bool" for c where
  itself: "depends_on c lid lid"
| through: "dget (c_lessons c) lid = Some l \<Longrightarrow> p \<in> set (l_prereqs l) \<Longrightarrow> depends_on c p x \<Longrightarrow> depends_on c lid x"

lemma certified_depends: "depends_on c lid x \<Longrightarrow> certified st c lid \<Longrightarrow> certified st c x"
  by (induction rule: depends_on.induct) (auto simp: certified_iff)

text \<open>The lessons the machine lets a learner complete.\<close>

inductive completable :: "curriculum \<Rightarrow> pystr \<Rightarrow> bool" for c where
  completable: "dget (c_lessons c) lid = Some l \<Longrightarrow> l_status l \<noteq> s_unavailable \<Longrightarrow>
    (\<And>p. p \<in> set (l_prereqs l) \<Longrightarrow> completable c p) \<Longrightarrow> completable c lid"

inductive_cases completableE: "completable c lid"

lemma certified_completable: "certified st c lid \<Longrightarrow> completable c lid"
  by (induction rule: certified.induct) (auto intro: completable.intros simp: gates_hold_def)

section \<open>A failing check\<close>

lemma failing_check:
  assumes s: "typed_store {} s" and k: "\<not> (historical \<and> stands (p_lessons (mem s)) lid b)"
    and run: "record_validation now lid b False True cs historical s = (r, t)"
  shows "\<not> marked_complete (mem t) lid"
    and "x \<noteq> lid \<Longrightarrow> dget (p_lessons (mem t)) x = dget (p_lessons (mem s)) x"
proof -
  let ?ls = "p_lessons (mem s)"
  have "at_lessons ?ls s" using s by (simp add: at_lessons_def)
  then have "tracks lid ?ls (enters (check_entry b False True (known_entry ?ls lid))) t"
    using validation_evidence [of ?ls now lid b False True cs historical] run
    unfolding returns_def if_not_P [OF k] by fastforce
  then obtain r where r: "p_lessons (mem t) = dset lid r ?ls" "entry_of r = check_entry b False True (known_entry ?ls lid)"
    by (auto simp: enters_def elim!: tracksE)
  then have "\<not> en_marked (entry_of r)" by (simp add: check_entry_def Let_def)
  with r(1) show "\<not> marked_complete (mem t) lid" and "x \<noteq> lid \<Longrightarrow> dget (p_lessons (mem t)) x = dget ?ls x"
    by (auto simp: marked_iff dget_dset)
qed

section \<open>Completing one lesson\<close>

fun failing :: "command \<Rightarrow> bool" where
  "failing (Record_validation now lid b passed mandatory cs historical) \<longleftrightarrow> \<not> passed"
| "failing _ \<longleftrightarrow> False"

lemma failing_loses: "loses_evidence ls cmd \<Longrightarrow> failing cmd"
  by (cases cmd) auto

fun run :: "command list \<Rightarrow> pstore \<Rightarrow> pstore" where
  "run [] s = s"
| "run (cmd # cmds) s = run cmds (snd (perform cmd s))"

lemma run_append [simp]: "run (xs @ ys) s = run ys (run xs s)"
  by (induction xs arbitrary: s) auto

lemma perform_healthy: "healthy s \<Longrightarrow> healthy (snd (perform cmd s))"
  using returns_perform [of cmd] unfolding returns_def by fastforce

lemma run_healthy: "healthy s \<Longrightarrow> healthy (run cmds s)"
  by (induction cmds arbitrary: s) (simp_all add: perform_healthy)

lemma run_progress_le:
  "healthy s \<Longrightarrow> \<forall>cmd \<in> set cmds. \<not> failing cmd \<Longrightarrow> progress_le (mem s) (mem (run cmds s))"
proof (induction cmds arbitrary: s)
  case (Cons cmd cmds)
  have "progress_le (mem s) (mem (snd (perform cmd s)))"
    using Cons.prems failing_loses by (intro perform_progress_le) (auto simp: healthy_def)
  then show ?case using Cons perform_healthy by (auto intro: progress_le_trans)
qed simp

lemma run_establishes:
  assumes "cmd \<in> set cmds" and "\<forall>cmd \<in> set cmds. \<not> failing cmd" and "healthy s"
    and "\<And>u. healthy u \<Longrightarrow> E (mem (snd (perform cmd u)))"
    and "\<And>st st'. progress_le st st' \<Longrightarrow> E st \<Longrightarrow> E st'"
  shows "E (mem (run cmds s))"
  using assms(1-3)
proof (induction cmds arbitrary: s)
  case (Cons x xs)
  then show ?case
    using assms(4,5) run_progress_le perform_healthy by (cases "x = cmd") (auto, blast)
qed simp

text \<open>The evidence of one block, as a predicate of the state.\<close>

definition evidence :: "(obj \<Rightarrow> bool) \<Rightarrow> pystr \<Rightarrow> progress \<Rightarrow> bool" where
  "evidence F lid st \<longleftrightarrow> (\<exists>r. dget (p_lessons st) lid = Some r \<and> F r)"

lemma evidence_mono:
  "(\<And>r r'. record_le r r' \<Longrightarrow> F r \<Longrightarrow> F r') \<Longrightarrow> progress_le st st' \<Longrightarrow> evidence F lid st \<Longrightarrow> evidence F lid st'"
  by (fastforce simp: evidence_def progress_le_def)

lemma evidence_perform:
  assumes m: "returns (at_lessons (p_lessons (mem s))) m (\<lambda>_. tracks lid (p_lessons (mem s)) R)"
    and "healthy s" and "\<And>r. R r \<Longrightarrow> F r"
  shows "evidence F lid (mem (snd (m s)))"
proof -
  have "at_lessons (p_lessons (mem s)) s" using assms(2) by (simp add: at_lessons_def healthy_def)
  then have "tracks lid (p_lessons (mem s)) R (snd (m s))" using m unfolding returns_def by fastforce
  then show ?thesis using assms(3) by (auto simp: evidence_def tracks_def dget_dset)
qed

definition evidence_commands :: "pystr \<Rightarrow> lesson \<Rightarrow> command list" where
  "evidence_commands now l =
     Mark_started now (l_id l) #
     map (\<lambda>b. Record_validation now (l_id l) (block_id b) True True (l_concepts l) False) (mandatory_validators l) @
     map (\<lambda>q. Record_quiz now (l_id l) q True (l_concepts l)) (required_quiz_ids l) @
     map (\<lambda>e. Record_explain now (l_id l) e True (l_concepts l)) (required_explain_ids l)"

lemma evidence_commands_ok: "\<forall>cmd \<in> set (evidence_commands now l). \<not> failing cmd"
  by (auto simp: evidence_commands_def)

lemma evidence_gathered:
  assumes s: "healthy s" and l: "l_status l \<noteq> s_unavailable"
  shows "gates_hold (mem (run (evidence_commands now l) s)) l"
proof -
  let ?t = "mem (run (evidence_commands now l) s)"
  note est = run_establishes [OF _ evidence_commands_ok s]
  have "evidence (\<lambda>_. True) (l_id l) ?t"
  proof (rule est [of "Mark_started now (l_id l)"])
    show "evidence (\<lambda>_. True) (l_id l) (mem (snd (perform (Mark_started now (l_id l)) u)))" if "healthy u" for u
      using evidence_perform [OF started_evidence that] by simp
  qed (auto simp: evidence_commands_def intro: evidence_mono)
  then obtain r where r: "dget (p_lessons ?t) (l_id l) = Some r" by (auto simp: evidence_def)
  have "has_passed r (block_id b)" if "b \<in> set (mandatory_validators l)" for b
  proof -
    have "evidence (\<lambda>r. has_passed r (block_id b)) (l_id l) ?t"
    proof (rule est [of "Record_validation now (l_id l) (block_id b) True True (l_concepts l) False"])
      show "evidence (\<lambda>r. has_passed r (block_id b)) (l_id l)
          (mem (snd (perform (Record_validation now (l_id l) (block_id b) True True (l_concepts l) False) u)))"
        if "healthy u" for u
        using evidence_perform [OF validation_evidence [where historical = False, simplified] that]
        by (simp add: enters_def check_entry_def outcome_entry_def Let_def flip: entry_sel)
    qed (use that in \<open>auto simp: evidence_commands_def record_le_def intro: evidence_mono\<close>)
    then show ?thesis using r by (simp add: evidence_def)
  qed
  moreover have "has_id r f_quiz_correct q" if "q \<in> set (required_quiz_ids l)" for q
  proof -
    have "evidence (\<lambda>r. has_id r f_quiz_correct q) (l_id l) ?t"
    proof (rule est [of "Record_quiz now (l_id l) q True (l_concepts l)"])
      show "evidence (\<lambda>r. has_id r f_quiz_correct q) (l_id l)
          (mem (snd (perform (Record_quiz now (l_id l) q True (l_concepts l)) u)))" if "healthy u" for u
        using evidence_perform [OF quiz_evidence that] by (simp add: enters_def answer_entry_def flip: entry_sel)
    qed (use that in \<open>auto simp: evidence_commands_def record_le_def intro: evidence_mono\<close>)
    then show ?thesis using r by (simp add: evidence_def)
  qed
  moreover have "has_id r f_explain_done q" if "q \<in> set (required_explain_ids l)" for q
  proof -
    have "evidence (\<lambda>r. has_id r f_explain_done q) (l_id l) ?t"
    proof (rule est [of "Record_explain now (l_id l) q True (l_concepts l)"])
      show "evidence (\<lambda>r. has_id r f_explain_done q) (l_id l)
          (mem (snd (perform (Record_explain now (l_id l) q True (l_concepts l)) u)))" if "healthy u" for u
        using evidence_perform [OF explain_evidence that] by (simp add: enters_def answer_entry_def flip: entry_sel)
    qed (use that in \<open>auto simp: evidence_commands_def record_le_def intro: evidence_mono\<close>)
    then show ?thesis using r by (simp add: evidence_def)
  qed
  ultimately show ?thesis using l r by (auto simp: gates_iff record_suffices_def list_all_iff)
qed

lemma perform_complete: "snd (perform (Mark_complete now l cur) s) = snd (mark_complete now l cur s)"
  by (simp add: snd_ignore)

lemma mark_complete_exact:
  assumes ok: "curriculum_ok known tc c" and full: "full_state (mem s)" and l: "dget (c_lessons c) lid = Some l"
  shows "\<exists>holds ms t. mark_complete now l (Some c) s = (Inr (holds, ms), t) \<and>
    (holds \<longleftrightarrow> gates_hold (mem s) l \<and> (\<forall>p \<in> set (l_prereqs l). certified (mem s) c p)) \<and>
    (if holds then certified (mem t) c lid \<and> ms = [] \<and> progress_le (mem s) (mem t) else t = s \<and> ms \<noteq> [])"
proof -
  obtain ms where c: "completion (mem s) (Some c) l [] = Inr (ms = [], ms)"
    and ms: "ms = [] \<longleftrightarrow> gates_hold (mem s) l \<and> (\<forall>p \<in> set (l_prereqs l). certified (mem s) c p)"
    using completion_certified [OF ok full l] by blast
  have id: "l_id l = lid" using ok map_of_SomeD [OF l] by (auto simp: curriculum_ok_def)
  show ?thesis
  proof (cases "ms = []")
    case False
    then show ?thesis using c ms by (auto simp: mark_complete_def)
  next
    case True
    have "at_lessons (p_lessons (mem s)) s"
      using full by (simp add: at_lessons_def typed_store_full)
    then obtain t where t: "mark_complete now l (Some c) s = (Inr (True, []), t)"
      and tr: "tracks lid (p_lessons (mem s)) (enters ((known_entry (p_lessons (mem s)) lid)\<lparr>en_marked := True\<rparr>)) t"
      using complete_evidence [of "p_lessons (mem s)" s "Some c" l "[]" now] c True id by auto
    have "typed_store {} s" using full by (simp add: typed_store_full)
    from perform_progress_le [OF this, of "Mark_complete now l (Some c)"] t
    have le: "progress_le (mem s) (mem t)" by (simp add: snd_ignore)
    have "ledger (mem t) lid = Some ((known_entry (p_lessons (mem s)) lid)\<lparr>en_marked := True\<rparr>)"
      using tracks_ledger [OF tr] by simp
    then have "marked_complete (mem t) lid" by (auto simp: marked_iff ledger_def simp flip: entry_sel)
    moreover have "gates_hold (mem t) l" using ms True le gates_mono by blast
    moreover have "\<forall>p \<in> set (l_prereqs l). certified (mem t) c p" using ms True le certified_mono by blast
    ultimately have "certified (mem t) c lid" using l by (simp add: certified_iff)
    then show ?thesis using t ms True le by auto
  qed
qed

definition lesson_commands :: "pystr \<Rightarrow> curriculum \<Rightarrow> lesson \<Rightarrow> command list" where
  "lesson_commands now c l = evidence_commands now l @ [Mark_complete now l (Some c)]"

lemma lesson_commands_certify:
  assumes ok: "curriculum_ok known tc c" and s: "healthy s" and l: "dget (c_lessons c) lid = Some l"
    and avail: "l_status l \<noteq> s_unavailable" and pre: "\<forall>p \<in> set (l_prereqs l). certified (mem s) c p"
  shows "certified (mem (run (lesson_commands now c l) s)) c lid"
proof -
  define u where "u = run (evidence_commands now l) s"
  have u: "full_state (mem u)"
    using run_healthy [OF s] by (simp add: u_def healthy_def typed_store_full)
  have "gates_hold (mem u) l" unfolding u_def by (rule evidence_gathered [OF s avail])
  moreover have "\<forall>p \<in> set (l_prereqs l). certified (mem u) c p"
    using pre certified_mono run_progress_le [OF s evidence_commands_ok] unfolding u_def by blast
  ultimately have "certified (mem (snd (mark_complete now l (Some c) u))) c lid"
    using mark_complete_exact [OF ok u l, of now] by (auto split: if_splits)
  then show ?thesis by (simp only: lesson_commands_def run_append run.simps perform_complete u_def)
qed

lemma lesson_commands_ok: "\<forall>cmd \<in> set (lesson_commands now c l). \<not> failing cmd"
  using evidence_commands_ok by (auto simp: lesson_commands_def)

section \<open>The whole program\<close>

lemma position_nth: "x \<in> set xs \<Longrightarrow> xs ! position xs x = x"
  unfolding position_def by (induction xs) auto

lemma position_inj: "x \<in> set xs \<Longrightarrow> y \<in> set xs \<Longrightarrow> position xs x = position xs y \<Longrightarrow> x = y"
  by (metis position_nth)

lemma certify_prefix:
  assumes ok: "curriculum_ok known tc c" and s: "healthy s"
  shows "\<exists>cmds. (\<forall>cmd \<in> set cmds. \<not> failing cmd) \<and>
    (\<forall>lid \<in> set (c_order c). position (c_order c) lid < n \<longrightarrow> completable c lid \<longrightarrow>
      certified (mem (run cmds s)) c lid)"
proof (induction n)
  case 0
  show ?case by (rule exI [of _ "[]"]) simp
next
  case (Suc n)
  then obtain cmds where cmds: "\<forall>cmd \<in> set cmds. \<not> failing cmd"
    and below: "\<And>lid. lid \<in> set (c_order c) \<Longrightarrow> position (c_order c) lid < n \<Longrightarrow> completable c lid \<Longrightarrow>
      certified (mem (run cmds s)) c lid" by blast
  show ?case
  proof (cases "\<exists>lid \<in> set (c_order c). position (c_order c) lid = n \<and> completable c lid")
    case False
    then show ?thesis using cmds below by (auto simp: less_Suc_eq)
  next
    case True
    then obtain lid where lid: "lid \<in> set (c_order c)" "position (c_order c) lid = n" "completable c lid" by blast
    obtain l where l: "dget (c_lessons c) lid = Some l"
      and pre: "\<And>p. p \<in> set (l_prereqs l) \<Longrightarrow>
        p \<in> set (c_order c) \<and> position (c_order c) p < position (c_order c) lid"
      using curriculum_lesson [OF ok lid(1)] by metis
    have avail: "l_status l \<noteq> s_unavailable" and cpre: "\<And>p. p \<in> set (l_prereqs l) \<Longrightarrow> completable c p"
      using lid(3) l by (auto elim: completableE)
    let ?more = "lesson_commands [] c l" and ?u = "run cmds s"
    have "certified (mem (run ?more ?u)) c lid"
      using below pre cpre lid(2)
      by (intro lesson_commands_certify [OF ok run_healthy [OF s] l avail]) auto
    moreover have "certified (mem (run ?more ?u)) c x" if "certified (mem ?u) c x" for x
      using that run_progress_le [OF run_healthy [OF s] lesson_commands_ok] certified_mono by blast
    ultimately have "\<forall>x \<in> set (c_order c). position (c_order c) x < Suc n \<longrightarrow> completable c x \<longrightarrow>
        certified (mem (run (cmds @ ?more) s)) c x"
      using below lid position_inj by (metis less_antisym run_append)
    moreover have "\<forall>cmd \<in> set (cmds @ ?more). \<not> failing cmd" using cmds lesson_commands_ok by auto
    ultimately show ?thesis by blast
  qed
qed

lemma certify_all:
  assumes "curriculum_ok known tc c" and "healthy s"
  shows "\<exists>cmds. (\<forall>cmd \<in> set cmds. \<not> failing cmd) \<and>
    (\<forall>lid \<in> set (c_order c). certified (mem (run cmds s)) c lid \<longleftrightarrow> completable c lid)"
proof -
  obtain cmds where cmds: "\<forall>cmd \<in> set cmds. \<not> failing cmd"
    and all: "\<And>lid. lid \<in> set (c_order c) \<Longrightarrow> position (c_order c) lid < Suc (length (c_order c)) \<Longrightarrow>
      completable c lid \<Longrightarrow> certified (mem (run cmds s)) c lid"
    using certify_prefix [OF assms, of "Suc (length (c_order c))"] by blast
  have "position (c_order c) lid < Suc (length (c_order c))" for lid
    using length_takeWhile_le [of "\<lambda>x. x \<noteq> lid" "c_order c"] by (simp add: position_def)
  then show ?thesis using cmds all certified_completable by blast
qed

section \<open>Where to go next\<close>

definition actionable :: "progress \<Rightarrow> curriculum \<Rightarrow> pystr \<Rightarrow> bool" where
  "actionable st c lid \<longleftrightarrow> (\<exists>l. dget (c_lessons c) lid = Some l \<and> l_status l \<noteq> s_unavailable \<and>
     \<not> certified st c lid \<and> (\<forall>p \<in> set (l_prereqs l). certified st c p))"

lemma completion_map_exact:
  assumes "curriculum_ok known tc c" and "full_state st"
  shows "completion_map st c = Inr (map (\<lambda>lid. (lid, certified st c lid)) (c_order c))"
  unfolding completion_map_def using is_complete_certified [OF assms] by (intro res_map_all) simp

lemma dget_map_fun: "dget (map (\<lambda>x. (x, f x)) xs) k = (if k \<in> set xs then Some (f k) else None)"
  by (induction xs) auto

lemma actionable_exact:
  assumes ok: "curriculum_ok known tc c"
  shows "is_actionable c (map (\<lambda>lid. (lid, certified st c lid)) (c_order c)) lid = actionable st c lid"
proof (cases "dget (c_lessons c) lid")
  case None
  then show ?thesis by (simp add: is_actionable_def actionable_def)
next
  case (Some l)
  then have "dget (c_lessons c) lid \<noteq> None" by simp
  then have lid: "lid \<in> set (c_order c)" using ok unfolding dget_None by (simp add: curriculum_ok_def)
  obtain l' where l': "dget (c_lessons c) lid = Some l'" and pre: "\<And>p. p \<in> set (l_prereqs l') \<Longrightarrow> p \<in> set (c_order c)"
    using curriculum_lesson [OF ok lid] by metis
  then have [simp]: "l' = l" using Some by simp
  show ?thesis using Some lid pre
    by (auto simp: is_actionable_def actionable_def dget_map_fun list_all_iff)
qed

lemma resume_exact:
  assumes ok: "curriculum_ok known tc c" and full: "full_state st"
  shows "\<exists>lid. resume_lesson_id st c = Inr lid \<and>
    (if \<exists>x. actionable st c x
     then actionable st c lid \<and> (\<forall>x. p_last st = JStr x \<and> actionable st c x \<longrightarrow> lid = x)
     else lid = last (c_order c))"
proof -
  let ?cm = "map (\<lambda>lid. (lid, certified st c lid)) (c_order c)"
  have order: "x \<in> set (c_order c)" if "actionable st c x" for x
  proof -
    have "dget (c_lessons c) x \<noteq> None" using that by (auto simp: actionable_def)
    then show ?thesis using ok unfolding dget_None by (simp add: curriculum_ok_def)
  qed
  have ne: "c_order c \<noteq> []" using ok unfolding curriculum_ok_def by blast
  have act: "is_actionable c ?cm = actionable st c" using actionable_exact [OF ok] by blast
  have first: "\<exists>lid. first_actionable c ?cm = Inr lid \<and>
      (if \<exists>x. actionable st c x then actionable st c lid else lid = last (c_order c))"
  proof (cases "List.find (actionable st c) (c_order c)")
    case None
    then have "\<not> (\<exists>x. actionable st c x)" using order by (auto simp: find_None_iff)
    then show ?thesis using ne None by (simp add: first_actionable_def act)
  next
    case (Some x)
    then have x: "actionable st c x" by (auto simp: find_Some_iff)
    then have "\<exists>x. actionable st c x" by blast
    then show ?thesis using Some x by (intro exI [of _ x]) (simp add: first_actionable_def act)
  qed
  show ?thesis
  proof (cases "\<exists>x. p_last st = JStr x \<and> actionable st c x")
    case True
    then show ?thesis by (auto simp: resume_lesson_id_def completion_map_exact [OF ok full] act)
  next
    case False
    have "resume_lesson_id st c = first_actionable c ?cm"
      using False by (cases "p_last st") (auto simp: resume_lesson_id_def completion_map_exact [OF ok full] act)
    with first obtain lid where lid: "resume_lesson_id st c = Inr lid"
      "if \<exists>x. actionable st c x then actionable st c lid else lid = last (c_order c)" by auto
    have none: "\<not> (p_last st = JStr x \<and> actionable st c x)" for x using False by blast
    show ?thesis
    proof (cases "\<exists>x. actionable st c x")
      case True
      then show ?thesis using lid none by (intro exI [of _ lid]) (simp, blast)
    next
      case no: False
      then show ?thesis using lid by (intro exI [of _ lid]) simp
    qed
  qed
qed

text \<open>While a completable lesson is not certified, some lesson is actionable.\<close>

lemma some_actionable:
  "completable c lid \<Longrightarrow> \<not> certified st c lid \<Longrightarrow> \<exists>x. completable c x \<and> actionable st c x"
proof (induction rule: completable.induct)
  case (completable lid l)
  show ?case
  proof (cases "\<forall>p \<in> set (l_prereqs l). certified st c p")
    case True
    then show ?thesis using completable completable.intros [of c lid l] by (auto simp: actionable_def)
  qed (use completable in blast)
qed

end
