(* ===== verification/Progress_Reload.thy ===== *)
theory Progress_Reload
  imports Progress_Certification
begin

text \<open>
  Stopping and starting again (\<open>_save_locked\<close> and \<open>_load\<close> of \<open>learning/server/progress.py\<close>): what
  is read back from the file that was saved.  The file has its keys sorted, so the state comes back
  with sorted dicts (\<open>canon_state\<close>), which no gate can tell apart from the one saved; unless a
  counter has passed the limit of the loader, in which case everything is reset.
\<close>

section \<open>Sorted states\<close>

definition canon_obj :: "obj \<Rightarrow> obj" where
  "canon_obj r = sort_key fst (map (\<lambda>(k, v). (k, canon v)) r)"

definition canon_section :: "obj dict \<Rightarrow> obj dict" where
  "canon_section rs = sort_key fst (map (\<lambda>(k, r). (k, canon_obj r)) rs)"

definition canon_state :: "progress \<Rightarrow> progress" where
  "canon_state st = \<lparr>p_version = p_version st, p_last = p_last st, p_lessons = canon_section (p_lessons st),
     p_concepts = canon_section (p_concepts st), p_interview = canon_section (p_interview st),
     p_other = canon_obj (p_other st)\<rparr>"

lemma insort_key_map: "(\<And>x. g (f x) = h x) \<Longrightarrow> insort_key g (f a) (map f xs) = map f (insort_key h a xs)"
  by (induction xs) auto

lemma sort_key_map: "(\<And>x. g (f x) = h x) \<Longrightarrow> sort_key g (map f xs) = map f (sort_key h xs)"
  by (induction xs) (simp_all add: sort_key_def insort_key_map)

lemma canon_JObj: "canon (JObj r) = JObj (canon_obj r)"
  by (simp add: canon_obj_def)

lemma dget_map_snd: "dget (map (\<lambda>(k, v). (k, f v)) d) k = map_option f (dget d k)"
  by (induction d) auto

lemma dget_canon_obj: "dict_ok r \<Longrightarrow> dget (canon_obj r) k = map_option canon (dget r k)"
  by (simp add: canon_obj_def dget_sort dget_map_snd)

lemma dget_canon_section: "dict_ok rs \<Longrightarrow> dget (canon_section rs) k = map_option canon_obj (dget rs k)"
  by (simp add: canon_section_def dget_sort dget_map_snd)

lemma set_canon_section: "set (canon_section rs) = (\<lambda>(k, r). (k, canon_obj r)) ` set rs"
  by (simp add: canon_section_def)

lemma section_json_canon: "canon (section_json rs) = section_json (canon_section rs)"
  by (simp add: section_json_def canon_section_def canon_obj_def sort_key_map [of fst _ fst]
      comp_def case_prod_unfold)

lemma records_of_map: "records_of (map (\<lambda>(k, r). (k, JObj r)) rs) = Some rs"
  by (induction rs) auto

section \<open>What the loader makes of a sorted record\<close>

lemma canon_null [simp]: "canon v = JNull \<longleftrightarrow> v = JNull"
  by (cases v) auto

lemma canon_str [simp]: "canon v = JStr s \<longleftrightarrow> v = JStr s"
  by (cases v) auto

lemma canon_bool [simp]: "canon v = JBool b \<longleftrightarrow> v = JBool b"
  by (cases v) auto

lemma is_str_canon [simp]: "is_str (canon v) = is_str v" "is_bool (canon v) = is_bool v"
  by (cases v; simp)+

lemma get_or_canon: "dict_ok r \<Longrightarrow> get_or JNull (canon_obj r) k = canon (get_or JNull r k)"
  by (simp add: get_or_def dget_canon_obj split: option.split)

lemma valid_counter_canon [simp]: "valid_counter (canon v) = valid_counter v"
  by (cases v) (auto simp: valid_counter_def)

lemma valid_str_list_canon [simp]: "valid_str_list (canon v) = valid_str_list v"
  by (cases v) (auto simp: valid_str_list_def list_all_iff)

lemma valid_outcome_canon: "wf_json v \<Longrightarrow> valid_outcome (canon v) = valid_outcome v"
  by (cases v) (auto simp: valid_outcome_def canon_JObj get_or_canon simp del: canon.simps(2))

lemma valid_validations_canon: "wf_json v \<Longrightarrow> valid_validations (canon v) = valid_validations v"
proof (cases v)
  case (JObj d)
  assume "wf_json v"
  then have "valid_outcome (canon x) = valid_outcome x" if "(k, x) \<in> set d" for k x
    using JObj that by (intro valid_outcome_canon) auto
  then have "(\<forall>(k, x) \<in> set (canon_obj d). valid_outcome x) \<longleftrightarrow> (\<forall>(k, x) \<in> set d. valid_outcome x)"
    by (auto simp: canon_obj_def)
  then show ?thesis
    using JObj by (simp add: valid_validations_def canon_JObj list_all_iff del: canon.simps)
qed (auto simp: valid_validations_def)

lemma wf_get_or: "wf_json (JObj r) \<Longrightarrow> wf_json (get_or JNull r k)"
  by (auto simp: get_or_def dest: map_of_SomeD split: option.split)

lemma record_is_valid_canon:
  assumes "wf_json (JObj r)"
  shows "record_is_valid sec (canon_obj r) = record_is_valid sec r"
proof -
  have "dict_ok r" using assms by simp
  then show ?thesis
    using valid_validations_canon [OF wf_get_or [OF assms]]
    by (simp add: record_is_valid_def get_or_canon)
qed

lemma load_section_json:
  assumes "get_or (JObj []) data key = section_json (canon_section rs)" and "wf_json (section_json rs)"
  shows "load_section data key sec =
    (if list_all (\<lambda>(k, r). record_is_valid sec r) rs then Some (canon_section rs) else None)"
proof -
  have "list_all (\<lambda>(k, r). record_is_valid sec r) (canon_section rs) \<longleftrightarrow>
      list_all (\<lambda>(k, r). record_is_valid sec r) rs"
    using assms(2) record_is_valid_canon [of _ sec]
    by (fastforce simp: list_all_iff set_canon_section section_json_def)
  then show ?thesis
    using assms(1) by (simp add: load_section_def section_json_def records_of_map)
qed

section \<open>The file that was saved\<close>

lemma state_keys_distinct: "distinct state_keys"
  by (simp add: state_keys_def state_key_defs)

definition state_fields :: "progress \<Rightarrow> obj" where
  "state_fields st = [(k_version, p_version st), (k_last_lesson_id, p_last st), (k_lessons, section_json (p_lessons st)),
       (k_concept_section, section_json (p_concepts st)), (k_interview, section_json (p_interview st))]"

lemma dget_state_fields:
  "dget (state_fields st @ d) k_version = Some (p_version st)"
  "dget (state_fields st @ d) k_last_lesson_id = Some (p_last st)"
  "dget (state_fields st @ d) k_lessons = Some (section_json (p_lessons st))"
  "dget (state_fields st @ d) k_concept_section = Some (section_json (p_concepts st))"
  "dget (state_fields st @ d) k_interview = Some (section_json (p_interview st))"
  using state_keys_distinct by (auto simp: state_fields_def state_keys_def)

lemma state_json_fields: "state_json st = JObj (state_fields st @ p_other st)"
  by (simp add: state_json_def state_fields_def)

definition sections_valid :: "progress \<Rightarrow> bool" where
  "sections_valid st \<longleftrightarrow>
     list_all (\<lambda>(k, r). record_is_valid Lessons r) (p_lessons st) \<and>
     list_all (\<lambda>(k, r). record_is_valid Concepts r) (p_concepts st) \<and>
     list_all (\<lambda>(k, r). record_is_valid Interview r) (p_interview st)"

lemma accept_saved:
  assumes t: "typed_state st" and wf: "wf_json (state_json st)"
  shows "accept_state (canon (state_json st)) = (if sections_valid st then Some (canon_state st) else None)"
proof -
  let ?d = "state_fields st @ p_other st"
  have ok: "dict_ok ?d" using wf by (simp add: state_json_fields)
  have wfs: "wf_json (section_json (p_lessons st))" "wf_json (section_json (p_concepts st))"
    "wf_json (section_json (p_interview st))"
    using wf by (auto simp: state_json_fields state_fields_def)
  have get: "get_or v (canon_obj ?d) k = canon w" if "dget ?d k = Some w" for v k w
    using that by (simp add: get_or_def dget_canon_obj [OF ok])
  note gets = get [OF dget_state_fields(1)] get [OF dget_state_fields(2)] get [OF dget_state_fields(3)]
    get [OF dget_state_fields(4)] get [OF dget_state_fields(5)]
  have version: "p_version st = JInt STATE_VERSION" and last: "p_last st = JNull \<or> is_str (p_last st)"
    using t by (simp_all add: typed_state_def)
  have canon_last: "canon (p_last st) = p_last st" using last by (auto simp: is_str_iff)
  have other: "set (dkeys (p_other st)) \<inter> set state_keys = {}"
    using ok by (auto simp: dict_ok_def dkeys_def state_fields_def state_keys_def)
  have "filter (\<lambda>(k, v). k \<notin> set state_keys) (canon_obj ?d) = canon_obj (p_other st)"
  proof -
    have "filter (\<lambda>(k, v). k \<notin> set state_keys) (map (\<lambda>(k, v). (k, canon v)) (p_other st)) =
        map (\<lambda>(k, v). (k, canon v)) (p_other st)"
      using other by (intro filter_True) (auto simp: dkeys_def)
    then show ?thesis
      unfolding canon_obj_def filter_sort map_append filter_append
      by (simp add: state_fields_def state_keys_def)
  qed
  then show ?thesis
    using load_section_json [OF gets(3) [unfolded section_json_canon] wfs(1), of Lessons]
      load_section_json [OF gets(4) [unfolded section_json_canon] wfs(2), of Concepts]
      load_section_json [OF gets(5) [unfolded section_json_canon] wfs(3), of Interview]
      version last canon_last
    by (simp add: state_json_fields canon_JObj accept_state_def gets sections_valid_def canon_state_def
        del: canon.simps(2)) blast
qed

lemma reload_exact:
  assumes "typed_state st" and "wf_json (state_json st)" and "plain (builtin_int cap) (state_json st)"
    and "containers (state_json st) \<le> depth"
  shows "load_progress cap depth (Progress_file (ReadText (dumps_indent2 fr (state_json st)))) =
    (if sections_valid st then (canon_state st, False) else (empty_state, True))"
  using accept_saved [OF assms(1,2)] loads_dumps_indent2 [OF assms(3,2,4)]
  by (simp add: load_progress_def)

section \<open>Nothing that matters has changed\<close>

lemma wf_obj: "wf_json (JObj ps) \<longleftrightarrow> dict_ok ps \<and> (\<forall>p \<in> set ps. wf_json (snd p))"
  by auto

lemma wf_obj_get: "wf_json (JObj r) \<Longrightarrow> dget r k = Some v \<Longrightarrow> wf_json v"
  by (force simp: wf_obj simp del: wf_json.simps dest: map_of_SomeD)

lemma has_passed_canon:
  assumes "wf_json (JObj r)"
  shows "has_passed (canon_obj r) b = has_passed r b"
proof -
  have r: "dict_ok r" using assms by simp
  show ?thesis
  proof (cases "\<exists>d. dget r f_validations = Some (JObj d)")
    case True
    then obtain d where d: "dget r f_validations = Some (JObj d)" by blast
    have wd: "wf_json (JObj d)" by (rule wf_obj_get [OF assms d])
    show ?thesis
    proof (cases "\<exists>oc. dget d b = Some (JObj oc)")
      case True
      then obtain oc where oc: "dget d b = Some (JObj oc)" by blast
      then have "wf_json (JObj oc)" by (rule wf_obj_get [OF wd])
      then have "dget (canon_obj oc) f_passed = map_option canon (dget oc f_passed)" by (simp add: dget_canon_obj)
      then show ?thesis using d oc wd r by (auto simp: has_passed_def dget_canon_obj canon_JObj simp del: canon.simps(2))
    next
      case False
      then show ?thesis using d wd r
        by (cases "dget d b"; cases "the (dget d b)")
          (auto simp: has_passed_def dget_canon_obj canon_JObj simp del: canon.simps(2))
    qed
  next
    case False
    then show ?thesis using r
      by (cases "dget r f_validations"; cases "the (dget r f_validations)")
        (auto simp: has_passed_def dget_canon_obj)
  qed
qed

lemma canon_str_sym: "JStr s = canon v \<longleftrightarrow> v = JStr s"
  by (cases v) auto

lemma has_id_canon: "dict_ok r \<Longrightarrow> has_id (canon_obj r) k b = has_id r k b"
  by (cases "dget r k"; cases "the (dget r k)") (auto simp: has_id_def dget_canon_obj image_iff canon_str_sym)

lemma record_le_canon:
  assumes "wf_json (JObj r)"
  shows "record_le r (canon_obj r)" and "record_le (canon_obj r) r"
proof -
  have r: "dict_ok r" using assms by simp
  have "dget (canon_obj r) f_status = Some (JStr s) \<longleftrightarrow> dget r f_status = Some (JStr s)" for s
    using r by (auto simp: dget_canon_obj)
  then show "record_le r (canon_obj r)" and "record_le (canon_obj r) r"
    using has_passed_canon [OF assms] has_id_canon [OF r] by (simp_all add: record_le_def)
qed

lemma wf_section: "wf_json (section_json rs) \<longleftrightarrow> dict_ok rs \<and> (\<forall>(k, r) \<in> set rs. wf_json (JObj r))"
  by (simp add: section_json_def wf_obj case_prod_unfold dict_ok_def dkeys_def comp_def del: wf_json.simps)

lemma wf_section_get: "wf_json (section_json rs) \<Longrightarrow> dget rs k = Some r \<Longrightarrow> wf_json (JObj r)"
  by (auto simp: wf_section simp del: wf_json.simps dest: map_of_SomeD)

lemma certified_canon:
  assumes "wf_json (state_json st)"
  shows "certified (canon_state st) c lid = certified st c lid"
proof -
  have wf: "wf_json (section_json (p_lessons st))"
    using assms by (auto simp: state_json_fields state_fields_def)
  have ls: "dict_ok (p_lessons st)" using wf unfolding wf_section by simp
  have rs: "\<And>k r. dget (p_lessons st) k = Some r \<Longrightarrow> wf_json (JObj r)" by (rule wf_section_get [OF wf])
  have "progress_le st (canon_state st)" "progress_le (canon_state st) st"
    using ls rs record_le_canon
    by (auto simp: progress_le_def canon_state_def dget_canon_section)
  then show ?thesis using certified_mono by blast
qed

section \<open>Every dict has each key once, whatever happened\<close>

definition wf_store :: "pstore \<Rightarrow> bool" where
  "wf_store s \<longleftrightarrow> wf_json (state_json (mem s))"

definition keeps_wf :: "'a op \<Rightarrow> bool" where
  "keeps_wf m \<longleftrightarrow> (\<forall>s. wf_store s \<longrightarrow> wf_store (snd (m s)))"

lemma wf_section_dset:
  "wf_json (section_json rs) \<Longrightarrow> wf_json (JObj r) \<Longrightarrow> wf_json (section_json (dset k r rs))"
  using set_dset [of k r rs] by (auto simp: wf_section simp del: wf_json.simps)

lemma wf_obj_dset: "wf_json (JObj r) \<Longrightarrow> wf_json v \<Longrightarrow> wf_json (JObj (dset k v r))"
  using set_dset [of k v r] by auto

lemma wf_store_iff:
  "wf_store s \<longleftrightarrow> wf_json (p_version (mem s)) \<and> wf_json (p_last (mem s)) \<and>
     wf_json (section_json (p_lessons (mem s))) \<and> wf_json (section_json (p_concepts (mem s))) \<and>
     wf_json (section_json (p_interview (mem s))) \<and> wf_json (JObj (p_other (mem s))) \<and>
     set (dkeys (p_other (mem s))) \<inter> set state_keys = {}"
proof -
  have "dict_ok (state_fields st @ d) \<longleftrightarrow> dict_ok d \<and> set (dkeys d) \<inter> set state_keys = {}" for st d
    using state_keys_distinct by (auto simp: dict_ok_def dkeys_def state_fields_def state_keys_def)
  then show ?thesis by (auto simp: wf_store_def state_json_fields state_fields_def)
qed

lemma keeps_wf_bind: "keeps_wf m \<Longrightarrow> (\<And>a. keeps_wf (f a)) \<Longrightarrow> keeps_wf (op_bind m f)"
  by (auto simp: keeps_wf_def op_bind_def split: prod.split sum.split)

lemma keeps_wf_then: "keeps_wf m \<Longrightarrow> keeps_wf k \<Longrightarrow> keeps_wf (op_then m k)"
  unfolding op_then_def by (rule keeps_wf_bind)

lemma keeps_wf_simps:
  "keeps_wf (op_return a)" "keeps_wf (op_lift r)" "keeps_wf save" "keeps_wf (get_record lid)" "keeps_wf (get_field lid k)"
  "keeps_wf (set_last lid)"
  by (auto simp: keeps_wf_def op_return_def op_lift_def save_def get_record_def get_field_def op_bind_def
      set_last_def wf_store_iff split: option.splits)

lemma keeps_wf_when: "keeps_wf m \<Longrightarrow> keeps_wf (op_when b m)"
  by (simp add: op_when_def keeps_wf_simps)

lemma keeps_wf_finish: "keeps_wf (finish lid)"
  unfolding finish_def by (intro keeps_wf_then keeps_wf_simps)

lemma keeps_wf_set_field: "wf_json v \<Longrightarrow> keeps_wf (set_field lid k v)"
  unfolding keeps_wf_def set_field_def get_record_def op_bind_def put_record_def wf_store_iff
  by (auto simp del: wf_json.simps intro: wf_section_dset wf_obj_dset wf_section_get split: option.split)

lemma keeps_wf_update:
  assumes "\<And>v w. wf_json v \<Longrightarrow> f v = Inr w \<Longrightarrow> wf_json w"
  shows "keeps_wf (update_field lid k f)"
  unfolding keeps_wf_def
proof (intro allI impI)
  fix s assume s: "wf_store s"
  show "wf_store (snd (update_field lid k f s))"
  proof (cases "\<exists>r v w. dget (p_lessons (mem s)) lid = Some r \<and> dget r k = Some v \<and> f v = Inr w")
    case True
    then obtain r v w where r: "dget (p_lessons (mem s)) lid = Some r" "dget r k = Some v" "f v = Inr w" by blast
    have "wf_json (JObj r)" using s r(1) by (auto simp only: wf_store_iff intro: wf_section_get)
    then have "wf_json v" using r(2) by (auto dest: map_of_SomeD)
    from keeps_wf_set_field [OF assms [OF this r(3)], of lid k] s
    show ?thesis using r by (simp add: update_field_def get_field_def get_record_def op_bind_def op_lift_def
          read_field_def keeps_wf_def)
  next
    case False
    then show ?thesis using s
      by (auto simp: update_field_def get_field_def get_record_def op_bind_def op_lift_def read_field_def
          split: option.splits sum.splits)
  qed
qed

lemma keeps_wf_add: "keeps_wf (add_to_list lid k x)"
proof -
  have "wf_json v \<Longrightarrow> py_append x v = Inr w \<Longrightarrow> wf_json w" for v w
    by (cases v) (auto simp: py_append_def)
  then show ?thesis unfolding add_to_list_def
    by (intro keeps_wf_bind keeps_wf_simps keeps_wf_when keeps_wf_update)
qed

lemma wf_fill:
  "wf_json (JObj r) \<Longrightarrow> \<forall>(k, v) \<in> set ps. wf_json v \<Longrightarrow>
     wf_json (JObj (fold (\<lambda>(k, v). dsetdefault k v) ps r))"
proof (induction ps arbitrary: r)
  case (Cons p ps)
  obtain k v where p: "p = (k, v)" by (cases p)
  have "wf_json (JObj (dsetdefault k v r))"
    using Cons.prems p wf_obj_dset [of r v k] by (auto simp: dsetdefault_def split: option.split)
  then show ?case using Cons p by (simp del: wf_json.simps)
qed simp

lemma wf_template: "wf_json (JObj empty_lesson_record)"
  using field_distinct by (simp add: empty_lesson_record_def dict_ok_def dkeys_def)

lemma keeps_wf_lesson_record: "keeps_wf (lesson_record lid)"
  unfolding keeps_wf_def
proof (intro allI impI)
  fix s assume s: "wf_store s"
  have "wf_json (JObj (filled_record lid (p_lessons (mem s))))"
    unfolding filled_record_def fill_template_def
  proof (rule wf_fill)
    show "wf_json (JObj (case dget (p_lessons (mem s)) lid of None \<Rightarrow> empty_lesson_record | Some r \<Rightarrow> r))"
      using s wf_template by (auto simp del: wf_json.simps simp: wf_store_iff intro: wf_section_get split: option.split)
  qed (use wf_template in auto)
  then show "wf_store (snd (lesson_record lid s))"
    using s by (auto simp del: wf_json.simps simp: lesson_record_def Let_def put_record_def wf_store_iff
        intro: wf_section_dset)
qed

lemma wf_strings [simp]: "wf_json (JStr t)" "wf_json (JInt i)" "wf_json JNull" "wf_json (outcome_json now b)"
  by (simp_all add: outcome_json_def dict_ok_def dkeys_def f_passed_def f_at_def)

lemma wf_incr: "py_incr v = Inr w \<Longrightarrow> wf_json w"
  by (auto simp: py_incr_def split: option.splits json.splits pyfloat.splits)

lemma wf_put_outcome: "wf_json v \<Longrightarrow> put_outcome b (outcome_json now p) v = Inr w \<Longrightarrow> wf_json w"
  by (cases v) (auto simp: put_outcome_def as_dict_attr_def simp del: wf_json.simps intro!: wf_obj_dset)

lemma keeps_wf_bump: "keeps_wf (bump_concepts now b cs)"
proof (induction cs)
  case (Cons c cs)
  have entry: "wf_json (JObj e) \<Longrightarrow> bump_entry now b e = Inr e' \<Longrightarrow> wf_json (JObj e')" for e e'
    by (auto simp: bump_entry_def Let_def res_bind_Inr simp del: wf_json.simps intro!: wf_obj_dset intro: wf_incr)
  have "keeps_wf (bump_concept now b c)"
    unfolding keeps_wf_def
  proof (intro allI impI)
    fix s assume s: "wf_store s"
    define ps where "ps = dsetdefault c empty_concept (p_concepts (mem s))"
    have "wf_json (JObj empty_concept)" by (simp add: empty_concept_def dict_ok_def dkeys_def)
    then have ps: "wf_json (section_json ps)"
      using s wf_section_dset by (auto simp: ps_def dsetdefault_def wf_store_iff simp del: wf_json.simps split: option.split)
    obtain e where e: "dget ps c = Some e" by (auto simp: ps_def dget_dsetdefault)
    show "wf_store (snd (bump_concept now b c s))"
    proof (cases "bump_entry now b e")
      case (Inl x)
      then show ?thesis using s ps e
        by (simp add: bump_concept_def ps_def [symmetric] Let_def wf_store_iff del: wf_json.simps)
    next
      case (Inr e')
      then have "wf_json (section_json (dset c e' ps))"
        using ps entry [OF wf_section_get [OF ps e]] wf_section_dset by blast
      then show ?thesis using s e Inr
        by (simp add: bump_concept_def ps_def [symmetric] Let_def wf_store_iff del: wf_json.simps)
    qed
  qed
  then show ?case using Cons by (simp add: keeps_wf_then)
qed (simp add: keeps_wf_simps)

lemma keeps_wf_set_interview: "wf_json (JObj e) \<Longrightarrow> keeps_wf (set_interview qid e)"
  by (auto simp: keeps_wf_def set_interview_def wf_store_iff simp del: wf_json.simps intro: wf_section_dset)

lemma keeps_wf_interview: "keeps_wf (record_interview now qid correct cs)"
  unfolding keeps_wf_def
proof (intro allI impI)
  fix s assume s: "wf_store s"
  define e where "e = (case dget (p_interview (mem s)) qid of None \<Rightarrow> empty_interview | Some e \<Rightarrow> e)"
  have "wf_json (JObj empty_interview)" by (simp add: empty_interview_def dict_ok_def dkeys_def)
  then have e: "wf_json (JObj e)"
    using s by (auto simp: e_def wf_store_iff simp del: wf_json.simps intro: wf_section_get split: option.split)
  let ?k = "if correct then f_correct else f_incorrect"
  have rest: "keeps_wf (op_then (set_interview qid e1)
             (op_bind (if correct then op_lift w else op_return 0) (\<lambda>streak.
              op_then (set_interview qid (dset f_streak (JInt streak) e1))
              (op_then (op_when (cs \<noteq> []) (bump_concepts now correct cs)) save))))" if "wf_json (JObj e1)" for e1 w
    using that
    by (intro keeps_wf_then keeps_wf_bind keeps_wf_set_interview wf_obj_dset keeps_wf_simps keeps_wf_when
        keeps_wf_bump) (simp_all add: keeps_wf_simps del: wf_json.simps(2))
  have "wf_store (snd (set_interview qid e s))" using s keeps_wf_set_interview [OF e] by (simp add: keeps_wf_def)
  then show "wf_store (snd (record_interview now qid correct cs s))"
    using rest wf_obj_dset [OF e] wf_incr
    by (auto simp: record_interview_def e_def [symmetric] Let_def op_then_def op_bind_def [of "set_interview qid e"]
        op_bind_def [of "op_lift (res_bind (read_field e ?k) py_incr)"] op_lift_def [of "res_bind (read_field e ?k) py_incr"]
        set_interview_def [of qid e] keeps_wf_def res_bind_Inr simp del: wf_json.simps split: sum.split)
qed

lemma keeps_wf_ignore: "keeps_wf m \<Longrightarrow> keeps_wf (ignore m)"
  unfolding ignore_def by (intro keeps_wf_bind keeps_wf_simps)

lemma keeps_wf_started: "keeps_wf (mark_started now lid)"
proof -
  have "keeps_wf (\<lambda>s. set_field lid f_baseline (JInt (interview_total (mem s))) s)"
    using keeps_wf_set_field [of "JInt n" lid f_baseline for n] by (simp add: keeps_wf_def)
  then show ?thesis unfolding mark_started_def
    by (intro keeps_wf_bind keeps_wf_then keeps_wf_when keeps_wf_lesson_record keeps_wf_simps keeps_wf_finish
        keeps_wf_set_field keeps_wf_update) (auto intro: wf_incr)
qed

lemma keeps_wf_validation: "keeps_wf (record_validation now lid b p m cs h)"
proof -
  have stands: "keeps_wf (if h then op_lift r else op_return False)" for r
    by (simp add: keeps_wf_simps)
  have branch: "keeps_wf (if x then m1 else m2)" if "keeps_wf m1" "keeps_wf m2" for x and m1 m2 :: "unit op"
    using that by simp
  show ?thesis unfolding record_validation_def
    by (intro keeps_wf_bind keeps_wf_then keeps_wf_when keeps_wf_lesson_record keeps_wf_simps keeps_wf_finish
        keeps_wf_set_field keeps_wf_update keeps_wf_bump stands branch) (auto intro: wf_put_outcome)
qed

lemma keeps_wf_hint: "keeps_wf (record_hint lid i)"
  unfolding record_hint_def Let_def
  by (intro keeps_wf_bind keeps_wf_then keeps_wf_when keeps_wf_lesson_record keeps_wf_simps
      keeps_wf_set_field) simp

lemma keeps_wf_complete: "keeps_wf (mark_complete now l cur)"
proof -
  let ?m = "op_bind (lesson_record (l_id l)) (\<lambda>_.
            op_then (set_field (l_id l) f_status (JStr st_complete))
            (op_then (set_field (l_id l) f_completed_at (JStr now))
            (op_then save (op_return (True, [] :: missing list)))))"
  have "keeps_wf ?m"
    by (intro keeps_wf_bind keeps_wf_then keeps_wf_lesson_record keeps_wf_simps keeps_wf_set_field) simp_all
  then show ?thesis
    by (auto simp: keeps_wf_def mark_complete_def split: sum.split prod.split)
qed

lemma keeps_wf_perform: "keeps_wf (perform cmd)"
proof (cases cmd)
  case (Record_step lid b)
  then show ?thesis
    by (simp add: record_step_def keeps_wf_bind keeps_wf_then keeps_wf_lesson_record keeps_wf_add keeps_wf_finish)
next
  case (Record_quiz now lid b correct cs)
  have "keeps_wf (record_quiz now lid b correct cs)" unfolding record_quiz_def
    by (intro keeps_wf_bind keeps_wf_then keeps_wf_when keeps_wf_lesson_record keeps_wf_finish keeps_wf_add
        keeps_wf_update keeps_wf_bump) (rule wf_incr)
  then show ?thesis using Record_quiz by simp
next
  case (Record_explain now lid b passed cs)
  have "keeps_wf (record_explain now lid b passed cs)" unfolding record_explain_def
    by (intro keeps_wf_bind keeps_wf_then keeps_wf_when keeps_wf_lesson_record keeps_wf_finish keeps_wf_add
        keeps_wf_bump)
  then show ?thesis using Record_explain by simp
qed (simp_all add: keeps_wf_started keeps_wf_validation keeps_wf_hint keeps_wf_complete keeps_wf_interview
    keeps_wf_ignore)

lemma fresh_wf: "fresh_store s \<Longrightarrow> wf_store s"
  by (simp add: fresh_store_def load_progress_def wf_store_iff empty_state_def section_json_def dkeys_def)

interpretation store_wf: transition_invariant fresh_store progress_step wf_store
  using keeps_wf_perform by unfold_locales (auto simp: keeps_wf_def fresh_wf elim!: progress_stepE, metis snd_conv)

section \<open>The limit of the counters\<close>

definition small :: "json \<Rightarrow> bool" where
  "small v \<longleftrightarrow> (case v of JInt i \<Rightarrow> i \<le> MAX_COUNTER | _ \<Rightarrow> True)"

definition counters_small :: "psection \<Rightarrow> obj \<Rightarrow> bool" where
  "counters_small sec r \<longleftrightarrow> list_all (\<lambda>k. small (get_or JNull r k)) (integer_fields sec)"

definition within_limits :: "progress \<Rightarrow> bool" where
  "within_limits st \<longleftrightarrow> list_all (\<lambda>(k, r). counters_small Lessons r) (p_lessons st) \<and>
     list_all (\<lambda>(k, r). counters_small Concepts r) (p_concepts st) \<and>
     list_all (\<lambda>(k, r). counters_small Interview r) (p_interview st)"

lemma counter_valid: "counter_ok v \<Longrightarrow> valid_counter v = small v"
  by (erule counter_okE) (simp add: valid_counter_def small_def)

lemma full_record_valid:
  assumes "full_record r"
  shows "record_is_valid Lessons r = counters_small Lessons r"
proof -
  have get: "field_ok k (get_or JNull r k)" if "k \<in> set template_keys" for k
    using full_record_field [OF assms that] by (auto simp: get_or_def)
  have "valid_counter (get_or JNull r k) = small (get_or JNull r k)" if "k \<in> set (integer_fields Lessons)" for k
    using that get [of k] counter_valid by auto
  moreover have "valid_str_list (get_or JNull r k)" if "k \<in> set (list_fields Lessons)" for k
    using that get [of k] by (auto simp: valid_str_list_def elim!: id_list_okE)
  moreover have "is_str (get_or JNull r f_status)" using get [of f_status] by simp
  moreover have "valid_validations (get_or JNull r f_validations)"
    using get [of f_validations] by (auto simp: valid_validations_def elim!: validations_okE)
  ultimately show ?thesis by (simp add: record_is_valid_def counters_small_def)
qed

lemma counts_valid:
  "counts_ok e \<Longrightarrow> record_is_valid Concepts e = counters_small Concepts e"
  "interview_ok e \<Longrightarrow> record_is_valid Interview e = counters_small Interview e"
proof -
  have k: "valid_counter (get_or JNull e k) = small (get_or JNull e k)"
    if "\<exists>i. dget e k = Some (JInt i) \<and> 0 \<le> i" for k
    using that by (auto simp: get_or_def counter_ok_def intro!: counter_valid)
  show "counts_ok e \<Longrightarrow> record_is_valid Concepts e = counters_small Concepts e"
    using k by (fastforce simp: record_is_valid_def counters_small_def counts_ok_def)
  assume i: "interview_ok e"
  have "valid_counter (get_or JNull e f_streak) = small (get_or JNull e f_streak)"
  proof (cases "dget e f_streak")
    case None
    then show ?thesis by (simp add: get_or_def valid_counter_def small_def)
  next
    case (Some v)
    then show ?thesis using i counter_valid [of v] by (simp add: get_or_def interview_ok_def)
  qed
  then show "record_is_valid Interview e = counters_small Interview e"
    using k i by (fastforce simp: record_is_valid_def counters_small_def counts_ok_def interview_ok_def)
qed

lemma full_sections_valid: "full_state st \<Longrightarrow> sections_valid st = within_limits st"
proof -
  assume full: "full_state st"
  have in_dict: "(k, r) \<in> set (p_lessons st) \<Longrightarrow> dget (p_lessons st) k = Some r"
    "(k, r) \<in> set (p_concepts st) \<Longrightarrow> dget (p_concepts st) k = Some r"
    "(k, r) \<in> set (p_interview st) \<Longrightarrow> dget (p_interview st) k = Some r" for k r
    using full by (simp_all add: full_state_def typed_state_def dset_in)
  have "full_record r" if "(k, r) \<in> set (p_lessons st)" for k r
    using full in_dict(1) [OF that] by (simp add: full_state_def)
  moreover have "counts_ok r" if "(k, r) \<in> set (p_concepts st)" for k r
    using full in_dict(2) [OF that] by (simp add: full_state_def typed_state_def)
  moreover have "interview_ok r" if "(k, r) \<in> set (p_interview st)" for k r
    using full in_dict(3) [OF that] by (simp add: full_state_def typed_state_def)
  ultimately show ?thesis
    using full_record_valid counts_valid
    by (fastforce simp: sections_valid_def within_limits_def list_all_iff)
qed

end
