(* ===== verification/Instance_Lock.thy ===== *)
theory Instance_Lock
  imports Progress_Reload
begin

text \<open>
  Several learning servers on one progress file (\<open>learning/server/instance_lock.py\<close> and the
  \<open>with single_instance(...)\<close> of \<open>learning/__main__.py\<close>).

  A process takes the lock of the file without waiting, or exits; it loads the file, answers requests,
  each of which saves its whole memory to the file, and releases the lock on the way out.  The handler
  threads are daemons and nobody joins them, so a request may still be answered between the release
  and the exit: those are the late steps.  A process may die at any moment; the kernel then drops its
  lock.
\<close>

datatype instance_phase =
    Not_started
  | Refused                \<comment> \<open>\<open>AlreadyRunning\<close>, exit status 3\<close>
  | Holding                \<comment> \<open>inside \<open>with single_instance\<close>, progress not loaded yet\<close>
  | Answering
  | Released               \<comment> \<open>the lock is gone, the process is not\<close>
  | Exited

record host =
  lock_holder :: "nat option"
  saved :: "json option"            \<comment> \<open>the state the progress file holds\<close>
  phase :: "nat \<Rightarrow> instance_phase"
  store :: "nat \<Rightarrow> pstore"

definition try_lock :: "nat \<Rightarrow> host \<Rightarrow> bool \<times> host" where
  "try_lock p w = (case lock_holder w of None \<Rightarrow> (True, w\<lparr>lock_holder := Some p\<rparr>) | Some _ \<Rightarrow> (False, w))"

definition unlock :: "nat \<Rightarrow> host \<Rightarrow> host" where
  "unlock p w = (if lock_holder w = Some p then w\<lparr>lock_holder := None\<rparr> else w)"

definition enter_phase :: "nat \<Rightarrow> instance_phase \<Rightarrow> host \<Rightarrow> host" where
  "enter_phase p ph w = w\<lparr>phase := (phase w)(p := ph)\<rparr>"

text \<open>The progress file as the loader meets it, and the store a process has after loading it.\<close>

definition file_of :: "(pyfloat \<Rightarrow> pystr) \<Rightarrow> json option \<Rightarrow> progress_file" where
  "file_of fr f = (case f of None \<Rightarrow> No_file | Some j \<Rightarrow> Progress_file (ReadText (dumps_indent2 fr j)))"

definition loaded_store :: "nat \<Rightarrow> nat \<Rightarrow> (pyfloat \<Rightarrow> pystr) \<Rightarrow> json option \<Rightarrow> pstore" where
  "loaded_store cap depth fr f = \<lparr>mem = fst (load_progress cap depth (file_of fr f)), disk = f\<rparr>"

text \<open>One request: the command runs on the process's own memory and overwrites the file.\<close>

definition answer_request :: "nat \<Rightarrow> command \<Rightarrow> host \<Rightarrow> host" where
  "answer_request p cmd w =
     (let t = snd (perform cmd (store w p)) in w\<lparr>store := (store w)(p := t), saved := disk t\<rparr>)"

inductive instance_step :: "nat \<Rightarrow> nat \<Rightarrow> (pyfloat \<Rightarrow> pystr) \<Rightarrow> host \<Rightarrow> host \<Rightarrow> bool" for cap depth fr where
  enter: "phase w p = Not_started \<Longrightarrow> try_lock p w = (True, w') \<Longrightarrow>
    instance_step cap depth fr w (enter_phase p Holding w')"
| refuse: "phase w p = Not_started \<Longrightarrow> try_lock p w = (False, w') \<Longrightarrow>
    instance_step cap depth fr w (enter_phase p Refused w')"
| load: "phase w p = Holding \<Longrightarrow>
    instance_step cap depth fr w (enter_phase p Answering (w\<lparr>store := (store w)(p := loaded_store cap depth fr (saved w))\<rparr>))"
| request: "phase w p = Answering \<Longrightarrow> instance_step cap depth fr w (answer_request p cmd w)"
| leave: "phase w p = Holding \<or> phase w p = Answering \<Longrightarrow>
    instance_step cap depth fr w (enter_phase p Released (unlock p w))"
| exit: "phase w p = Released \<Longrightarrow> instance_step cap depth fr w (enter_phase p Exited w)"
| crash: "instance_step cap depth fr w (enter_phase p Exited (unlock p w))"

inductive_cases instance_stepE: "instance_step cap depth fr w w'"

inductive late_step :: "host \<Rightarrow> host \<Rightarrow> bool" where
  "phase w p = Released \<Longrightarrow> late_step w (answer_request p cmd w)"

inductive_cases late_stepE: "late_step w w'"

definition host_init :: "host \<Rightarrow> bool" where
  "host_init w \<longleftrightarrow> lock_holder w = None \<and> (\<forall>p. phase w p = Not_started)"

section \<open>The invariant\<close>

definition has_lock :: "instance_phase \<Rightarrow> bool" where
  "has_lock ph \<longleftrightarrow> ph = Holding \<or> ph = Answering"

definition exclusive :: "host \<Rightarrow> bool" where
  "exclusive w \<longleftrightarrow> (\<forall>p. has_lock (phase w p) \<longleftrightarrow> lock_holder w = Some p)"

definition instance_inv :: "host \<Rightarrow> bool" where
  "instance_inv w \<longleftrightarrow> exclusive w \<and> (\<forall>p. phase w p = Answering \<longrightarrow> disk (store w p) = saved w)"

lemmas host_defs = enter_phase_def try_lock_def unlock_def answer_request_def has_lock_def

lemma exclusive_holder: "exclusive w \<Longrightarrow> phase w p = Answering \<or> phase w p = Holding \<Longrightarrow> lock_holder w = Some p"
  by (auto simp: exclusive_def has_lock_def)

lemma exclusive_phase: "exclusive w \<Longrightarrow> lock_holder w = Some p \<Longrightarrow> phase w p = Answering \<or> phase w p = Holding"
  by (metis exclusive_def has_lock_def)

lemma exclusive_step: "exclusive w \<Longrightarrow> instance_step cap depth fr w w' \<or> late_step w w' \<Longrightarrow> exclusive w'"
proof -
  assume ex: "exclusive w" and step: "instance_step cap depth fr w w' \<or> late_step w w'"
  have h: "lock_holder w = Some q" if "phase w q = Answering" for q using exclusive_holder [OF ex] that by simp
  have h': "lock_holder w = Some q" if "phase w q = Holding" for q using exclusive_holder [OF ex] that by simp
  have k: "phase w q = Answering \<or> phase w q = Holding" if "lock_holder w = Some q" for q
    by (rule exclusive_phase [OF ex that])
  have "(phase w' q = Answering \<or> phase w' q = Holding) = (lock_holder w' = Some q)" for q
    using step h [of q] h' [of q] k [of q]
    by (elim disjE instance_stepE late_stepE)
      (auto simp: host_defs Let_def split: option.splits if_splits dest: h h' k)
  then show ?thesis by (auto simp: exclusive_def has_lock_def)
qed

lemma exclusive_unique: "exclusive w \<Longrightarrow> has_lock (phase w p) \<Longrightarrow> has_lock (phase w q) \<Longrightarrow> p = q"
  by (auto simp: exclusive_def)

lemma instance_inv_step: "instance_inv w \<Longrightarrow> instance_step cap depth fr w w' \<Longrightarrow> instance_inv w'"
proof -
  assume inv: "instance_inv w" and step: "instance_step cap depth fr w w'"
  have ex: "exclusive w" using inv by (simp add: instance_inv_def)
  have one: "p = q" if "phase w p = Answering \<or> phase w p = Holding" "phase w q = Answering" for p q
    using exclusive_unique [OF ex] that by (auto simp: has_lock_def)
  have "disk (store w' q) = saved w'" if "phase w' q = Answering" for q
    using step inv that one
    by (elim instance_stepE) (auto simp: instance_inv_def host_defs loaded_store_def Let_def split: option.splits if_splits)
  then show ?thesis using exclusive_step [OF ex disjI1 [OF step]] by (simp add: instance_inv_def)
qed

lemma init_exclusive: "host_init w \<Longrightarrow> exclusive w"
  by (simp add: host_init_def exclusive_def has_lock_def)

lemma init_inv: "host_init w \<Longrightarrow> instance_inv w"
  by (simp add: instance_inv_def init_exclusive) (simp add: host_init_def)

interpretation instances: transition_invariant host_init "instance_step cap depth fr" instance_inv for cap depth fr
  by unfold_locales (fact init_inv, fact instance_inv_step)

interpretation instances_late: transition_invariant host_init "\<lambda>w w'. instance_step cap depth fr w w' \<or> late_step w w'" exclusive
    for cap depth fr
  by unfold_locales (fact init_exclusive, fact exclusive_step)

section \<open>Properties\<close>


definition quiet_host :: host where
  "quiet_host = \<lparr>lock_holder = None, saved = None, phase = (\<lambda>_. Not_started), store = (\<lambda>_. \<lparr>mem = empty_state, disk = None\<rparr>)\<rparr>"

text \<open>A process that starts alone: it takes the lock and loads the file.\<close>

definition started :: "nat \<Rightarrow> nat \<Rightarrow> (pyfloat \<Rightarrow> pystr) \<Rightarrow> nat \<Rightarrow> host \<Rightarrow> host" where
  "started cap depth fr p w =
     enter_phase p Answering (enter_phase p Holding (w\<lparr>lock_holder := Some p, store := (store w)(p := loaded_store cap depth fr (saved w))\<rparr>))"

lemma start_alone:
  assumes "phase w p = Not_started" and "lock_holder w = None"
  shows "(instance_step cap depth fr)\<^sup>*\<^sup>* w (started cap depth fr p w)"
proof -
  have "instance_step cap depth fr w (enter_phase p Holding (w\<lparr>lock_holder := Some p\<rparr>))"
    using assms by (intro instance_step.enter) (simp_all add: try_lock_def)
  moreover have "instance_step cap depth fr (enter_phase p Holding (w\<lparr>lock_holder := Some p\<rparr>)) (started cap depth fr p w)"
    using instance_step.load [of "enter_phase p Holding (w\<lparr>lock_holder := Some p\<rparr>)" p cap depth fr]
    by (simp add: started_def enter_phase_def)
  ultimately show ?thesis by auto
qed

lemma quiet_reachable: "reachable host_init (instance_step cap depth fr) (started cap depth fr 0 quiet_host)"
proof (rule reachable_rtranclp [OF start_alone])
  show "reachable host_init (instance_step cap depth fr) quiet_host"
    by (rule reachable.start) (simp add: host_init_def quiet_host_def)
qed (simp_all add: quiet_host_def)



end
