(* ===== verification/Command_Line.thy ===== *)
theory Command_Line
  imports Instance_Lock
begin

text \<open>
  \<open>python -m learning\<close> from its arguments to its exit status (\<open>main\<close> and \<open>_serve\<close> of
  \<open>learning/__main__.py\<close>, \<open>build_server\<close> of \<open>learning/server/app.py\<close>): what it prints, in which order it
  takes the lock, binds, shuts down and releases, and how each failure ends.
\<close>

record cli_args =
  a_port :: int
  a_no_browser :: bool

text \<open>How \<open>serve_forever\<close> ends: by Ctrl+C, by an exception, or (after \<open>shutdown\<close>) by returning.\<close>

datatype serve_end = Interrupted | Broken py_exc | Shut_down

text \<open>
  What the program meets: whether another process has the lock, what loading the curriculum gives,
  the port the socket gets, how serving ends, how many checks the sweep finds running; and the texts
  of the two errors it prints.
\<close>

record lab_world =
  w_taken :: bool
  w_loaded :: "curriculum checked"
  w_bind :: "int \<Rightarrow> py_exc + int"
  w_end :: serve_end
  w_running :: nat
  w_refusal :: pystr
  w_schema_text :: "cur_file \<Rightarrow> schema_msg \<Rightarrow> pystr"

datatype console =
    Print pystr | Browse pystr | Take_lock | Release_lock | Bind_socket pystr int
  | Begin_shutdown | Terminate_validators | Server_close

datatype exit = Usage_error | Status nat | Escapes py_exc

section \<open>The server object\<close>

definition loopback :: pystr where
  "loopback = S ''127.0.0.1''"

text \<open>The curriculum is loaded before the socket is bound, which is always to the loopback address.\<close>

definition build_server :: "int \<Rightarrow> lab_world \<Rightarrow> curriculum_exc + int" where
  "build_server port w = res_bind (w_loaded w) (\<lambda>c.
     case w_bind w port of Inl x \<Rightarrow> Inl (Uncaught x) | Inr bound \<Rightarrow> Inr bound)"

section \<open>What is printed\<close>

definition dashboard :: "pystr \<Rightarrow> int \<Rightarrow> pystr" where
  "dashboard host port = S ''http://'' @ host @ S '':'' @ dec_int port @ S ''/''"

definition announce :: "pystr \<Rightarrow> int \<Rightarrow> bool \<Rightarrow> console list" where
  "announce host port no_browser =
     [Print (S ''flight-test-lab learning environment''),
      Print (S ''  dashboard: '' @ dashboard host port),
      Print (S ''  bound to '' @ host @ S '' only '' @ [8212] @ S '' not reachable from other machines''),
      Print (S ''  press Ctrl+C to stop'')] @
     (if no_browser then [] else [Browse (dashboard host port)])"

text \<open>The \<open>except\<close> and \<open>finally\<close> of \<open>_serve\<close>.\<close>

definition farewell :: "serve_end \<Rightarrow> nat \<Rightarrow> console list" where
  "farewell ended reaped =
     (if ended = Interrupted then [Print (10 # S ''stopped'')] else []) @
     [Begin_shutdown, Terminate_validators] @
     (if reaped \<noteq> 0 then [Print (S ''  reaped '' @ dec_nat reaped @ S '' running check(s)'')] else []) @
     [Server_close]"

section \<open>The program\<close>

definition serve_lab :: "cli_args \<Rightarrow> lab_world \<Rightarrow> exit \<times> console list" where
  "serve_lab args w = (case build_server (a_port args) w of
     Inl (Curriculum_error f m) \<Rightarrow>
       (Status 2, [Print (S ''Curriculum failed validation:'' @ [10] @ w_schema_text w f m)])
   | Inl (Uncaught x) \<Rightarrow> (Escapes x, [])
   | Inr port \<Rightarrow>
       (case w_end w of Broken x \<Rightarrow> Escapes x | _ \<Rightarrow> Status 0,
        Bind_socket loopback port # announce loopback port (a_no_browser args) @ farewell (w_end w) (w_running w)))"

definition lab_main :: "cli_args \<Rightarrow> lab_world \<Rightarrow> exit \<times> console list" where
  "lab_main args w =
     (if \<not> (0 \<le> a_port args \<and> a_port args \<le> 65535) then (Usage_error, [])
      else if w_taken w then (Status 3, [Print (S ''Not starting: '' @ w_refusal w)])
      else let (r, acts) = serve_lab args w in (r, Take_lock # acts @ [Release_lock]))"

section \<open>What holds of a run\<close>

lemma serve_lab_binds:
  "Bind_socket host port \<in> set (snd (serve_lab args w)) \<longleftrightarrow>
     host = loopback \<and> (\<exists>c. w_loaded w = Inr c \<and> w_bind w (a_port args) = Inr port)"
  by (cases "w_loaded w") (auto simp: serve_lab_def build_server_def announce_def farewell_def split: sum.split curriculum_exc.split)

text \<open>
  A socket is bound only to the loopback address, with the lock held, on a valid port and with an
  accepted curriculum; the browser is only ever sent to that address; and whatever way serving ends,
  new checks are refused before the running ones are killed, and that before the socket is closed and
  the lock released.
\<close>

theorem bound_only_locally:
  assumes "Bind_socket host port \<in> set (snd (lab_main args w))"
  shows "host = S ''127.0.0.1'' \<and> 0 \<le> a_port args \<and> a_port args \<le> 65535 \<and> \<not> w_taken w \<and> (\<exists>c. w_loaded w = Inr c) \<and>
    (\<exists>talk reaped. snd (lab_main args w) =
       Take_lock # Bind_socket host port # talk @ [Begin_shutdown, Terminate_validators] @ reaped @ [Server_close, Release_lock] \<and>
       (\<forall>a \<in> set (talk @ reaped). (\<exists>t. a = Print t) \<or> a = Browse (dashboard host port)))"
proof -
  have ok: "0 \<le> a_port args \<and> a_port args \<le> 65535" "\<not> w_taken w"
    and bind: "Bind_socket host port \<in> set (snd (serve_lab args w))"
    using assms by (auto simp: lab_main_def case_prod_beta split: if_splits)
  then obtain c where c: "w_loaded w = Inr c" "w_bind w (a_port args) = Inr port" and host: "host = loopback"
    unfolding serve_lab_binds by blast
  let ?talk = "announce host port (a_no_browser args) @ (if w_end w = Interrupted then [Print (10 # S ''stopped'')] else [])"
  let ?reaped = "if w_running w \<noteq> 0 then [Print (S ''  reaped '' @ dec_nat (w_running w) @ S '' running check(s)'')] else []"
  have "snd (lab_main args w) =
      Take_lock # Bind_socket host port # ?talk @ [Begin_shutdown, Terminate_validators] @ ?reaped @ [Server_close, Release_lock]"
    using ok c by (simp add: lab_main_def serve_lab_def build_server_def farewell_def host case_prod_beta)
  moreover have "\<forall>a \<in> set (?talk @ ?reaped). (\<exists>t. a = Print t) \<or> a = Browse (dashboard host port)"
    by (auto simp: announce_def)
  ultimately show ?thesis using ok c host unfolding loopback_def by blast
qed

theorem bound_only_locally_witness:
  "\<exists>rest. snd (lab_main \<lparr>a_port = 0, a_no_browser = True\<rparr>
     \<lparr>w_taken = False, w_loaded = Inr tiny_curriculum, w_bind = (\<lambda>_. Inr 50123), w_end = Interrupted, w_running = 0,
      w_refusal = [], w_schema_text = (\<lambda>_ _. [])\<rparr>) = Take_lock # Bind_socket (S ''127.0.0.1'') 50123 # rest"
  using bound_only_locally [of "S ''127.0.0.1''" 50123 "\<lparr>a_port = 0, a_no_browser = True\<rparr>"
      "\<lparr>w_taken = False, w_loaded = Inr tiny_curriculum, w_bind = (\<lambda>_. Inr 50123), w_end = Interrupted, w_running = 0,
      w_refusal = [], w_schema_text = (\<lambda>_ _. [])\<rparr>"]
  by (auto simp: lab_main_def serve_lab_binds loopback_def case_prod_beta)

text \<open>The exit status tells why: 3 another instance, 2 a bad curriculum, 0 after a shutdown.\<close>

theorem exit_status_exact:
  "fst (lab_main args w) = Status n \<longleftrightarrow> 0 \<le> a_port args \<and> a_port args \<le> 65535 \<and>
     (n = 3 \<and> w_taken w \<or>
      n = 2 \<and> \<not> w_taken w \<and> (\<exists>f m. w_loaded w = Inl (Curriculum_error f m)) \<or>
      n = 0 \<and> \<not> w_taken w \<and> (\<exists>c port. w_loaded w = Inr c \<and> w_bind w (a_port args) = Inr port) \<and> (\<forall>x. w_end w \<noteq> Broken x))"
  by (cases "w_loaded w") (auto simp: lab_main_def serve_lab_def build_server_def case_prod_beta
      split: sum.split curriculum_exc.split serve_end.split)

end
