(* ===== verification/Shutdown.thy ===== *)
theory Shutdown
  imports Prelude
begin

text \<open>
  Stopping the learning server while checks run.  Each \<open>POST /api/validate\<close> has a daemon thread that
  takes \<open>validator_lock\<close>, tests \<open>shutting_down\<close>, starts children and tests it again
  (\<open>_handle_validate\<close> in \<open>learning/server/app.py\<close>); children are in \<open>_ACTIVE\<close> between
  \<open>register_child\<close> and \<open>unregister_child\<close> (\<open>learning/checks/common.py\<close>); the main thread sets the flag,
  kills what is registered and exits (\<open>_serve\<close> in \<open>learning/__main__.py\<close>).

  The step relations interleave these threads at the grain of the shared accesses.  A child stands
  for its process group; killing it works; \<open>Popen\<close> gives it a fresh number.  Once the process is
  gone its threads are, and its children run on.
\<close>

datatype handler_phase =
    Outside                 \<comment> \<open>not inside \<open>with validator_lock\<close>\<close>
  | Entered                 \<comment> \<open>has the lock, has not tested the flag\<close>
  | Checking "nat list"     \<comment> \<open>the flag was clear; its children, all registered\<close>
  | Starting nat "nat list" \<comment> \<open>\<open>Popen\<close> has returned a child that is not registered yet\<close>
  | Leaving                 \<comment> \<open>\<open>run_validator\<close> is over\<close>

datatype main_phase =
    Serving
  | Closing                 \<comment> \<open>after \<open>begin_shutdown\<close>\<close>
  | Sweeping "nat set"      \<comment> \<open>the copy of \<open>_ACTIVE\<close>, less those done with\<close>
  | Swept
  | Gone                    \<comment> \<open>the process has exited\<close>

record lab =
  shutting_down :: bool
  validator_lock :: "nat option"
  registered :: "nat set"
  alive :: "nat set"
  starter :: "nat \<Rightarrow> nat option"     \<comment> \<open>the thread that started a child\<close>
  thread :: "nat \<Rightarrow> handler_phase"
  main_thread :: main_phase
  cleared :: "nat option"            \<comment> \<open>the thread past its test when shutdown began\<close>

definition lab_init :: "lab \<Rightarrow> bool" where
  "lab_init s \<longleftrightarrow> s = \<lparr>shutting_down = False, validator_lock = None, registered = {}, alive = {},
     starter = (\<lambda>_. None), thread = (\<lambda>_. Outside), main_thread = Serving, cleared = None\<rparr>"

section \<open>The registry of children\<close>

definition register_child :: "nat \<Rightarrow> lab \<Rightarrow> lab" where
  "register_child p s = s\<lparr>registered := insert p (registered s)\<rparr>"

definition unregister_child :: "nat \<Rightarrow> lab \<Rightarrow> lab" where
  "unregister_child p s = s\<lparr>registered := registered s - {p}\<rparr>"

definition kill_process_tree :: "nat \<Rightarrow> lab \<Rightarrow> lab" where
  "kill_process_tree p s = s\<lparr>alive := alive s - {p}\<rparr>"

definition set_thread :: "nat \<Rightarrow> handler_phase \<Rightarrow> lab \<Rightarrow> lab" where
  "set_thread h ph s = s\<lparr>thread := (thread s)(h := ph)\<rparr>"

section \<open>The threads\<close>

inductive handler_step :: "nat \<Rightarrow> lab \<Rightarrow> lab \<Rightarrow> bool" for h where
  enter: "thread s h = Outside \<Longrightarrow> validator_lock s = None \<Longrightarrow>
    handler_step h s (set_thread h Entered (s\<lparr>validator_lock := Some h\<rparr>))"
| refuse: "thread s h = Entered \<Longrightarrow> shutting_down s \<Longrightarrow>
    handler_step h s (set_thread h Outside (s\<lparr>validator_lock := None\<rparr>))"
| clear: "thread s h = Entered \<Longrightarrow> \<not> shutting_down s \<Longrightarrow>
    handler_step h s (set_thread h (Checking []) s)"
| popen: "thread s h = Checking ps \<Longrightarrow> starter s p = None \<Longrightarrow>
    handler_step h s (set_thread h (Starting p ps)
      (s\<lparr>alive := insert p (alive s), starter := (starter s)(p := Some h)\<rparr>))"
| register: "thread s h = Starting p ps \<Longrightarrow>
    handler_step h s (set_thread h (Checking (p # ps)) (register_child p s))"
| kill: "thread s h = Checking ps \<Longrightarrow> p \<in> set ps \<Longrightarrow> handler_step h s (kill_process_tree p s)"
| unregister: "thread s h = Checking ps \<Longrightarrow> p \<in> set ps \<Longrightarrow> p \<notin> alive s \<Longrightarrow>
    handler_step h s (set_thread h (Checking (removeAll p ps)) (unregister_child p s))"
| ran: "thread s h = Checking [] \<Longrightarrow> handler_step h s (set_thread h Leaving s)"
| leave: "thread s h = Leaving \<Longrightarrow>
    handler_step h s (set_thread h Outside (s\<lparr>validator_lock := None\<rparr>))"

inductive_cases handler_stepE: "handler_step h s t"

text \<open>Whether a thread has found the flag clear and may start children.\<close>

fun past_test :: "handler_phase \<Rightarrow> bool" where
  "past_test (Checking _) = True"
| "past_test (Starting _ _) = True"
| "past_test Leaving = True"
| "past_test _ = False"

definition cleared_thread :: "lab \<Rightarrow> nat option" where
  "cleared_thread s = (case validator_lock s of
     None \<Rightarrow> None | Some h \<Rightarrow> if past_test (thread s h) then Some h else None)"

text \<open>\<open>begin_shutdown\<close>, then \<open>terminate_active_validators\<close>, then the exit.\<close>

inductive main_step :: "lab \<Rightarrow> lab \<Rightarrow> bool" where
  begin_shutdown: "main_thread s = Serving \<Longrightarrow>
    main_step s (s\<lparr>shutting_down := True, main_thread := Closing, cleared := cleared_thread s\<rparr>)"
| copy_active: "main_thread s = Closing \<Longrightarrow> main_step s (s\<lparr>main_thread := Sweeping (registered s)\<rparr>)"
| reap: "main_thread s = Sweeping ps \<Longrightarrow> p \<in> ps \<Longrightarrow>
    main_step s (kill_process_tree p (s\<lparr>main_thread := Sweeping (ps - {p})\<rparr>))"
| swept: "main_thread s = Sweeping {} \<Longrightarrow> main_step s (s\<lparr>main_thread := Swept\<rparr>)"
| exit: "main_thread s = Swept \<Longrightarrow> main_step s (s\<lparr>main_thread := Gone\<rparr>)"

inductive_cases main_stepE: "main_step s t"

inductive lab_step :: "lab \<Rightarrow> lab \<Rightarrow> bool" where
  by_handler: "main_thread s \<noteq> Gone \<Longrightarrow> handler_step h s t \<Longrightarrow> lab_step s t"
| by_main: "main_step s t \<Longrightarrow> lab_step s t"
| child_exits: "p \<in> alive s \<Longrightarrow> lab_step s (s\<lparr>alive := alive s - {p}\<rparr>)"

inductive_cases lab_stepE: "lab_step s t"

section \<open>The invariant\<close>

fun in_block :: "handler_phase \<Rightarrow> bool" where
  "in_block Outside = False"
| "in_block _ = True"

fun children_of :: "handler_phase \<Rightarrow> nat set" where
  "children_of (Checking ps) = set ps"
| "children_of (Starting p ps) = insert p (set ps)"
| "children_of _ = {}"

text \<open>The child that the thread inside the block has started and not registered yet.\<close>

fun starting :: "handler_phase \<Rightarrow> nat option" where
  "starting (Starting p ps) = Some p"
| "starting _ = None"

definition unregistered :: "lab \<Rightarrow> nat option" where
  "unregistered s = (case validator_lock s of None \<Rightarrow> None | Some h \<Rightarrow> starting (thread s h))"

text \<open>What the sweep still owes, in each phase of the main thread.\<close>

fun sweep_ok :: "main_phase \<Rightarrow> lab \<Rightarrow> bool" where
  "sweep_ok Serving s = (\<not> shutting_down s)"
| "sweep_ok Closing s = shutting_down s"
| "sweep_ok (Sweeping ps) s = (shutting_down s \<and>
     (\<forall>p \<in> alive s. p \<in> ps \<or> (starter s p = cleared s \<and> cleared s \<noteq> None)))"
| "sweep_ok _ s = (shutting_down s \<and> (\<forall>p \<in> alive s. starter s p = cleared s \<and> cleared s \<noteq> None))"

definition lab_inv :: "lab \<Rightarrow> bool" where
  "lab_inv s \<longleftrightarrow>
     (\<forall>h. in_block (thread s h) \<longleftrightarrow> validator_lock s = Some h) \<and>
     (\<forall>h. \<forall>p \<in> children_of (thread s h). starter s p = Some h) \<and>
     (\<forall>p \<in> alive s. starter s p \<noteq> None \<and> (p \<in> registered s \<or> unregistered s = Some p)) \<and>
     (shutting_down s \<longrightarrow> (\<forall>h. past_test (thread s h) \<longrightarrow> cleared s = Some h)) \<and>
     sweep_ok (main_thread s) s"

lemmas lab_update_defs = set_thread_def register_child_def unregister_child_def kill_process_tree_def unregistered_def

lemma past_test_in_block: "past_test ph \<Longrightarrow> in_block ph"
  by (cases ph) auto

lemma lab_inv_init: "lab_init s \<Longrightarrow> lab_inv s"
  by (simp add: lab_init_def lab_inv_def)

lemma sweep_ok_mono:
  assumes "sweep_ok m s" and "shutting_down t = shutting_down s" and "cleared t = cleared s"
    and "\<And>p. p \<in> alive t \<Longrightarrow>
      (p \<in> alive s \<and> starter t p = starter s p) \<or> (shutting_down s \<longrightarrow> starter t p = cleared s \<and> cleared s \<noteq> None)"
  shows "sweep_ok m t"
  using assms by (cases m) fastforce+

section \<open>The invariant is kept\<close>

lemma inv_owner:
  assumes "lab_inv s" and "in_block (thread s h)"
  shows "validator_lock s = Some h" and "h' \<noteq> h \<Longrightarrow> thread s h' = Outside"
proof -
  show "validator_lock s = Some h" using assms by (auto simp: lab_inv_def)
  then show "h' \<noteq> h \<Longrightarrow> thread s h' = Outside" using assms(1) by (cases "thread s h'") (auto simp: lab_inv_def)
qed

lemma unregistered_simps [simp]:
  "unregistered (s\<lparr>alive := A\<rparr>) = unregistered s" "unregistered (s\<lparr>main_thread := m\<rparr>) = unregistered s"
  "unregistered (s\<lparr>shutting_down := b, main_thread := m, cleared := c\<rparr>) = unregistered s"
  by (simp_all add: unregistered_def split: option.split)

lemma dead_keeps_inv: "lab_inv s \<Longrightarrow> lab_inv (s\<lparr>alive := alive s - {p}\<rparr>)"
  by (auto simp: lab_inv_def elim!: sweep_ok_mono)

lemma handler_keeps_inv:
  assumes inv: "lab_inv s" and step: "handler_step h s t"
  shows "lab_inv t"
  using step
proof cases
  case enter
  then show ?thesis using inv
    by (auto simp: lab_inv_def lab_update_defs elim!: sweep_ok_mono)
next
  case refuse
  then show ?thesis using inv inv_owner [OF inv, of h]
    by (auto simp: lab_inv_def lab_update_defs elim!: sweep_ok_mono)
next
  case clear
  then show ?thesis using inv inv_owner [OF inv, of h]
    by (auto simp: lab_inv_def lab_update_defs elim!: sweep_ok_mono)
next
  case (popen ps p)
  have c: "cleared s = Some h" if "shutting_down s"
    using inv popen(2) that unfolding lab_inv_def by (metis past_test.simps(1))
  have new: "p \<notin> alive s" "p \<notin> children_of (thread s h')" for h'
    using inv popen(3) by (auto simp: lab_inv_def)
  have "sweep_ok (main_thread s) t"
    using inv unfolding lab_inv_def
    by (elim conjE sweep_ok_mono) (auto simp: popen(1) lab_update_defs c)
  moreover have lock: "validator_lock s = Some h" and others: "h' \<noteq> h \<Longrightarrow> thread s h' = Outside" for h'
    using inv_owner [OF inv, of h] popen(2) by auto
  moreover have "\<forall>h'. \<forall>q \<in> children_of (thread t h'). starter t q = Some h'"
    using inv popen(2) others by (auto simp: lab_inv_def popen(1) set_thread_def)
  moreover have "\<forall>q \<in> alive t. starter t q \<noteq> None \<and> (q \<in> registered t \<or> unregistered t = Some q)"
    using inv popen(2) lock by (auto simp: lab_inv_def popen(1) lab_update_defs)
  ultimately show ?thesis using c
    by (auto simp: lab_inv_def popen(1) set_thread_def)
next
  case (register p ps)
  then show ?thesis using inv inv_owner [OF inv, of h]
    by (auto simp: lab_inv_def lab_update_defs elim!: sweep_ok_mono)
next
  case (kill ps p)
  then show ?thesis using dead_keeps_inv [OF inv] by (simp add: kill_process_tree_def)
next
  case (unregister ps p)
  then show ?thesis using inv inv_owner [OF inv, of h]
    by (auto simp: lab_inv_def lab_update_defs elim!: sweep_ok_mono)
next
  case ran
  then show ?thesis using inv inv_owner [OF inv, of h]
    by (auto simp: lab_inv_def lab_update_defs elim!: sweep_ok_mono)
next
  case leave
  then show ?thesis using inv inv_owner [OF inv, of h]
    by (auto simp: lab_inv_def lab_update_defs elim!: sweep_ok_mono)
qed

text \<open>When the flag is set, the thread past its test, if any, is noted.\<close>

lemma cleared_noted:
  assumes "lab_inv s" and "past_test (thread s h)"
  shows "cleared_thread s = Some h"
  using assms past_test_in_block [OF assms(2)] by (auto simp: lab_inv_def cleared_thread_def)

lemma main_keeps_inv:
  assumes inv: "lab_inv s" and step: "main_step s t"
  shows "lab_inv t"
  using step
proof cases
  case begin_shutdown
  then show ?thesis using inv cleared_noted [OF inv] by (simp add: lab_inv_def)
next
  case copy_active
  have "starter s p = cleared s \<and> cleared s \<noteq> None" if "p \<in> alive s" "p \<notin> registered s" for p
  proof -
    have "unregistered s = Some p" using inv that by (auto simp: lab_inv_def)
    then obtain h ps where h: "validator_lock s = Some h" "thread s h = Starting p ps"
      by (auto simp: unregistered_def elim: starting.elims split: option.splits)
    have "starter s p = Some h" using inv h(2) unfolding lab_inv_def by (metis children_of.simps(2) insertI1)
    moreover have "cleared s = Some h" using inv h(2) copy_active(2) unfolding lab_inv_def
      by (metis past_test.simps(2) sweep_ok.simps(2))
    ultimately show ?thesis by simp
  qed
  then show ?thesis using inv copy_active by (auto simp: lab_inv_def)
next
  case (reap ps p)
  then have "lab_inv (s\<lparr>main_thread := Sweeping (ps - {p}), alive := alive s - {p}\<rparr>)"
    using inv by (auto simp: lab_inv_def unregistered_def split: option.splits)
  then show ?thesis using reap by (simp add: kill_process_tree_def)
next
  case swept
  then show ?thesis using inv by (simp add: lab_inv_def)
next
  case exit
  then show ?thesis using inv by (simp add: lab_inv_def)
qed

lemma lab_inv_step: "lab_inv s \<Longrightarrow> lab_step s t \<Longrightarrow> lab_inv t"
  by (auto elim!: lab_stepE intro: handler_keeps_inv main_keeps_inv dead_keeps_inv)

interpretation lab: transition_invariant lab_init lab_step lab_inv
  by unfold_locales (auto intro: lab_inv_init lab_inv_step)

section \<open>Properties\<close>


definition lab_start :: lab where
  "lab_start = \<lparr>shutting_down = False, validator_lock = None, registered = {}, alive = {},
     starter = (\<lambda>_. None), thread = (\<lambda>_. Outside), main_thread = Serving, cleared = None\<rparr>"

lemma lab_start_reachable: "reachable lab_init lab_step lab_start"
  by (rule reachable.start) (simp add: lab_init_def lab_start_def)

text \<open>The server stops while nothing runs.\<close>

definition quiet_end :: lab where
  "quiet_end = lab_start\<lparr>shutting_down := True, main_thread := Swept\<rparr>"

lemma quiet_end_reachable: "reachable lab_init lab_step quiet_end"
proof -
  let ?s1 = "lab_start\<lparr>shutting_down := True, main_thread := Closing\<rparr>"
  let ?s2 = "?s1\<lparr>main_thread := Sweeping {}\<rparr>"
  have "main_step lab_start ?s1"
    using main_step.begin_shutdown [of lab_start] by (simp add: lab_start_def cleared_thread_def)
  moreover have "main_step ?s1 ?s2" using main_step.copy_active [of ?s1] by (simp add: lab_start_def)
  moreover have "main_step ?s2 quiet_end" using main_step.swept [of ?s2] by (simp add: quiet_end_def)
  ultimately show ?thesis
    using lab_start_reachable by (blast intro: reachable.step lab_step.by_main)
qed


text \<open>
  The one that is left is real: a thread that has tested the flag and is between \<open>Popen\<close> and
  \<open>register_child\<close> when the sweep copies the registry leaves a child that outlives the server.
\<close>

theorem child_can_outlive_server:
  "\<exists>s p. reachable lab_init lab_step s \<and> main_thread s = Gone \<and> p \<in> alive s"
proof -
  define st where "st ph al m c = \<lparr>shutting_down = (m \<noteq> Serving), validator_lock = Some 0, registered = {},
      alive = al, starter = (\<lambda>p. if p \<in> al then Some 0 else None), thread = (\<lambda>_. Outside)(0 := ph),
      main_thread = m, cleared = c\<rparr>" for ph al m and c :: "nat option"
  have start: "(\<lambda>p. None)(7 := Some 0) = (\<lambda>p :: nat. if p = 7 then Some (0 :: nat) else None)" by (rule ext) simp
  have h1: "handler_step 0 lab_start (st Entered {} Serving None)"
    using handler_step.enter [of lab_start 0] by (simp add: st_def lab_start_def set_thread_def)
  have h2: "handler_step 0 (st Entered {} Serving None) (st (Checking []) {} Serving None)"
    using handler_step.clear [of "st Entered {} Serving None" 0] by (simp add: st_def set_thread_def)
  have h3: "handler_step 0 (st (Checking []) {} Serving None) (st (Starting 7 []) {7} Serving None)"
    using handler_step.popen [of "st (Checking []) {} Serving None" 0 "[]" 7]
    by (simp add: st_def set_thread_def start)
  have m4: "main_step (st (Starting 7 []) {7} Serving None) (st (Starting 7 []) {7} Closing (Some 0))"
    using main_step.begin_shutdown [of "st (Starting 7 []) {7} Serving None"] by (simp add: st_def cleared_thread_def)
  have m5: "main_step (st (Starting 7 []) {7} Closing (Some 0)) (st (Starting 7 []) {7} (Sweeping {}) (Some 0))"
    using main_step.copy_active [of "st (Starting 7 []) {7} Closing (Some 0)"] by (simp add: st_def)
  have m6: "main_step (st (Starting 7 []) {7} (Sweeping {}) (Some 0)) (st (Starting 7 []) {7} Swept (Some 0))"
    using main_step.swept [of "st (Starting 7 []) {7} (Sweeping {}) (Some 0)"] by (simp add: st_def)
  have m7: "main_step (st (Starting 7 []) {7} Swept (Some 0)) (st (Starting 7 []) {7} Gone (Some 0))"
    using main_step.exit [of "st (Starting 7 []) {7} Swept (Some 0)"] by (simp add: st_def)
  have r1: "reachable lab_init lab_step (st Entered {} Serving None)"
    by (rule reachable.step [OF lab_start_reachable lab_step.by_handler [OF _ h1]]) (simp add: lab_start_def)
  have r2: "reachable lab_init lab_step (st (Checking []) {} Serving None)"
    by (rule reachable.step [OF r1 lab_step.by_handler [OF _ h2]]) (simp add: st_def)
  have r3: "reachable lab_init lab_step (st (Starting 7 []) {7} Serving None)"
    by (rule reachable.step [OF r2 lab_step.by_handler [OF _ h3]]) (simp add: st_def)
  note r4 = reachable.step [OF r3 lab_step.by_main [OF m4]]
  note r5 = reachable.step [OF r4 lab_step.by_main [OF m5]]
  note r6 = reachable.step [OF r5 lab_step.by_main [OF m6]]
  note r7 = reachable.step [OF r6 lab_step.by_main [OF m7]]
  show ?thesis
    by (rule exI [of _ "st (Starting 7 []) {7} Gone (Some 0)"], rule exI [of _ 7]) (intro conjI r7, simp_all add: st_def)
qed

end
