(* ===== verification/Progress_Properties.thy ===== *)
theory Progress_Properties
  imports Progress_Reload
begin

text \<open>
  What the progress store guarantees (\<open>learning/server/progress.py\<close>), for every store reached from an
  empty file by its own commands and every curriculum the loader accepts.
\<close>

section \<open>Reachable stores\<close>

lemma reachable_full:
  "reachable fresh_store progress_step s \<Longrightarrow> full_state (mem s)"
  "reachable fresh_store progress_step s \<Longrightarrow> healthy s"
  using store.inv_reachable [of s] by (simp_all add: healthy_def typed_store_full)

lemma reachable_run: "reachable fresh_store progress_step s \<Longrightarrow> reachable fresh_store progress_step (run cmds s)"
proof (induction cmds arbitrary: s)
  case (Cons cmd cmds)
  have "progress_step s (snd (perform cmd s))" by (rule progress_step.intros [of cmd s "fst (perform cmd s)"]) simp
  then show ?case using Cons by (auto intro: reachable.step)
qed simp

definition new_store :: pstore where
  "new_store = \<lparr>mem = empty_state, disk = None\<rparr>"

lemma new_store_reachable: "reachable fresh_store progress_step new_store"
  by (rule reachable.start) (simp add: fresh_store_def new_store_def load_progress_def)

text \<open>A learner who has finished the first lesson of the small curriculum.\<close>

definition day_one :: pstore where
  "day_one = run (lesson_commands (S ''t'') tiny_curriculum lesson_a) new_store"

lemma day_one_reachable: "reachable fresh_store progress_step day_one"
  unfolding day_one_def by (rule reachable_run [OF new_store_reachable])

lemma tiny_ok: "curriculum_ok [S ''run''] no_tools tiny_curriculum"
  by (rule load_curriculum_ok [OF tiny_loads])

lemma tiny_get:
  "dget (c_lessons tiny_curriculum) (S ''a'') = Some lesson_a"
  "dget (c_lessons tiny_curriculum) (S ''b'') = Some lesson_b"
  "c_order tiny_curriculum = [S ''a'', S ''b'']"
  by (simp_all add: tiny_curriculum_def)

lemma tiny_lesson_simps:
  "l_status lesson_a = s_available" "l_prereqs lesson_a = []" "l_id lesson_a = S ''a''"
  "l_status lesson_b = s_available" "l_prereqs lesson_b = [S ''a'']" "l_id lesson_b = S ''b''"
  by (simp_all add: lesson_a_def lesson_b_def)

lemma statuses_distinct: "s_available \<noteq> s_unavailable"
  by (simp add: s_available_def s_unavailable_def)

lemma new_store_none: "\<not> certified (mem new_store) c lid"
  by (auto simp: new_store_def empty_state_def marked_iff elim: certifiedE)

lemma day_one_certified: "certified (mem day_one) tiny_curriculum (S ''a'')"
  unfolding day_one_def
  by (rule lesson_commands_certify [OF tiny_ok reachable_full(2) [OF new_store_reachable] tiny_get(1)])
    (simp_all add: tiny_lesson_simps statuses_distinct)

section \<open>Revocation\<close>

lemma same_records_certified:
  assumes "certified st c x" and "\<And>y. y \<noteq> lid \<Longrightarrow> dget (p_lessons st') y = dget (p_lessons st) y"
    and "\<not> depends_on c x lid" and ids: "\<And>k l. dget (c_lessons c) k = Some l \<Longrightarrow> l_id l = k"
  shows "certified st' c x"
  using assms(1,3)
proof (induction rule: certified.induct)
  case (certify x l)
  have x: "x \<noteq> lid" using certify.prems depends_on.itself by metis
  have "\<not> depends_on c p lid" if "p \<in> set (l_prereqs l)" for p
    using certify.prems certify.hyps(2) that depends_on.through by metis
  moreover have "marked_complete st' x" "gates_hold st' l"
    using certify.hyps(1,3) assms(2) [OF x] ids [OF certify.hyps(2)] by (simp_all add: marked_complete_def gates_hold_def)
  ultimately show ?case using certify.IH by (blast intro: certified.certify [OF _ certify.hyps(2)])
qed

lemma curriculum_ids: "curriculum_ok known tc c \<Longrightarrow> dget (c_lessons c) k = Some l \<Longrightarrow> l_id l = k"
  by (auto simp: curriculum_ok_def dest: map_of_SomeD)

lemma certified_before:
  assumes "certified st' c x" and "\<not> marked_complete st' lid"
    and "\<And>y. y \<noteq> lid \<Longrightarrow> dget (p_lessons st') y = dget (p_lessons st) y"
    and ids: "\<And>k l. dget (c_lessons c) k = Some l \<Longrightarrow> l_id l = k"
  shows "certified st c x \<and> \<not> depends_on c x lid"
proof
  show "\<not> depends_on c x lid" using certified_depends assms(1,2) certified_marked by metis
  show "certified st c x"
    using assms(1)
  proof (induction rule: certified.induct)
    case (certify x l)
    have x: "x \<noteq> lid" using certify.hyps(1) assms(2) by auto
    have "marked_complete st x" "gates_hold st l"
      using certify.hyps(1,3) assms(3) [OF x] ids [OF certify.hyps(2)] by (simp_all add: marked_complete_def gates_hold_def)
    then show ?case using certify.IH by (blast intro: certified.certify [OF _ certify.hyps(2)])
  qed
qed

section \<open>Properties\<close>

text \<open>
  C8: No command of the store raises, in any state it can reach: each returns, with every record
  complete and of the right types, every dict without a repeated key, and the file holding exactly
  what the memory holds.
\<close>

theorem commands_never_raise:
  assumes "reachable fresh_store progress_step s"
  shows "\<exists>t. perform cmd s = (Inr (), t) \<and> full_state (mem t) \<and> wf_json (state_json (mem t)) \<and> in_sync t"
proof -
  obtain t where t: "perform cmd s = (Inr (), t)" "healthy t"
    using returns_perform [of cmd] reachable_full(2) [OF assms] unfolding returns_def by fastforce
  have "wf_store t"
    using keeps_wf_perform [of cmd] store_wf.inv_reachable [OF assms] t(1) unfolding keeps_wf_def by (metis snd_conv)
  with t show ?thesis by (auto simp: healthy_def typed_store_full wf_store_def)
qed

theorem commands_never_raise_witness:
  "\<exists>t. perform (Record_hint (S ''a'') 2) day_one = (Inr (), t) \<and> full_state (mem t) \<and>
     wf_json (state_json (mem t)) \<and> in_sync t"
  by (rule commands_never_raise [OF day_one_reachable])

text \<open>
  C1: The recursive evaluation with its shared set of lessons already seen decides exactly
  certification: a lesson is complete when it was marked so, its own gates hold, and its
  prerequisites are certified in turn; the roadmap's map is that predicate for every lesson.
\<close>

theorem completion_is_certification:
  assumes "load_curriculum cap depth pr files stems known tc = Inr c"
    and "reachable fresh_store progress_step s" and "lid \<in> set (c_order c)"
  shows "is_complete (mem s) (Some c) lid [] = Inr (certified (mem s) c lid) \<and>
    completion_map (mem s) c = Inr (map (\<lambda>x. (x, certified (mem s) c x)) (c_order c))"
  using is_complete_certified [OF load_curriculum_ok [OF assms(1)] reachable_full(1) [OF assms(2)] assms(3), of "[]"]
    completion_map_exact [OF load_curriculum_ok [OF assms(1)] reachable_full(1) [OF assms(2)]]
  by simp_all

theorem completion_is_certification_witness:
  "is_complete (mem day_one) (Some tiny_curriculum) (S ''a'') [] = Inr True"
  using completion_is_certification [OF tiny_loads day_one_reachable, of "S ''a''"] day_one_certified
  by (simp add: tiny_get)

text \<open>
  C2: \<open>mark_complete\<close> succeeds exactly when the lesson's own gates hold and its prerequisites are
  certified; then the lesson is certified and no evidence is lost.  Otherwise it names what is
  missing and changes nothing.
\<close>

theorem mark_complete_gated:
  assumes "load_curriculum cap depth pr files stems known tc = Inr c"
    and "reachable fresh_store progress_step s" and "dget (c_lessons c) lid = Some l"
  shows "\<exists>holds ms t. mark_complete now l (Some c) s = (Inr (holds, ms), t) \<and>
    (holds \<longleftrightarrow> gates_hold (mem s) l \<and> (\<forall>p \<in> set (l_prereqs l). certified (mem s) c p)) \<and>
    (if holds then certified (mem t) c lid \<and> ms = [] \<and> progress_le (mem s) (mem t) else t = s \<and> ms \<noteq> [])"
  by (rule mark_complete_exact [OF load_curriculum_ok [OF assms(1)] reachable_full(1) [OF assms(2)] assms(3)])

theorem mark_complete_gated_witness:
  "\<exists>ms. mark_complete (S ''t'') lesson_b (Some tiny_curriculum) new_store = (Inr (False, ms), new_store) \<and> ms \<noteq> []"
proof -
  have "\<not> gates_hold (mem new_store) lesson_b"
    by (simp add: gates_hold_def new_store_def empty_state_def)
  then show ?thesis
    using mark_complete_gated [OF tiny_loads new_store_reachable tiny_get(2), of "S ''t''"] by auto
qed

text \<open>
  C3: A failing mandatory check takes the certification of its lesson and of every lesson that
  depends on it, directly or through others, and of no other lesson; unless it is a red-stage
  check whose pass has already been seen.
\<close>

theorem failing_check_revokes:
  assumes "load_curriculum cap depth pr files stems known tc = Inr c"
    and "reachable fresh_store progress_step s"
    and "\<not> (historical \<and> stands (p_lessons (mem s)) lid b)"
    and "record_validation now lid b False True cs historical s = (r, t)"
  shows "certified (mem t) c x \<longleftrightarrow> certified (mem s) c x \<and> \<not> depends_on c x lid"
proof -
  have s: "typed_store {} s" using reachable_full(2) [OF assms(2)] by (simp add: healthy_def)
  note fail = failing_check [OF s assms(3,4)]
  note ids = curriculum_ids [OF load_curriculum_ok [OF assms(1)]]
  show ?thesis
    using certified_before [OF _ fail(1,2) ids] same_records_certified [OF _ fail(2) _ ids] by blast
qed

theorem failing_check_revokes_witness:
  "\<not> certified (mem (snd (record_validation (S ''t'') (S ''a'') (S ''v1'') False True [] False day_one)))
     tiny_curriculum (S ''a'')"
proof -
  obtain r t where run: "record_validation (S ''t'') (S ''a'') (S ''v1'') False True [] False day_one = (r, t)"
    by (rule prod.exhaust)
  have "\<not> certified (mem t) tiny_curriculum (S ''a'')"
    using failing_check_revokes [OF tiny_loads day_one_reachable _ run, of "S ''a''"] depends_on.itself by simp
  then show ?thesis using run by simp
qed

text \<open>
  Evidence is never lost otherwise: no step, quiz, explanation, hint, interview answer, start
  or completion, no passing check, and no re-run of a red-stage check already seen passing, costs a
  lesson its certification.
\<close>

theorem evidence_kept:
  assumes "reachable fresh_store progress_step s" and "\<not> loses_evidence (p_lessons (mem s)) cmd"
    and "certified (mem s) c lid"
  shows "certified (mem (snd (perform cmd s))) c lid"
  using certified_mono [OF assms(3) perform_progress_le [OF _ assms(2)]] reachable_full(2) [OF assms(1)]
  by (simp add: healthy_def)

theorem evidence_kept_witness:
  "certified (mem (snd (perform (Record_quiz (S ''t'') (S ''a'') (S ''q1'') False []) day_one))) tiny_curriculum (S ''a'')"
  by (rule evidence_kept [OF day_one_reachable _ day_one_certified]) simp

text \<open>
  C10: \<open>resume_lesson_id\<close> never strands the learner: while some lesson is open (available, not
  certified, its prerequisites certified) it returns one, and the one the learner was on if that is
  open; and as long as a lesson whose chain is available is not certified, one is open.
\<close>

theorem resume_returns_open_lesson:
  assumes "load_curriculum cap depth pr files stems known tc = Inr c"
    and "reachable fresh_store progress_step s"
  shows "\<exists>lid. resume_lesson_id (mem s) c = Inr lid \<and>
    (if \<exists>x. completable c x \<and> \<not> certified (mem s) c x
     then actionable (mem s) c lid \<and> (\<forall>x. p_last (mem s) = JStr x \<and> actionable (mem s) c x \<longrightarrow> lid = x)
     else lid = last (c_order c))"
proof -
  have act: "actionable (mem s) c x \<Longrightarrow> completable c x \<and> \<not> certified (mem s) c x" for x
    unfolding actionable_def using certified_completable completable.intros by blast
  have iff: "(\<exists>x. completable c x \<and> \<not> certified (mem s) c x) \<longleftrightarrow> (\<exists>x. actionable (mem s) c x)"
    using some_actionable act by blast
  show ?thesis unfolding iff
    by (rule resume_exact [OF load_curriculum_ok [OF assms(1)] reachable_full(1) [OF assms(2)]])
qed

theorem resume_returns_open_lesson_witness:
  "\<exists>lid. resume_lesson_id (mem new_store) tiny_curriculum = Inr lid \<and> actionable (mem new_store) tiny_curriculum lid"
proof -
  have "completable tiny_curriculum (S ''a'')"
    by (rule completable.intros [OF tiny_get(1)]) (simp_all add: tiny_lesson_simps statuses_distinct)
  then have "\<exists>x. completable tiny_curriculum x \<and> \<not> certified (mem new_store) tiny_curriculum x"
    using new_store_none by blast
  then show ?thesis
    using resume_returns_open_lesson [OF tiny_loads new_store_reachable] by auto
qed

text \<open>
  C4: The program can always be finished: from every reachable state there is a sequence of
  commands, none of them a failing check, after which exactly the lessons whose chain of
  prerequisites is available are certified.
\<close>

theorem program_can_be_finished:
  assumes "load_curriculum cap depth pr files stems known tc = Inr c"
    and "reachable fresh_store progress_step s"
  shows "\<exists>cmds. (\<forall>cmd \<in> set cmds. \<not> failing cmd) \<and>
    (\<forall>lid \<in> set (c_order c). certified (mem (run cmds s)) c lid \<longleftrightarrow> completable c lid)"
  by (rule certify_all [OF load_curriculum_ok [OF assms(1)] reachable_full(2) [OF assms(2)]])

theorem program_can_be_finished_witness:
  "\<exists>cmds. certified (mem (run cmds day_one)) tiny_curriculum (S ''b'')"
proof -
  have a: "completable tiny_curriculum (S ''a'')"
    by (rule completable.intros [OF tiny_get(1)]) (simp_all add: tiny_lesson_simps statuses_distinct)
  have "completable tiny_curriculum (S ''b'')"
    by (rule completable.intros [OF tiny_get(2)]) (simp_all add: tiny_lesson_simps statuses_distinct a)
  then show ?thesis
    using program_can_be_finished [OF tiny_loads day_one_reachable] by (auto simp: tiny_get)
qed

text \<open>
  C9: Restarting is exact: the file a reachable store has saved is read back as the same state with
  sorted keys, which certifies the same lessons, if no counter has passed \<open>MAX_COUNTER\<close>; and if one
  has, all progress is reset.  (Texts without lone surrogates; the recursion room covers the file.)
\<close>

theorem restart_exact:
  assumes "reachable fresh_store progress_step s" and "plain (builtin_int cap) (state_json (mem s))"
    and "containers (state_json (mem s)) \<le> depth"
  shows "load_progress cap depth (Progress_file (ReadText (dumps_indent2 fr (state_json (mem s))))) =
      (if within_limits (mem s) then (canon_state (mem s), False) else (empty_state, True)) \<and>
    certified (canon_state (mem s)) c lid = certified (mem s) c lid"
proof -
  have wf: "wf_json (state_json (mem s))" using store_wf.inv_reachable [OF assms(1)] by (simp add: wf_store_def)
  have full: "full_state (mem s)" by (rule reachable_full(1) [OF assms(1)])
  then have "typed_state (mem s)" by (simp add: full_state_def)
  from reload_exact [OF this wf assms(2,3)]
  show ?thesis using full_sections_valid [OF full] certified_canon [OF wf, of c lid] by simp
qed

text \<open>A store in which a hint far beyond the limit has been asked for.\<close>

definition greedy_store :: pstore where
  "greedy_store = run [Record_hint (S ''a'') 1000000] new_store"

lemma greedy_record:
  "mem greedy_store = empty_state\<lparr>p_lessons := [(S ''a'', dset f_hints_used (JInt 1000001) empty_lesson_record)]\<rparr>"
proof -
  obtain s1 where r: "lesson_record (S ''a'') new_store = (Inr empty_lesson_record, s1)"
    using lesson_record_new [of new_store "S ''a''"] by (metis dget_None empty_iff empty_set dkeys_def
        list.map(1) new_store_def empty_state_def pstore.select_convs(1) progress.select_convs(3) prod.collapse)
  then have m: "mem s1 = empty_state\<lparr>p_lessons := [(S ''a'', empty_lesson_record)]\<rparr>"
    by (auto simp: lesson_record_def Let_def put_record_def new_store_def empty_state_def dset_def)
  have "dget empty_lesson_record f_hints_used = Some (JInt 0)"
    by (simp add: empty_lesson_record_def field_defs)
  from hint_exact [OF r this, of 1000000] m show ?thesis
    by (simp add: greedy_store_def ignore_def op_bind_def op_return_def Let_def save_def put_record_def dset_def)
qed

theorem restart_exact_witness:
  "load_progress 4300 900 (Progress_file (ReadText (dumps_indent2 (\<lambda>_. []) (state_json (mem greedy_store))))) =
     (empty_state, True)"
proof -
  have reach: "reachable fresh_store progress_step greedy_store"
    unfolding greedy_store_def by (rule reachable_run [OF new_store_reachable])
  have json: "state_json (mem greedy_store) =
     JObj [(k_version, JInt 1), (k_last_lesson_id, JNull),
       (k_lessons, JObj [(S ''a'', JObj (dset f_hints_used (JInt 1000001) empty_lesson_record))]),
       (k_concept_section, JObj []), (k_interview, JObj [])]"
    by (simp add: greedy_record state_json_def empty_state_def section_json_def STATE_VERSION_def)
  have ints: "builtin_int 4300 (dec_int 0) = Inr 0" "builtin_int 4300 (dec_int 1) = Inr 1"
    "builtin_int 4300 (dec_int 1000001) = Inr 1000001"
    by (simp_all add: builtin_int_def dec_int_def dec_nat.simps lstrip_by_def int_of_token_def digits_val_def)
  have "plain (builtin_int 4300) (state_json (mem greedy_store))"
    unfolding json
    by (simp add: empty_lesson_record_def dset_def field_defs state_key_defs status_defs ints str_ok_literal)
  moreover have "containers (state_json (mem greedy_store)) \<le> 900"
    unfolding json by (simp add: empty_lesson_record_def dset_def field_defs)
  moreover have "\<not> small (get_or JNull (dset f_hints_used (JInt 1000001) empty_lesson_record) f_hints_used)"
    by (simp add: small_def get_or_def dget_dset MAX_COUNTER_def)
  then have "\<not> within_limits (mem greedy_store)"
    by (simp add: greedy_record empty_state_def within_limits_def counters_small_def)
  ultimately show ?thesis using restart_exact [OF reach] by simp
qed

text \<open>
  The loader tolerates a lesson record without its keys, but the gates do not: with the record
  \<open>{}\<close> for an available lesson without prerequisites the file is accepted, and then asking whether
  the lesson is complete, or what its status is, raises \<open>KeyError\<close>.
\<close>

theorem missing_keys_raise:
  assumes "l_status l \<noteq> s_unavailable" and "l_prereqs l = []"
  shows "\<exists>st. accept_state (JObj [(k_version, JInt 1), (k_lessons, JObj [(l_id l, JObj [])])]) = Some st \<and>
    completion st cur l [] = Inl KeyError \<and> lesson_status pr st l = Inl KeyError"
proof -
  let ?st = "empty_state\<lparr>p_lessons := [(l_id l, [])]\<rparr>"
  have "accept_state (JObj [(k_version, JInt 1), (k_lessons, JObj [(l_id l, JObj [])])]) = Some ?st"
    by (simp add: accept_state_def load_section_def get_or_def record_is_valid_def valid_counter_def
        valid_str_list_def valid_validations_def empty_state_def STATE_VERSION_def state_keys_def state_key_defs)
  moreover have "completion ?st cur l [] = Inl KeyError"
    using assms by (simp add: completion.simps own_missing_def read_field_def)
  moreover have "lesson_status pr ?st l = Inl KeyError" by (simp add: lesson_status_def read_field_def)
  ultimately show ?thesis by blast
qed

theorem missing_keys_raise_witness:
  "\<exists>st. accept_state (JObj [(k_version, JInt 1), (k_lessons, JObj [(l_id lesson_a, JObj [])])]) = Some st \<and>
    completion st None lesson_a [] = Inl KeyError \<and> lesson_status (\<lambda>_. []) st lesson_a = Inl KeyError"
  by (rule missing_keys_raise) (simp_all add: tiny_lesson_simps statuses_distinct)

end
