(* ===== verification/App_Requests.thy ===== *)
theory App_Requests
  imports Progress_Properties
begin

text \<open>
  How the learning server admits a request (\<open>learning/server/app.py\<close>): the parts of a URL the code
  reads, the checks of \<open>_same_origin\<close>, the declared length and the body.

  Header values are strings of Latin-1 characters, so that \<open>str.lower\<close> and a comparison with an
  ASCII literal need the ASCII letters only.  \<open>bad_netloc\<close> stands for the checks of
  \<open>urllib.parse.urlsplit\<close> that rest on tables (the address in brackets, Unicode normalisation);
  \<open>decode_bytes\<close> for the decoding of bytes by \<open>json.loads\<close>.
\<close>

section \<open>Strings\<close>

definition ascii_lower :: "pystr \<Rightarrow> pystr" where
  "ascii_lower s = map (\<lambda>c. if 65 \<le> c \<and> c \<le> 90 then c + 32 else c) s"

definition is_ascii_letter :: "nat \<Rightarrow> bool" where
  "is_ascii_letter c \<longleftrightarrow> 65 \<le> c \<and> c \<le> 90 \<or> 97 \<le> c \<and> c \<le> 122"

text \<open>\<open>s.partition(c)\<close>: before the first \<open>c\<close>, whether there is one, after it.\<close>

definition partition_at :: "nat \<Rightarrow> pystr \<Rightarrow> pystr \<times> bool \<times> pystr" where
  "partition_at c s = (takeWhile (\<lambda>x. x \<noteq> c) s, c \<in> set s, drop 1 (dropWhile (\<lambda>x. x \<noteq> c) s))"

text \<open>What follows the last \<open>c\<close>, all of it if there is none; and what precedes it.\<close>

definition after_last :: "nat \<Rightarrow> pystr \<Rightarrow> pystr" where
  "after_last c s = rev (takeWhile (\<lambda>x. x \<noteq> c) (rev s))"

definition before_last :: "nat \<Rightarrow> pystr \<Rightarrow> pystr" where
  "before_last c s = (if c \<in> set s then rev (drop 1 (dropWhile (\<lambda>x. x \<noteq> c) (rev s))) else s)"

definition strip_by :: "(nat \<Rightarrow> bool) \<Rightarrow> pystr \<Rightarrow> pystr" where
  "strip_by p s = rstrip_by p (lstrip_by p s)"

text \<open>\<open>int(s)\<close> of a string: spaces around, a sign, digits in groups joined by single underscores.\<close>

fun digit_groups :: "bool \<Rightarrow> pystr \<Rightarrow> pystr option" where
  "digit_groups after_digit [] = (if after_digit then Some [] else None)"
| "digit_groups after_digit (c # s) =
     (if is_digit c then map_option ((#) c) (digit_groups True s)
      else if c = 95 \<and> after_digit then digit_groups False s else None)"

definition int_of_str :: "nat \<Rightarrow> pystr \<Rightarrow> py_exc + int" where
  "int_of_str cap s =
     (let t = py_strip s; (neg, r) = (case t of c # r \<Rightarrow> if c = 45 then (True, r) else if c = 43 then (False, r) else (False, t) | [] \<Rightarrow> (False, []))
      in case digit_groups False r of
           None \<Rightarrow> Inl ValueError
         | Some ds \<Rightarrow>
             if cap \<noteq> 0 \<and> cap < length ds then Inl ValueError
             else Inr (if neg then - digits_val ds else digits_val ds))"

section \<open>URLs\<close>

record url =
  u_scheme :: pystr
  u_netloc :: pystr
  u_path :: pystr

definition is_scheme_char :: "nat \<Rightarrow> bool" where
  "is_scheme_char c \<longleftrightarrow> is_ascii_letter c \<or> is_digit c \<or> c = 43 \<or> c = 45 \<or> c = 46"

definition split_scheme :: "pystr \<Rightarrow> pystr \<times> pystr" where
  "split_scheme s =
     (let (before, found, after) = partition_at 58 s
      in if found \<and> before \<noteq> [] \<and> is_ascii_letter (hd before) \<and> list_all is_scheme_char before
         then (ascii_lower before, after) else ([], s))"

text \<open>\<open>urllib.parse.urlsplit\<close>, without query and fragment.\<close>

definition url_split :: "(pystr \<Rightarrow> bool) \<Rightarrow> pystr \<Rightarrow> py_exc + url" where
  "url_split bad_netloc s =
     (let t = filter (\<lambda>c. c \<notin> {9, 10, 13}) (dropWhile (\<lambda>c. c \<le> 32) s);
          (scheme, r) = split_scheme t;
          delim = (\<lambda>c. c = 47 \<or> c = 63 \<or> c = 35);
          (netloc, p) = (if take 2 r = [47, 47]
                         then (takeWhile (\<lambda>c. \<not> delim c) (drop 2 r), dropWhile (\<lambda>c. \<not> delim c) (drop 2 r))
                         else ([], r))
      in if (91 \<in> set netloc) \<noteq> (93 \<in> set netloc) \<or> bad_netloc netloc then Inl ValueError
         else Inr \<lparr>u_scheme = scheme, u_netloc = netloc,
                u_path = takeWhile (\<lambda>c. c \<noteq> 35 \<and> c \<noteq> 63) p\<rparr>)"

definition uses_params :: "pystr list" where
  "uses_params = map S [[], ''ftp'', ''hdl'', ''prospero'', ''http'', ''imap'', ''https'', ''shttp'',
     ''rtsp'', ''rtsps'', ''rtspu'', ''sip'', ''sips'', ''mms'', ''sftp'', ''tel'']"

text \<open>The parameters of the last segment are cut off.\<close>

definition cut_params :: "pystr \<Rightarrow> pystr" where
  "cut_params p =
     (if 47 \<in> set p
      then (let seg = after_last 47 p
            in take (length p - length seg) p @ takeWhile (\<lambda>c. c \<noteq> 59) seg)
      else takeWhile (\<lambda>c. c \<noteq> 59) p)"

definition url_path :: "(pystr \<Rightarrow> bool) \<Rightarrow> pystr \<Rightarrow> py_exc + pystr" where
  "url_path bad_netloc s = res_bind (url_split bad_netloc s) (\<lambda>u.
     Inr (if u_scheme u \<in> set uses_params then cut_params (u_path u) else u_path u))"

text \<open>\<open>parsed.hostname\<close> (empty for none) and \<open>parsed.port\<close>.\<close>

definition host_and_port :: "url \<Rightarrow> pystr \<times> pystr" where
  "host_and_port u =
     (let hostinfo = after_last 64 (u_netloc u); (_, bracket, inside) = partition_at 91 hostinfo
      in if bracket
         then (fst (partition_at 93 inside),
               snd (snd (partition_at 58 (snd (snd (partition_at 93 inside))))))
         else (fst (partition_at 58 hostinfo), snd (snd (partition_at 58 hostinfo))))"

definition url_hostname :: "url \<Rightarrow> pystr" where
  "url_hostname u =
     (let (name, percent, zone) = partition_at 37 (fst (host_and_port u))
      in ascii_lower name @ (if percent then 37 # zone else []))"

definition url_port :: "nat \<Rightarrow> url \<Rightarrow> py_exc + int option" where
  "url_port cap u =
     (let p = snd (host_and_port u)
      in if p = [] then Inr None
         else if \<not> list_all is_digit p then Inl ValueError
         else res_bind (builtin_int cap p) (\<lambda>n. if 65535 < n then Inl ValueError else Inr (Some n)))"

section \<open>Who may mutate state\<close>

record headers =
  content_type :: "pystr option"
  host :: "pystr option"
  origin :: "pystr option"
  fetch_site :: "pystr option"
  content_length :: "pystr option"

datatype refusal = Not_json | Bad_host pystr | Cross_origin pystr | Cross_site pystr

definition loopback_names :: "pystr list" where
  "loopback_names = [S ''127.0.0.1'', S ''localhost'', S ''::1'']"

definition header_or_empty :: "pystr option \<Rightarrow> pystr" where
  "header_or_empty h = (case h of None \<Rightarrow> [] | Some s \<Rightarrow> s)"

definition media_type :: "headers \<Rightarrow> pystr" where
  "media_type hs = ascii_lower (py_strip (fst (partition_at 59 (header_or_empty (content_type hs)))))"

definition host_name :: "headers \<Rightarrow> pystr" where
  "host_name hs = strip_by (\<lambda>c. c = 91 \<or> c = 93) (before_last 58 (header_or_empty (host hs)))"

text \<open>Whether an \<open>Origin\<close> is this server, listening on \<open>port\<close>.\<close>

definition origin_is_self :: "(pystr \<Rightarrow> bool) \<Rightarrow> nat \<Rightarrow> int \<Rightarrow> pystr \<Rightarrow> py_exc + bool" where
  "origin_is_self bad_netloc cap port o' =
     res_bind (url_split bad_netloc o') (\<lambda>u.
     res_bind (url_port cap u) (\<lambda>p.
       let n = (case p of Some n \<Rightarrow> n | None \<Rightarrow> if u_scheme u = S ''https'' then 443 else 80)
       in Inr (u_scheme u = S ''http'' \<and> url_hostname u \<in> set loopback_names \<and> n = port)))"

definition site_refusal :: "headers \<Rightarrow> refusal option" where
  "site_refusal hs = (case fetch_site hs of
     None \<Rightarrow> None
   | Some site \<Rightarrow> if site = S ''same-origin'' \<or> site = S ''none'' then None else Some (Cross_site site))"

definition same_origin :: "(pystr \<Rightarrow> bool) \<Rightarrow> nat \<Rightarrow> int \<Rightarrow> headers \<Rightarrow> py_exc + refusal option" where
  "same_origin bad_netloc cap port hs =
     (if media_type hs \<noteq> S ''application/json'' then Inr (Some Not_json)
      else if host_name hs \<noteq> [] \<and> host_name hs \<notin> set loopback_names then Inr (Some (Bad_host (host_name hs)))
      else case origin hs of
          None \<Rightarrow> Inr (site_refusal hs)
        | Some o' \<Rightarrow> res_bind (origin_is_self bad_netloc cap port o') (\<lambda>self.
            Inr (if self then site_refusal hs else Some (Cross_origin o'))))"

section \<open>The body\<close>

definition MAX_BODY :: int where "MAX_BODY = 64 * 1024"

definition declared_length :: "nat \<Rightarrow> headers \<Rightarrow> int option" where
  "declared_length cap hs = (case content_length hs of
     None \<Rightarrow> Some 0
   | Some raw \<Rightarrow>
       (case int_of_str cap raw of
          Inl _ \<Rightarrow> None
        | Inr n \<Rightarrow> if 0 \<le> n then Some n else None))"

text \<open>How many of the sent bytes a refusal consumes before it answers.\<close>

definition discarded :: "nat \<Rightarrow> headers \<Rightarrow> bytes \<Rightarrow> nat" where
  "discarded cap hs sent =
     (let remaining = min (case declared_length cap hs of None \<Rightarrow> 0 | Some n \<Rightarrow> n) MAX_BODY
      in min (nat remaining) (length sent))"

definition read_body :: "(bytes \<Rightarrow> pystr option) \<Rightarrow> nat \<Rightarrow> nat \<Rightarrow> headers \<Rightarrow> bytes \<Rightarrow> obj option" where
  "read_body decode_bytes cap depth hs sent = (case declared_length cap hs of
     None \<Rightarrow> None
   | Some n \<Rightarrow>
       if n \<le> 0 \<or> MAX_BODY < n then None
       else case decode_bytes (take (nat n) sent) of
           None \<Rightarrow> None
         | Some t \<Rightarrow> (case loads (builtin_int cap) depth t of Inr (JObj d) \<Rightarrow> Some d | _ \<Rightarrow> None))"

section \<open>What admission means\<close>

definition origin_allowed :: "(pystr \<Rightarrow> bool) \<Rightarrow> nat \<Rightarrow> int \<Rightarrow> headers \<Rightarrow> bool" where
  "origin_allowed bad_netloc cap port hs \<longleftrightarrow> (case origin hs of
     None \<Rightarrow> True | Some o' \<Rightarrow> origin_is_self bad_netloc cap port o' = Inr True)"

lemma same_origin_admits:
  "same_origin bad cap port hs = Inr None \<longleftrightarrow>
     media_type hs = S ''application/json'' \<and> (host_name hs = [] \<or> host_name hs \<in> set loopback_names) \<and>
     origin_allowed bad cap port hs \<and>
     (case fetch_site hs of None \<Rightarrow> True | Some site \<Rightarrow> site = S ''same-origin'' \<or> site = S ''none'')"
  by (auto simp: same_origin_def origin_allowed_def site_refusal_def res_simps split: option.splits if_splits)

lemma origin_self_parts:
  "origin_is_self bad cap port o' = Inr True \<longleftrightarrow>
     (\<exists>u p. url_split bad o' = Inr u \<and> url_port cap u = Inr p \<and> u_scheme u = S ''http'' \<and>
       url_hostname u \<in> set loopback_names \<and> port = (case p of None \<Rightarrow> 80 | Some n \<Rightarrow> n))"
proof (cases "url_split bad o'")
  case (Inr u)
  then show ?thesis
  proof (cases "url_port cap u")
    case (Inr p)
    with \<open>url_split bad o' = Inr u\<close> show ?thesis
      by (cases p) (auto simp: origin_is_self_def Let_def)
  qed (simp add: origin_is_self_def)
qed (simp add: origin_is_self_def)

text \<open>The body is read only within its limit and is always an object without repeated keys.\<close>

lemma read_body_bound:
  "read_body dec cap depth hs sent = Some d \<Longrightarrow>
     wf_json (JObj d) \<and> (\<exists>n t. declared_length cap hs = Some n \<and> 0 < n \<and> n \<le> MAX_BODY \<and>
       dec (take (nat n) sent) = Some t \<and> loads (builtin_int cap) depth t = Inr (JObj d))"
  by (auto simp: read_body_def simp del: wf_json.simps split: option.splits if_splits sum.splits json.splits
      dest: loads_wf)

end
