(* ===== verification/Validators.thy ===== *)
theory Validators
  imports Progress_Properties
begin

text \<open>
  The registry of validators (\<open>learning/server/validators.py\<close>): the result of a check, its bounds on
  time and output, and the lookup by name.  A registered check is a function of its arguments that
  either finishes with a result or crashes with the text of its exception; \<open>float_text\<close> is
  \<open>float\<close> of a string.
\<close>

record check_result =
  r_name :: pystr
  r_passed :: bool
  r_exit :: "int option"
  r_stdout :: pystr
  r_stderr :: pystr
  r_duration :: int
  r_interpretation :: pystr
  r_timed_out :: bool
  r_details :: obj

datatype check_run = Finished check_result | Crashed pystr pystr

definition exit_json :: "int option \<Rightarrow> json" where
  "exit_json x = (case x of None \<Rightarrow> JNull | Some i \<Rightarrow> JInt i)"

definition to_dict :: "check_result \<Rightarrow> obj" where
  "to_dict r =
     [(S ''name'', JStr (r_name r)), (S ''passed'', JBool (r_passed r)), (S ''exit_status'', exit_json (r_exit r)),
      (S ''stdout'', JStr (r_stdout r)), (S ''stderr'', JStr (r_stderr r)), (S ''duration_ms'', JInt (r_duration r)),
      (S ''interpretation'', JStr (r_interpretation r)), (S ''timed_out'', JBool (r_timed_out r)),
      (S ''details'', JObj (r_details r))]"

definition MAX_OUTPUT_CHARS :: nat where "MAX_OUTPUT_CHARS = 4000"
definition DEFAULT_TIMEOUT_SECONDS :: rat where "DEFAULT_TIMEOUT_SECONDS = 30"
definition MAX_TIMEOUT_SECONDS :: rat where "MAX_TIMEOUT_SECONDS = 300"

definition truncation_note :: pystr where
  "truncation_note = 10 # S ''... [truncated]''"

definition truncate_output :: "pystr \<Rightarrow> pystr" where
  "truncate_output t = (if length t \<le> MAX_OUTPUT_CHARS then t else take MAX_OUTPUT_CHARS t @ truncation_note)"

section \<open>Time limits\<close>

text \<open>\<open>float(raw)\<close>\<close>

definition to_float :: "(pystr \<Rightarrow> pyfloat option) \<Rightarrow> json \<Rightarrow> py_exc + pyfloat" where
  "to_float float_text v = (case v of
     JStr s \<Rightarrow> (case float_text s of None \<Rightarrow> Inl ValueError | Some f \<Rightarrow> Inr f)
   | _ \<Rightarrow> py_float v)"

text \<open>\<open>min(value, limit)\<close> and \<open>max(1.0, x)\<close>, each returning its first argument unless the second wins.\<close>

definition f_min_to :: "rat \<Rightarrow> pyfloat \<Rightarrow> pyfloat" where
  "f_min_to m x = (case x of Fin a \<Rightarrow> if m < a then Fin m else x | PInf \<Rightarrow> Fin m | _ \<Rightarrow> x)"

definition f_max_from :: "rat \<Rightarrow> pyfloat \<Rightarrow> pyfloat" where
  "f_max_from m x = (case x of Fin a \<Rightarrow> if m < a then x else Fin m | PInf \<Rightarrow> PInf | _ \<Rightarrow> Fin m)"

definition clamp_timeout :: "(pystr \<Rightarrow> pyfloat option) \<Rightarrow> obj \<Rightarrow> py_exc + pyfloat" where
  "clamp_timeout float_text args =
     (case to_float float_text (get_or (JFloat (Fin DEFAULT_TIMEOUT_SECONDS)) args (S ''timeout_seconds'')) of
        Inr value \<Rightarrow> Inr (f_max_from 1 (f_min_to MAX_TIMEOUT_SECONDS value))
      | Inl x \<Rightarrow> if x = TypeError \<or> is_value_error x then Inr (Fin DEFAULT_TIMEOUT_SECONDS) else Inl x)"

section \<open>Running a check\<close>

type_synonym registry = "(obj \<Rightarrow> check_run) dict"

definition run_validator :: "registry \<Rightarrow> pystr \<Rightarrow> obj \<Rightarrow> check_run" where
  "run_validator reg name args = (case dget reg name of
     None \<Rightarrow> Crashed (S ''KeyError'') (S ''unknown validator'')
   | Some fn \<Rightarrow> fn args)"

section \<open>Lemmas\<close>

lemma length_truncate_output: "length (truncate_output t) \<le> MAX_OUTPUT_CHARS + length truncation_note"
  by (simp add: truncate_output_def)

lemma truncate_output_id: "length t \<le> MAX_OUTPUT_CHARS \<Longrightarrow> truncate_output t = t"
  by (simp add: truncate_output_def)

text \<open>
  A time limit is always a number of seconds between 1 and 300: no lesson can wait for ever.  The
  only argument that raises is an integer too large for a float.
\<close>

lemma clamped: "\<exists>t. f_max_from 1 (f_min_to MAX_TIMEOUT_SECONDS x) = Fin t \<and> 1 \<le> t \<and> t \<le> MAX_TIMEOUT_SECONDS"
  by (cases x) (auto simp: f_max_from_def f_min_to_def MAX_TIMEOUT_SECONDS_def)

lemma to_float_errors: "to_float ft v = Inl x \<Longrightarrow> x = TypeError \<or> x = ValueError \<or> x = OverflowError"
  by (auto simp: to_float_def py_float_def to_double_def res_simps split: json.splits option.splits pyfloat.splits)

lemma clamp_timeout_range:
  "(\<exists>t. clamp_timeout ft args = Inr (Fin t) \<and> 1 \<le> t \<and> t \<le> MAX_TIMEOUT_SECONDS) \<or>
    clamp_timeout ft args = Inl OverflowError"
proof (cases "to_float ft (get_or (JFloat (Fin DEFAULT_TIMEOUT_SECONDS)) args (S ''timeout_seconds''))")
  case (Inl x)
  then show ?thesis using to_float_errors [OF Inl]
    by (auto simp: clamp_timeout_def is_value_error_def DEFAULT_TIMEOUT_SECONDS_def MAX_TIMEOUT_SECONDS_def)
next
  case (Inr v)
  then show ?thesis using clamped [of v] by (auto simp: clamp_timeout_def)
qed

end
