(* ===== verification/App_Handlers.thy ===== *)
theory App_Handlers
  imports App_Requests Validators
begin

text \<open>
  The request handlers of the learning server (\<open>learning/server/app.py\<close>).  A handler is an operation
  on the progress store that returns the reply, a status code with a JSON payload, or raises what
  would escape the request thread.  The record \<open>env\<close> holds what a handler takes from Python's
  library and from the machine: case folding, \<open>repr\<close>, \<open>unquote\<close>, the clock, the weighted choice.

  \<open>closing1\<close> and \<open>closing2\<close> are what the handler of \<open>/api/validate\<close> sees of \<open>shutting_down\<close> before
  and after the check has run; the threads and the lock are in \<open>Shutdown\<close>.
\<close>

record env =
  e_lower :: "pystr \<Rightarrow> pystr"
  e_repr :: "pystr \<Rightarrow> pystr"
  e_str :: "json \<Rightarrow> pystr"
  e_repr_value :: "json \<Rightarrow> pystr"
  e_float :: "pyfloat \<Rightarrow> pystr"
  e_unquote :: "pystr \<Rightarrow> pystr"
  e_bad_netloc :: "pystr \<Rightarrow> bool"
  e_decode :: "bytes \<Rightarrow> pystr option"
  e_choose :: "pyfloat dict \<Rightarrow> pystr"
  e_cap :: nat
  e_depth :: nat
  e_port :: int
  e_now :: pystr

datatype reply = Reply nat json | File pystr bytes

definition error_reply :: "nat \<Rightarrow> pystr \<Rightarrow> reply" where
  "error_reply code msg = Reply code (JObj [(S ''error'', JStr msg)])"

definition op_query :: "(progress \<Rightarrow> py_exc + 'a) \<Rightarrow> 'a op" where
  "op_query f s = (f (mem s), s)"

definition answer :: "nat \<Rightarrow> json \<Rightarrow> reply op" where
  "answer code payload = op_return (Reply code payload)"

definition fail_with :: "nat \<Rightarrow> pystr \<Rightarrow> reply op" where
  "fail_with code msg = op_return (error_reply code msg)"

section \<open>Payloads\<close>

definition jstrs :: "pystr list \<Rightarrow> json" where
  "jstrs xs = JList (map JStr xs)"

definition missing_text :: "env \<Rightarrow> missing \<Rightarrow> pystr" where
  "missing_text e m = (case m of
     Lesson_unavailable \<Rightarrow> S ''lesson is unavailable''
   | Not_started \<Rightarrow> S ''lesson not started''
   | Missing_prerequisite p \<Rightarrow> S ''prerequisite '' @ e_repr e p @ S '' is not complete''
   | Missing_validation b \<Rightarrow> S ''mandatory validation '' @ e_repr e b @ S '' not passed''
   | Missing_quiz b \<Rightarrow> S ''quiz '' @ e_repr e b @ S '' not answered correctly''
   | Missing_explain b \<Rightarrow> S ''explain '' @ e_repr e b @ S '' not answered'')"

definition mastery_json :: "mastery dict \<Rightarrow> json" where
  "mastery_json ms = JObj (map (\<lambda>(c, m). (c, JObj
     [(S ''correct'', JInt (m_correct m)), (S ''incorrect'', JInt (m_incorrect m)),
      (S ''score'', case m_score m of None \<Rightarrow> JNull | Some r \<Rightarrow> JFloat (Fin r)),
      (S ''weak'', JBool (m_weak m))])) ms)"

text \<open>\<open>snapshot["lessons"].get(lesson_id, {})\<close>, used as a dict.\<close>

definition snapshot_lessons :: "json \<Rightarrow> py_exc + obj" where
  "snapshot_lessons snap = res_bind (as_dict_attr snap) (\<lambda>d. res_bind (read_field d k_lessons) as_dict_attr)"

definition snapshot_record :: "obj \<Rightarrow> pystr \<Rightarrow> py_exc + obj" where
  "snapshot_record ls lid = as_dict_attr (get_or (JObj []) ls lid)"

text \<open>\<open>hints[:n]\<close>\<close>

definition py_take :: "int \<Rightarrow> 'a list \<Rightarrow> 'a list" where
  "py_take n xs = take (nat (if n < 0 then n + int (length xs) else n)) xs"

definition revealed_hints :: "lesson \<Rightarrow> obj \<Rightarrow> py_exc + json list" where
  "revealed_hints l r =
     (let v = get_or (JInt 0) r f_hints_used
      in res_bind (py_int (if truthy v then v else JInt 0)) (\<lambda>n.
         res_map (\<lambda>h. res_bind (read_field h (S ''level'')) (\<lambda>lv. res_bind (read_field h (S ''text'')) (\<lambda>t.
           Inr (JObj [(S ''level'', lv), (S ''text'', t)])))) (py_take n (l_hints l))))"

definition lesson_public :: "env \<Rightarrow> curriculum \<Rightarrow> lesson \<Rightarrow> json op" where
  "lesson_public e c l =
     op_bind (op_query (snapshot (e_cap e) (e_depth e) (e_float e))) (\<lambda>snap.
     op_bind (op_lift (res_bind (snapshot_lessons snap) (\<lambda>ls. snapshot_record ls (l_id l)))) (\<lambda>r.
     op_bind (op_query (\<lambda>st. completion st (Some c) l [])) (\<lambda>(holds, ms).
     op_bind (op_lift (revealed_hints l r)) (\<lambda>hints.
       op_return (JObj
         [(S ''id'', JStr (l_id l)), (S ''day'', JInt (l_day l)), (S ''title'', JStr (l_title l)),
          (S ''objective'', JStr (l_objective l)), (S ''estimated_minutes'', JInt (l_minutes l)),
          (S ''status'', JStr (l_status l)), (S ''unavailable_reason'', JStr (l_reason l)),
          (S ''concepts'', jstrs (l_concepts l)), (S ''prerequisites'', jstrs (l_prereqs l)),
          (S ''source_files'', jstrs (l_source_files l)),
          (S ''flow'', case l_flow l of None \<Rightarrow> JNull | Some f \<Rightarrow> JStr f),
          (S ''blocks'', JList (map JObj (l_blocks l))), (S ''hint_count'', JInt (int (length (l_hints l)))),
          (S ''revealed_hints'', JList hints), (S ''requirements'', jstrs (l_requirements l)),
          (S ''progress'', JObj
             [(S ''status'', get_or (JStr st_not_started) r f_status),
              (S ''steps_done'', get_or (JList []) r f_steps_done),
              (S ''validations'', get_or (JObj []) r f_validations),
              (S ''quiz_correct'', get_or (JList []) r f_quiz_correct),
              (S ''explain_done'', get_or (JList []) r f_explain_done),
              (S ''hints_used'', get_or (JInt 0) r f_hints_used),
              (S ''complete'', JBool holds), (S ''missing'', jstrs (map (missing_text e) ms))])])))))"

section \<open>Reading handlers\<close>

definition lesson_of :: "curriculum \<Rightarrow> pystr \<Rightarrow> py_exc + lesson" where
  "lesson_of c lid = (case dget (c_lessons c) lid of None \<Rightarrow> Inl KeyError | Some l \<Rightarrow> Inr l)"

definition available_ids :: "curriculum \<Rightarrow> pystr list \<Rightarrow> py_exc + pystr list" where
  "available_ids c lids = res_bind (res_map (\<lambda>lid. res_bind (lesson_of c lid) (\<lambda>l. Inr (lid, l))) lids)
     (\<lambda>ls. Inr (map fst (filter (\<lambda>(lid, l). l_status l = s_available) ls)))"

definition done_ids :: "bool dict \<Rightarrow> pystr list \<Rightarrow> pystr list" where
  "done_ids cm lids = filter (\<lambda>lid. dget cm lid = Some True) lids"

definition day_json :: "curriculum \<Rightarrow> bool dict \<Rightarrow> day \<Rightarrow> py_exc + json" where
  "day_json c cm d = res_bind (available_ids c (d_lesson_ids d)) (\<lambda>av. Inr (JObj
     [(S ''day'', JInt (d_day d)), (S ''title'', JStr (d_title d)), (S ''summary'', JStr (d_summary d)),
      (S ''total'', JInt (int (length av))), (S ''done'', JInt (int (length (done_ids cm av))))]))"

definition handle_state :: "env \<Rightarrow> curriculum \<Rightarrow> reply op" where
  "handle_state e c =
     op_bind (op_query (\<lambda>st. resume_lesson_id st c)) (\<lambda>resume.
     op_bind (op_query (\<lambda>st. completion_map st c)) (\<lambda>cm.
     op_bind (op_lift (available_ids c (c_order c))) (\<lambda>av.
     op_bind (op_lift (res_map (day_json c cm) (c_days c))) (\<lambda>days.
     op_bind (op_query (\<lambda>st. concept_mastery st (c_concepts c))) (\<lambda>ms.
       answer 200 (JObj
         [(S ''resume_lesson_id'', JStr resume),
          (S ''total_lessons'', JInt (int (length (filter (\<lambda>(k, l). l_status l = s_available) (c_lessons c))))),
          (S ''completed_lessons'', JInt (int (length (done_ids cm av)))),
          (S ''days'', JList days), (S ''mastery'', mastery_json ms)]))))))"

definition lesson_row :: "curriculum \<Rightarrow> bool dict \<Rightarrow> obj \<Rightarrow> pystr \<Rightarrow> py_exc + json" where
  "lesson_row c cm ls lid =
     res_bind (lesson_of c lid) (\<lambda>l. res_bind (snapshot_record ls lid) (\<lambda>r.
       let prereqs_met = list_all (\<lambda>p. dget cm p = Some True) (l_prereqs l)
       in Inr (JObj
         [(S ''id'', JStr (l_id l)), (S ''title'', JStr (l_title l)), (S ''estimated_minutes'', JInt (l_minutes l)),
          (S ''status'', JStr (l_status l)), (S ''unavailable_reason'', JStr (l_reason l)),
          (S ''progress'',
             if dget cm lid = Some True \<or> get_or JNull r f_status \<noteq> JStr st_complete
             then get_or (JStr st_not_started) r f_status else JStr st_in_progress),
          (S ''locked'', JBool (l_status l = s_available \<and> \<not> prereqs_met))])))"

definition handle_curriculum :: "env \<Rightarrow> curriculum \<Rightarrow> reply op" where
  "handle_curriculum e c =
     op_bind (op_query (snapshot (e_cap e) (e_depth e) (e_float e))) (\<lambda>snap.
     op_bind (op_lift (snapshot_lessons snap)) (\<lambda>ls.
     op_bind (op_query (\<lambda>st. completion_map st c)) (\<lambda>cm.
     op_bind (op_lift (res_map (\<lambda>d. res_bind (res_map (lesson_row c cm ls) (d_lesson_ids d)) (\<lambda>rows.
         Inr (JObj [(S ''day'', JInt (d_day d)), (S ''title'', JStr (d_title d)),
           (S ''summary'', JStr (d_summary d)), (S ''lessons'', JList rows)]))) (c_days c))) (\<lambda>days.
       answer 200 (JObj [(S ''concepts'', jstrs (c_concepts c)), (S ''days'', JList days)])))))"

definition handle_lesson :: "env \<Rightarrow> curriculum \<Rightarrow> pystr \<Rightarrow> reply op" where
  "handle_lesson e c lid = (case dget (c_lessons c) (e_unquote e lid) of
     None \<Rightarrow> fail_with 404 (S ''unknown lesson '' @ e_repr e lid)
   | Some l \<Rightarrow> op_bind (lesson_public e c l) (answer 200))"

definition handle_mastery :: "env \<Rightarrow> curriculum \<Rightarrow> reply op" where
  "handle_mastery e c = op_bind (op_query (\<lambda>st. concept_mastery st (c_concepts c))) (\<lambda>ms. answer 200 (mastery_json ms))"

definition handle_flow :: "env \<Rightarrow> curriculum \<Rightarrow> pystr \<Rightarrow> reply op" where
  "handle_flow e c name = (case dget (c_flows c) (e_unquote e name) of
     None \<Rightarrow> fail_with 404 (S ''unknown flow '' @ e_repr e name)
   | Some f \<Rightarrow> answer 200 (JObj f))"

text \<open>\<open>e_choose\<close> is \<open>random.choices\<close>; \<open>next\<close> without a match would raise.\<close>

definition handle_interview_next :: "env \<Rightarrow> curriculum \<Rightarrow> reply op" where
  "handle_interview_next e c =
     op_bind (op_query (\<lambda>st. interview_weights st (dict_of (map (\<lambda>q. (q_id q, q_concepts q)) (c_interview c))))) (\<lambda>ws.
       case List.find (\<lambda>q. q_id q = e_choose e ws) (c_interview c) of
         None \<Rightarrow> op_lift (Inl IndexError)
       | Some q \<Rightarrow> answer 200 (JObj [(S ''id'', JStr (q_id q)), (S ''question'', JStr (q_question q))]))"

section \<open>Static files\<close>

text \<open>The file system: \<open>resolve\<close> of a path below the static directory, as its components.\<close>

record static_files =
  fs_root :: "pystr list"
  fs_resolve :: "pystr \<Rightarrow> pystr list"
  fs_is_file :: "pystr list \<Rightarrow> bool"
  fs_read :: "pystr list \<Rightarrow> bytes"

definition content_types :: "pystr dict" where
  "content_types =
     [(S ''.html'', S ''text/html; charset=utf-8''), (S ''.css'', S ''text/css; charset=utf-8''),
      (S ''.js'', S ''text/javascript; charset=utf-8''), (S ''.json'', S ''application/json; charset=utf-8''),
      (S ''.svg'', S ''image/svg+xml''), (S ''.png'', S ''image/png''), (S ''.ico'', S ''image/x-icon'')]"

definition file_suffix :: "pystr \<Rightarrow> pystr" where
  "file_suffix name =
     (let ext = after_last 46 name
      in if 46 \<in> set name \<and> ext \<noteq> [] \<and> length ext + 1 < length name then 46 # ext else [])"

definition inside_root :: "pystr list \<Rightarrow> pystr list \<Rightarrow> bool" where
  "inside_root base candidate \<longleftrightarrow> take (length base) candidate = base"

definition serve_static :: "env \<Rightarrow> static_files \<Rightarrow> pystr \<Rightarrow> reply" where
  "serve_static e fs path =
     (let relative0 = e_unquote e (lstrip_by (\<lambda>c. c = 47) path);
          relative = (if relative0 = [] \<or> relative0 = S ''static'' then S ''static/index.html'' else relative0)
      in if \<not> starts_with (S ''static/'') relative then error_reply 404 (S ''not found'')
         else (let candidate = fs_resolve fs (drop 7 relative)
               in if \<not> inside_root (fs_root fs) candidate then error_reply 404 (S ''not found'')
                  else if \<not> fs_is_file fs candidate then error_reply 404 (S ''not found'')
                  else File (case dget content_types (file_suffix (last candidate)) of
                         Some t \<Rightarrow> t | None \<Rightarrow> S ''application/octet-stream'') (fs_read fs candidate)))"

definition do_GET :: "env \<Rightarrow> curriculum \<Rightarrow> static_files \<Rightarrow> pystr \<Rightarrow> reply op" where
  "do_GET e c fs target =
     op_bind (op_lift (url_path (e_bad_netloc e) target)) (\<lambda>path.
       if path = S ''/'' \<or> starts_with (S ''/static/'') path then op_return (serve_static e fs path)
       else if path = S ''/api/state'' then handle_state e c
       else if path = S ''/api/curriculum'' then handle_curriculum e c
       else if starts_with (S ''/api/lesson/'') path then handle_lesson e c (drop 12 path)
       else if path = S ''/api/mastery'' then handle_mastery e c
       else if starts_with (S ''/api/flow/'') path then handle_flow e c (drop 10 path)
       else if path = S ''/api/interview'' then handle_interview_next e c
       else fail_with 404 (S ''not found''))"

section \<open>Mutating handlers\<close>

definition k_lesson_id :: pystr where "k_lesson_id = S ''lesson_id''"
definition k_block_id :: pystr where "k_block_id = S ''block_id''"
definition k_kind :: pystr where "k_kind = S ''kind''"
definition k_answer_text :: pystr where "k_answer_text = S ''answer_text''"

definition MIN_EXPLAIN_WORDS :: nat where "MIN_EXPLAIN_WORDS = 12"

definition lesson_or_404 :: "env \<Rightarrow> curriculum \<Rightarrow> json \<Rightarrow> reply + lesson" where
  "lesson_or_404 e c v = (case v of
     JStr lid \<Rightarrow>
       (case dget (c_lessons c) lid of
          None \<Rightarrow> Inl (error_reply 404 (S ''unknown lesson '' @ e_repr e lid))
        | Some l \<Rightarrow> Inr l)
   | _ \<Rightarrow> Inl (error_reply 400 (S ''lesson_id must be a string'')))"

definition with_lesson :: "env \<Rightarrow> curriculum \<Rightarrow> obj \<Rightarrow> (lesson \<Rightarrow> reply op) \<Rightarrow> reply op" where
  "with_lesson e c body f = (case lesson_or_404 e c (get_or JNull body k_lesson_id) of
     Inl r \<Rightarrow> op_return r | Inr l \<Rightarrow> f l)"

definition handle_start :: "env \<Rightarrow> curriculum \<Rightarrow> obj \<Rightarrow> reply op" where
  "handle_start e c body = with_lesson e c body (\<lambda>l.
     if l_status l \<noteq> s_available then fail_with 409 (S ''lesson is unavailable'')
     else op_then (mark_started (e_now e) (l_id l)) (op_bind (lesson_public e c l) (answer 200)))"

subsection \<open>Steps\<close>

text \<open>The words of \<open>s.split()\<close>, counted.\<close>

fun count_words :: "bool \<Rightarrow> pystr \<Rightarrow> nat" where
  "count_words inside [] = 0"
| "count_words inside (c # s) =
     (if is_space c then count_words False s else (if inside then 0 else 1) + count_words True s)"

definition substring :: "pystr \<Rightarrow> pystr \<Rightarrow> bool" where
  "substring x s \<longleftrightarrow> list_ex (\<lambda>i. starts_with x (drop i s)) [0..<Suc (length s)]"

text \<open>The keywords an answer mentions.\<close>

definition keyword_hits :: "env \<Rightarrow> pystr list \<Rightarrow> pystr \<Rightarrow> pystr list" where
  "keyword_hits e kws text = filter (\<lambda>kw. substring (e_lower e kw) (e_lower e text)) kws"

definition step_quiz :: "env \<Rightarrow> lesson \<Rightarrow> pystr \<Rightarrow> pystr \<Rightarrow> obj \<Rightarrow> reply op" where
  "step_quiz e l kind bid body = (case quiz_block l bid of
     None \<Rightarrow> fail_with 404 (S ''unknown '' @ kind @ S '' block'')
   | Some b \<Rightarrow>
       if block_type b \<noteq> JStr kind then fail_with 404 (S ''unknown '' @ kind @ S '' block'')
       else (let v = get_or JNull body k_answer_index
             in if as_int v = None then fail_with 400 (S ''answer_index required'')
                else op_bind (op_lift (read_field b k_answer_index)) (\<lambda>right.
                  let correct = py_eq v right
                  in op_then (if kind = t_quiz then record_quiz (e_now e) (l_id l) bid correct (l_concepts l)
                              else record_step (l_id l) bid)
                     (answer 200 (JObj [(S ''correct'', JBool correct),
                        (S ''explanation'', get_or (get_or (JStr []) b (S ''explanation'')) b (S ''reveal'')),
                        (k_answer_index, right)])))))"

definition step_explain :: "env \<Rightarrow> lesson \<Rightarrow> pystr \<Rightarrow> obj \<Rightarrow> reply op" where
  "step_explain e l bid body = (case explain_block l bid of
     None \<Rightarrow> fail_with 404 (S ''unknown explain block'')
   | Some b \<Rightarrow>
       (case get_or JNull body k_answer_text of
          JStr text \<Rightarrow>
            if py_strip text = [] then fail_with 400 (S ''answer_text required'')
            else
              op_bind (op_lift (res_bind (read_field b k_keywords) (\<lambda>v. case v of
                  JList xs \<Rightarrow> (case strings_of xs of Some ks \<Rightarrow> Inr ks | None \<Rightarrow> Inl AttributeError)
                | _ \<Rightarrow> Inl TypeError))) (\<lambda>kws.
              let hits = keyword_hits e kws text; words = count_words False text;
                  passed = (hits \<noteq> [] \<and> MIN_EXPLAIN_WORDS \<le> words)
              in op_then (record_explain (e_now e) (l_id l) bid passed (l_concepts l))
                 (op_bind (op_lift (read_field b k_sample_answer)) (\<lambda>sample.
                   answer 200 (JObj [(S ''passed'', JBool passed), (S ''matched_keywords'', jstrs hits),
                     (S ''too_short'', JBool (hits \<noteq> [] \<and> words < MIN_EXPLAIN_WORDS)),
                     (k_sample_answer, sample)]))))
        | _ \<Rightarrow> fail_with 400 (S ''answer_text required'')))"

definition handle_step :: "env \<Rightarrow> curriculum \<Rightarrow> obj \<Rightarrow> reply op" where
  "handle_step e c body = with_lesson e c body (\<lambda>l.
     case (get_or JNull body k_block_id, get_or JNull body k_kind) of
       (JStr bid, JStr kind) \<Rightarrow>
         if kind = t_learn \<or> kind = t_do
         then op_then (record_step (l_id l) bid) (answer 200 (JObj [(S ''recorded'', JBool True)]))
         else if kind = t_quiz \<or> kind = t_predict then step_quiz e l kind bid body
         else if kind = t_explain then step_explain e l bid body
         else fail_with 400 (S ''unknown step kind '' @ e_repr e kind)
     | _ \<Rightarrow> fail_with 400 (S ''block_id and kind required''))"

definition handle_hint :: "env \<Rightarrow> curriculum \<Rightarrow> obj \<Rightarrow> reply op" where
  "handle_hint e c body = with_lesson e c body (\<lambda>l.
     case as_int (get_or JNull body (S ''index'')) of
       None \<Rightarrow> fail_with 400 (S ''hint index out of range'')
     | Some i \<Rightarrow>
         if i < 0 \<or> int (length (l_hints l)) \<le> i then fail_with 400 (S ''hint index out of range'')
         else op_bind (record_hint (l_id l) i) (\<lambda>revealed.
              op_bind (op_lift (read_field (l_hints l ! nat i) (S ''level''))) (\<lambda>lv.
              op_bind (op_lift (read_field (l_hints l ! nat i) (S ''text''))) (\<lambda>t.
                answer 200 (JObj [(S ''level'', lv), (S ''text'', t),
                  (S ''total'', JInt (int (length (l_hints l)))), (S ''revealed'', JInt revealed)])))))"

subsection \<open>Checks\<close>

definition verify_block :: "lesson \<Rightarrow> json \<Rightarrow> obj option" where
  "verify_block l bid = List.find (\<lambda>b. block_type b = JStr t_verify \<and> py_eq (get_or JNull b k_id) bid) (l_blocks l)"

definition flag :: "obj \<Rightarrow> pystr \<Rightarrow> bool" where
  "flag b k = truthy (get_or (JBool False) b k)"

definition k_historical :: pystr where "k_historical = S ''historical''"

text \<open>The result shown when the check itself has crashed.\<close>

definition crash_result :: "pystr \<Rightarrow> pystr \<Rightarrow> pystr \<Rightarrow> check_result" where
  "crash_result name trace what =
     \<lparr>r_name = name, r_passed = False, r_exit = None, r_stdout = [], r_stderr = truncate_output trace,
      r_duration = 0,
      r_interpretation = S ''The check could not run: '' @ what @ S ''. '' @
        S ''That is a fault in the check itself, not in your work '' @ [8212] @
        S '' but nothing was verified, so the gate stays shut.'',
      r_timed_out = False, r_details = []\<rparr>"

definition red_stage_note :: pystr where
  "red_stage_note = [10, 10] @ S ''This is a red-stage check: you already recorded it passing, and that record stands. '' @
     S ''It stops reproducing once the lesson's work is done '' @ [8212] @ S '' which is the point '' @ [8212] @
     S '' so your completion is not affected.''"

definition record_check :: "env \<Rightarrow> lesson \<Rightarrow> obj \<Rightarrow> check_result \<Rightarrow> bool \<Rightarrow> reply op" where
  "record_check e l b result crashed =
     (let bid = block_id b; historical = flag b k_historical
      in op_bind (if historical then op_query (\<lambda>st. validation_passed st (l_id l) bid) else op_return False) (\<lambda>seen.
         op_then (record_validation (e_now e) (l_id l) bid (r_passed result) (flag b k_mandatory)
                   (if crashed then [] else l_concepts l) historical)
           (let payload = to_dict result
            in answer 200 (JObj (if seen \<and> \<not> r_passed result
                 then dset (S ''interpretation'') (JStr (r_interpretation result @ red_stage_note)) payload
                 else payload)))))"

definition handle_validate :: "env \<Rightarrow> curriculum \<Rightarrow> registry \<Rightarrow> bool \<Rightarrow> bool \<Rightarrow> obj \<Rightarrow> reply op" where
  "handle_validate e c reg closing1 closing2 body = with_lesson e c body (\<lambda>l.
     if l_status l \<noteq> s_available then fail_with 409 (S ''lesson is unavailable'')
     else case verify_block l (get_or JNull body k_block_id) of
         None \<Rightarrow> fail_with 404 (S ''lesson '' @ e_repr e (l_id l) @ S '' has no verify block '' @
                    e_repr_value e (get_or JNull body k_block_id))
       | Some b \<Rightarrow>
           (case get_or (JObj []) b (S ''args'') of
              JObj args \<Rightarrow>
                if closing1 then fail_with 503 (S ''the learning server is shutting down; this check was not started'')
                else (case (case get_or JNull b k_validator of
                              JStr v \<Rightarrow> run_validator reg v args
                            | _ \<Rightarrow> Crashed (S ''KeyError'') (S ''unknown validator'')) of
                    Finished result \<Rightarrow>
                      if closing2 then fail_with 503 (S ''the learning server is shutting down; this check was stopped and its result discarded'')
                      else record_check e l b result False
                  | Crashed trace what \<Rightarrow>
                      op_bind (op_lift (read_field b k_validator)) (\<lambda>v.
                        record_check e l b (crash_result (py_str (e_str e) v) trace what) True))
            | _ \<Rightarrow> fail_with 500 (S ''bad validator args'')))"

subsection \<open>Completion and interview\<close>

definition handle_complete :: "env \<Rightarrow> curriculum \<Rightarrow> obj \<Rightarrow> reply op" where
  "handle_complete e c body = with_lesson e c body (\<lambda>l.
     op_bind (mark_complete (e_now e) l (Some c)) (\<lambda>(holds, ms).
       if \<not> holds
       then answer 409 (JObj [(S ''complete'', JBool False), (S ''missing'', jstrs (map (missing_text e) ms))])
       else op_bind (op_query (\<lambda>st. resume_lesson_id st c)) (\<lambda>resume.
            answer 200 (JObj [(S ''complete'', JBool True), (S ''next_lesson_id'', JStr resume)]))))"

definition handle_interview_answer :: "env \<Rightarrow> curriculum \<Rightarrow> obj \<Rightarrow> reply op" where
  "handle_interview_answer e c body = (case get_or JNull body k_answer_text of
     JStr text \<Rightarrow>
       if py_strip text = [] then fail_with 400 (S ''answer_text required'')
       else (case List.find (\<lambda>q. py_eq (JStr (q_id q)) (get_or JNull body (S ''question_id''))) (c_interview c) of
               None \<Rightarrow> fail_with 404 (S ''unknown question'')
             | Some q \<Rightarrow>
                 (let hits = keyword_hits e (q_keywords q) text; correct = (hits \<noteq> [])
                  in op_then (record_interview (e_now e) (q_id q) correct (q_concepts q))
                     (answer 200 (JObj [(S ''correct'', JBool correct), (S ''matched_keywords'', jstrs hits),
                        (k_sample_answer, JStr (q_sample q))]))))
   | _ \<Rightarrow> fail_with 400 (S ''answer_text required''))"

section \<open>Routing of mutating requests\<close>

definition refusal_text :: "env \<Rightarrow> refusal \<Rightarrow> pystr" where
  "refusal_text e r = (case r of
     Not_json \<Rightarrow> S ''Content-Type must be application/json''
   | Bad_host h \<Rightarrow> S ''unexpected Host '' @ e_repr e h @ S ''; this server is loopback-only''
   | Cross_origin o' \<Rightarrow> S ''cross-origin request from '' @ e_repr e o' @ S '' is not allowed''
   | Cross_site s \<Rightarrow> S ''cross-site request (Sec-Fetch-Site: '' @ s @ S '')'')"

definition dispatch :: "env \<Rightarrow> curriculum \<Rightarrow> registry \<Rightarrow> bool \<Rightarrow> bool \<Rightarrow> pystr \<Rightarrow> obj \<Rightarrow> reply op" where
  "dispatch e c reg closing1 closing2 path body =
     (if path = S ''/api/start'' then handle_start e c body
      else if path = S ''/api/step'' then handle_step e c body
      else if path = S ''/api/hint'' then handle_hint e c body
      else if path = S ''/api/validate'' then handle_validate e c reg closing1 closing2 body
      else if path = S ''/api/complete'' then handle_complete e c body
      else if path = S ''/api/interview/answer'' then handle_interview_answer e c body
      else fail_with 404 (S ''not found''))"

definition do_POST :: "env \<Rightarrow> curriculum \<Rightarrow> registry \<Rightarrow> bool \<Rightarrow> bool \<Rightarrow> pystr \<Rightarrow> headers \<Rightarrow> bytes \<Rightarrow> reply op" where
  "do_POST e c reg closing1 closing2 target hs sent =
     op_bind (op_lift (url_path (e_bad_netloc e) target)) (\<lambda>path.
     op_bind (op_lift (same_origin (e_bad_netloc e) (e_cap e) (e_port e) hs)) (\<lambda>refused.
       case refused of
         Some r \<Rightarrow> fail_with 403 (refusal_text e r)
       | None \<Rightarrow>
           (case read_body (e_decode e) (e_cap e) (e_depth e) hs sent of
              None \<Rightarrow> fail_with 400 (S ''invalid JSON body'')
            | Some body \<Rightarrow> dispatch e c reg closing1 closing2 path body)))"

end
