(* ===== verification/Progress_Ledger.thy ===== *)
theory Progress_Ledger
  imports Progress_Properties
begin

text \<open>
  The progress store as the ledger it promises to be.  A ledger is what a learner has shown, lesson by
  lesson, free of the file's format: a map from lessons to entries.  Its step is the contract of the
  interface in a line per command, and certification is defined on it alone.  The store refines it:
  each command of \<open>learning/server/progress.py\<close> commutes with the map from states to ledgers.  So the
  ledger after any sequence of commands is a function of that sequence, and a certified lesson can
  be read back as the history that earned it.
\<close>

section \<open>The abstract ledger\<close>

definition entry_at :: "(pystr \<Rightarrow> entry option) \<Rightarrow> pystr \<Rightarrow> entry" where
  "entry_at L lid = (case L lid of None \<Rightarrow> no_entry | Some x \<Rightarrow> x)"

definition entry_suffices :: "lesson \<Rightarrow> entry \<Rightarrow> bool" where
  "entry_suffices l x \<longleftrightarrow>
     block_id ` set (mandatory_validators l) \<subseteq> en_passed x \<and> set (required_quiz_ids l) \<subseteq> en_quiz x \<and>
     set (required_explain_ids l) \<subseteq> en_explained x"

definition earned :: "lesson \<Rightarrow> (pystr \<Rightarrow> entry option) \<Rightarrow> bool" where
  "earned l L \<longleftrightarrow> l_status l \<noteq> s_unavailable \<and> L (l_id l) \<noteq> None \<and> entry_suffices l (entry_at L (l_id l))"

inductive granted :: "curriculum \<Rightarrow> (pystr \<Rightarrow> entry option) \<Rightarrow> pystr \<Rightarrow> bool" for c L where
  grant: "dget (c_lessons c) lid = Some l \<Longrightarrow> en_marked (entry_at L lid) \<Longrightarrow> earned l L \<Longrightarrow>
    (\<And>p. p \<in> set (l_prereqs l) \<Longrightarrow> granted c L p) \<Longrightarrow> granted c L lid"

inductive_cases grantedE: "granted c L lid"

fun ledger_step :: "curriculum \<Rightarrow> command \<Rightarrow> (pystr \<Rightarrow> entry option) \<Rightarrow> pystr \<Rightarrow> entry option" where
  "ledger_step c (Mark_started now lid) L = L(lid \<mapsto> entry_at L lid)"
| "ledger_step c (Record_step lid b) L = L(lid \<mapsto> entry_at L lid)"
| "ledger_step c (Record_hint lid i) L = L(lid \<mapsto> entry_at L lid)"
| "ledger_step c (Record_quiz now lid b correct cs) L =
     L(lid \<mapsto> (if correct then answer_entry f_quiz_correct b (entry_at L lid) else entry_at L lid))"
| "ledger_step c (Record_explain now lid b passed cs) L =
     L(lid \<mapsto> (if passed then answer_entry f_explain_done b (entry_at L lid) else entry_at L lid))"
| "ledger_step c (Record_validation now lid b passed mandatory cs historical) L =
     L(lid \<mapsto> (if historical \<and> b \<in> en_passed (entry_at L lid) then entry_at L lid
       else check_entry b passed mandatory (entry_at L lid)))"
| "ledger_step c (Record_interview now q correct cs) L = L"
| "ledger_step c (Mark_complete now l cur) L =
     (if earned l L \<and> (\<forall>p \<in> set (l_prereqs l). granted c L p)
      then L(l_id l \<mapsto> (entry_at L (l_id l))\<lparr>en_marked := True\<rparr>) else L)"

text \<open>Completion is asked for lessons of the curriculum, with the curriculum at hand, as the server does.\<close>

fun in_program :: "curriculum \<Rightarrow> command \<Rightarrow> bool" where
  "in_program c (Mark_complete now l cur) \<longleftrightarrow> cur = Some c \<and> dget (c_lessons c) (l_id l) = Some l"
| "in_program c _ \<longleftrightarrow> True"

section \<open>The store refines the ledger\<close>

lemma known_entry_at: "known_entry (p_lessons st) lid = entry_at (ledger st) lid"
  by (simp add: ledger_entry entry_at_def)

lemma suffices_entry: "record_suffices l r \<longleftrightarrow> entry_suffices l (entry_of r)"
  by (auto simp: record_suffices_def entry_suffices_def list_all_iff)

lemma gates_earned: "gates_hold st l \<longleftrightarrow> earned l (ledger st)"
  by (auto simp: gates_iff earned_def ledger_def entry_at_def suffices_entry)

lemma marked_entry: "marked_complete st lid \<longleftrightarrow> en_marked (entry_at (ledger st) lid)"
  by (auto simp: marked_iff ledger_def entry_at_def no_entry_def split: option.splits)

lemma certified_granted: "certified st c lid \<longleftrightarrow> granted c (ledger st) lid"
proof
  show "certified st c lid \<Longrightarrow> granted c (ledger st) lid"
    by (induction rule: certified.induct) (auto intro: granted.grant simp: gates_earned marked_entry)
  show "granted c (ledger st) lid \<Longrightarrow> certified st c lid"
    by (induction rule: granted.induct) (auto intro: certified.certify simp: gates_earned marked_entry)
qed

lemma next_ledger_step:
  assumes ok: "curriculum_ok known tc c" and full: "full_state st" and cmd: "in_program c cmd"
  shows "next_ledger st cmd = ledger_step c cmd (ledger st)"
proof (cases cmd)
  case (Mark_complete now l cur)
  then have cur: "cur = Some c" and l: "dget (c_lessons c) (l_id l) = Some l" using cmd by auto
  from completion_certified [OF ok full l]
  have "(\<exists>ms. completion st cur l [] = Inr (True, ms)) \<longleftrightarrow>
      earned l (ledger st) \<and> (\<forall>p \<in> set (l_prereqs l). granted c (ledger st) p)"
    unfolding cur gates_earned certified_granted by auto
  then show ?thesis using Mark_complete by (simp add: known_entry_at)
qed (simp_all add: known_entry_at Let_def)

lemma step_ledger:
  assumes "curriculum_ok known tc c" and "healthy s" and "in_program c cmd"
  shows "ledger (mem (snd (perform cmd s))) = ledger_step c cmd (ledger (mem s))"
  using perform_ledger [of s cmd] next_ledger_step [OF assms(1) _ assms(3), of "mem s"] assms(2)
  by (simp add: healthy_def typed_store_full)

lemma run_ledger:
  "curriculum_ok known tc c \<Longrightarrow> healthy s \<Longrightarrow> \<forall>cmd \<in> set cmds. in_program c cmd \<Longrightarrow>
     ledger (mem (run cmds s)) = fold (ledger_step c) cmds (ledger (mem s))"
proof (induction cmds arbitrary: s)
  case (Cons cmd cmds)
  then show ?case using perform_healthy by (simp add: step_ledger)
qed simp

lemma ledger_new: "ledger (mem new_store) = Map.empty"
  by (simp add: ledger_def new_store_def empty_state_def fun_eq_iff)

section \<open>Reading the ledger off the history\<close>

fun passes_check :: "pystr \<Rightarrow> pystr \<Rightarrow> command \<Rightarrow> bool" where
  "passes_check lid b (Record_validation now lid' b' passed mandatory cs historical) \<longleftrightarrow> lid' = lid \<and> b' = b \<and> passed"
| "passes_check lid b _ \<longleftrightarrow> False"

text \<open>A failure that counts: of a check that is not of the red stage.\<close>

fun fails_check :: "pystr \<Rightarrow> pystr \<Rightarrow> command \<Rightarrow> bool" where
  "fails_check lid b (Record_validation now lid' b' passed mandatory cs historical) \<longleftrightarrow>
     lid' = lid \<and> b' = b \<and> \<not> passed \<and> \<not> historical"
| "fails_check lid b _ \<longleftrightarrow> False"

fun answers_quiz :: "pystr \<Rightarrow> pystr \<Rightarrow> command \<Rightarrow> bool" where
  "answers_quiz lid b (Record_quiz now lid' b' correct cs) \<longleftrightarrow> lid' = lid \<and> b' = b \<and> correct"
| "answers_quiz lid b _ \<longleftrightarrow> False"

fun explains :: "pystr \<Rightarrow> pystr \<Rightarrow> command \<Rightarrow> bool" where
  "explains lid b (Record_explain now lid' b' passed cs) \<longleftrightarrow> lid' = lid \<and> b' = b \<and> passed"
| "explains lid b _ \<longleftrightarrow> False"

fun completes :: "pystr \<Rightarrow> command \<Rightarrow> bool" where
  "completes lid (Mark_complete now l cur) \<longleftrightarrow> l_id l = lid"
| "completes lid _ \<longleftrightarrow> False"

text \<open>A failure that takes the mark away: of a mandatory check.\<close>

fun revokes :: "pystr \<Rightarrow> command \<Rightarrow> bool" where
  "revokes lid (Record_validation now lid' b passed mandatory cs historical) \<longleftrightarrow>
     lid' = lid \<and> \<not> passed \<and> mandatory \<and> \<not> historical"
| "revokes lid _ \<longleftrightarrow> False"

text \<open>The last command that decides the matter is a good one.\<close>

definition last_good :: "('a \<Rightarrow> bool) \<Rightarrow> ('a \<Rightarrow> bool) \<Rightarrow> 'a list \<Rightarrow> bool" where
  "last_good good bad xs \<longleftrightarrow> (\<exists>pre x post. xs = pre @ x # post \<and> good x \<and> \<not> list_ex bad post)"

lemma last_good_Nil [simp]: "\<not> last_good good bad []"
  by (simp add: last_good_def)

lemma last_good_snoc:
  "last_good good bad (xs @ [x]) \<longleftrightarrow> good x \<or> last_good good bad xs \<and> \<not> bad x"
proof
  assume "last_good good bad (xs @ [x])"
  then obtain pre y post where split: "xs @ [x] = pre @ y # post" and y: "good y" "\<not> list_ex bad post"
    by (auto simp: last_good_def)
  show "good x \<or> last_good good bad xs \<and> \<not> bad x"
  proof (cases post rule: rev_cases)
    case Nil
    then show ?thesis using split y by simp
  next
    case (snoc ys z)
    then have "xs = pre @ y # ys" "z = x" using split by (simp_all flip: append_Cons append_assoc)
    then show ?thesis using y snoc by (auto simp: last_good_def)
  qed
next
  assume "good x \<or> last_good good bad xs \<and> \<not> bad x"
  then show "last_good good bad (xs @ [x])"
  proof (elim disjE conjE)
    assume "good x"
    then show ?thesis unfolding last_good_def by (intro exI [of _ xs] exI [of _ x] exI [of _ "[]"]) simp
  next
    assume "last_good good bad xs" and bad: "\<not> bad x"
    then obtain pre y post where "xs = pre @ y # post" "good y" "\<not> list_ex bad post"
      by (auto simp: last_good_def)
    with bad show ?thesis
      unfolding last_good_def by (intro exI [of _ pre] exI [of _ y] exI [of _ "post @ [x]"]) simp
  qed
qed

text \<open>The entry of one lesson follows the commands on that lesson.\<close>

abbreviation history :: "curriculum \<Rightarrow> command list \<Rightarrow> pystr \<Rightarrow> entry" where
  "history c cmds lid \<equiv> entry_at (fold (ledger_step c) cmds Map.empty) lid"

lemma entry_at_upd [simp]: "entry_at (L(k \<mapsto> x)) lid = (if lid = k then x else entry_at L lid)"
  by (simp add: entry_at_def)

lemma entry_sel_updates [simp]:
  "en_passed (answer_entry k b x) = en_passed x"
  "en_quiz (answer_entry k b x) = (if k = f_quiz_correct then insert b (en_quiz x) else en_quiz x)"
  "en_explained (answer_entry k b x) =
     (if k \<noteq> f_quiz_correct \<and> k = f_explain_done then insert b (en_explained x) else en_explained x)"
  "en_marked (answer_entry k b x) = en_marked x"
  "en_passed (check_entry b p m x) = (if p then insert b (en_passed x) else en_passed x - {b})"
  "en_quiz (check_entry b p m x) = en_quiz x" "en_explained (check_entry b p m x) = en_explained x"
  "en_marked (check_entry b p m x) \<longleftrightarrow> en_marked x \<and> (p \<or> \<not> m)"
  by (simp_all add: answer_entry_def check_entry_def outcome_entry_def Let_def)

lemma entry_step:
  "b \<in> en_passed (entry_at (ledger_step c cmd L) lid) \<longleftrightarrow>
     passes_check lid b cmd \<or> b \<in> en_passed (entry_at L lid) \<and> \<not> fails_check lid b cmd"
  "b \<in> en_quiz (entry_at (ledger_step c cmd L) lid) \<longleftrightarrow> b \<in> en_quiz (entry_at L lid) \<or> answers_quiz lid b cmd"
  "b \<in> en_explained (entry_at (ledger_step c cmd L) lid) \<longleftrightarrow> b \<in> en_explained (entry_at L lid) \<or> explains lid b cmd"
  "en_marked (entry_at (ledger_step c cmd L) lid) \<Longrightarrow>
     completes lid cmd \<or> en_marked (entry_at L lid) \<and> \<not> revokes lid cmd"
  by (cases cmd; auto split: if_splits)+

lemma entry_at_empty [simp]: "entry_at Map.empty lid = no_entry"
  by (simp add: entry_at_def)

lemma history_empty: "history c [] lid = no_entry"
  by simp

lemma history_snoc: "history c (cmds @ [cmd]) lid = entry_at (ledger_step c cmd (fold (ledger_step c) cmds Map.empty)) lid"
  by simp

lemma history_exact:
  "b \<in> en_passed (history c cmds lid) \<longleftrightarrow> last_good (passes_check lid b) (fails_check lid b) cmds"
  "b \<in> en_quiz (history c cmds lid) \<longleftrightarrow> list_ex (answers_quiz lid b) cmds"
  "b \<in> en_explained (history c cmds lid) \<longleftrightarrow> list_ex (explains lid b) cmds"
  "en_marked (history c cmds lid) \<Longrightarrow> last_good (completes lid) (revokes lid) cmds"
proof (induction cmds rule: rev_induct)
  case Nil
  show "b \<in> en_passed (history c [] lid) \<longleftrightarrow> last_good (passes_check lid b) (fails_check lid b) []"
    "b \<in> en_quiz (history c [] lid) \<longleftrightarrow> list_ex (answers_quiz lid b) []"
    "b \<in> en_explained (history c [] lid) \<longleftrightarrow> list_ex (explains lid b) []"
    "en_marked (history c [] lid) \<Longrightarrow> last_good (completes lid) (revokes lid) []"
    unfolding history_empty by (simp_all add: no_entry_def)
next
  case (snoc cmd cmds)
  have one: "list_ex P [cmd] \<longleftrightarrow> P cmd" for P by simp
  note step = entry_step [where c = c and cmd = cmd and L = "fold (ledger_step c) cmds Map.empty" and lid = lid, folded history_snoc]
  show "b \<in> en_passed (history c (cmds @ [cmd]) lid) \<longleftrightarrow> last_good (passes_check lid b) (fails_check lid b) (cmds @ [cmd])"
    "b \<in> en_quiz (history c (cmds @ [cmd]) lid) \<longleftrightarrow> list_ex (answers_quiz lid b) (cmds @ [cmd])"
    "b \<in> en_explained (history c (cmds @ [cmd]) lid) \<longleftrightarrow> list_ex (explains lid b) (cmds @ [cmd])"
    "en_marked (history c (cmds @ [cmd]) lid) \<Longrightarrow> last_good (completes lid) (revokes lid) (cmds @ [cmd])"
    using snoc step one by (simp_all only: last_good_snoc list_ex_append) blast
qed

section \<open>Properties\<close>

lemma certified_run:
  assumes "load_curriculum cap depth pr files stems known tc = Inr c"
    and "reachable fresh_store progress_step s" and "\<forall>cmd \<in> set cmds. in_program c cmd"
  shows "certified (mem (run cmds s)) c lid \<longleftrightarrow> granted c (fold (ledger_step c) cmds (ledger (mem s))) lid"
  using run_ledger [OF load_curriculum_ok [OF assms(1)] reachable_full(2) [OF assms(2)] assms(3)]
  by (simp add: certified_granted)

text \<open>
  C6: The store refines the ledger: the ledger of the state after any commands is the fold of the
  abstract steps over them, and a lesson is certified in the state exactly when the ledger grants it.
\<close>

theorem store_refines_ledger:
  assumes "load_curriculum cap depth pr files stems known tc = Inr c"
    and "reachable fresh_store progress_step s" and "\<forall>cmd \<in> set cmds. in_program c cmd"
  shows "ledger (mem (run cmds s)) = fold (ledger_step c) cmds (ledger (mem s)) \<and>
    (certified (mem (run cmds s)) c lid \<longleftrightarrow> granted c (fold (ledger_step c) cmds (ledger (mem s))) lid)"
  using run_ledger [OF load_curriculum_ok [OF assms(1)] reachable_full(2) [OF assms(2)] assms(3)]
    certified_run [OF assms]
  by simp

theorem store_refines_ledger_witness:
  "ledger (mem (run [Record_quiz (S ''t'') (S ''a'') (S ''q1'') True [], Record_validation (S ''t'') (S ''a'') (S ''v1'') False True [] False] new_store)) =
     Map.empty(S ''a'' \<mapsto> no_entry\<lparr>en_quiz := {S ''q1''}\<rparr>)"
  using store_refines_ledger [OF tiny_loads new_store_reachable,
      of "[Record_quiz (S ''t'') (S ''a'') (S ''q1'') True [], Record_validation (S ''t'') (S ''a'') (S ''v1'') False True [] False]"]
  by (simp add: ledger_new no_entry_def answer_entry_def check_entry_def outcome_entry_def Let_def)

text \<open>
  C7: A certified lesson was earned: the commands on the store mark it complete with no mandatory check
  failing since; each of its mandatory checks has a passing run after which no run failed (one of the
  red stage, once passed, may fail); and each required quiz and explanation has been answered.
\<close>

theorem certificate_has_history:
  assumes "load_curriculum cap depth pr files stems known tc = Inr c"
    and "\<forall>cmd \<in> set cmds. in_program c cmd" and "certified (mem (run cmds new_store)) c lid"
  shows "\<exists>l. dget (c_lessons c) lid = Some l \<and> l_status l \<noteq> s_unavailable \<and>
    last_good (completes lid) (revokes lid) cmds \<and>
    (\<forall>b \<in> set (mandatory_validators l). last_good (passes_check lid (block_id b)) (fails_check lid (block_id b)) cmds) \<and>
    (\<forall>q \<in> set (required_quiz_ids l). list_ex (answers_quiz lid q) cmds) \<and>
    (\<forall>q \<in> set (required_explain_ids l). list_ex (explains lid q) cmds)"
proof -
  have "granted c (fold (ledger_step c) cmds Map.empty) lid"
    using certified_run [OF assms(1) new_store_reachable assms(2)] assms(3) by (simp add: ledger_new)
  then obtain l where l: "dget (c_lessons c) lid = Some l" and "en_marked (history c cmds lid)"
    "earned l (fold (ledger_step c) cmds Map.empty)" by (auto elim: grantedE)
  then show ?thesis
    using curriculum_ids [OF load_curriculum_ok [OF assms(1)] l] history_exact(4)
    by (auto simp: earned_def entry_suffices_def image_subset_iff subset_iff history_exact(1-3))
qed

theorem certificate_has_history_witness:
  "last_good (passes_check (S ''a'') (S ''v1'')) (fails_check (S ''a'') (S ''v1'')) (lesson_commands (S ''t'') tiny_curriculum lesson_a)"
proof -
  have "\<forall>cmd \<in> set (lesson_commands (S ''t'') tiny_curriculum lesson_a). in_program tiny_curriculum cmd"
    by (auto simp: lesson_commands_def evidence_commands_def tiny_get tiny_lesson_simps)
  note earned = certificate_has_history [OF tiny_loads this day_one_certified [unfolded day_one_def]]
  have "\<forall>b \<in> set (mandatory_validators lesson_a).
      last_good (passes_check (S ''a'') (block_id b)) (fails_check (S ''a'') (block_id b))
        (lesson_commands (S ''t'') tiny_curriculum lesson_a)" using earned by (simp add: tiny_get)
  moreover have "block_verify \<in> set (mandatory_validators lesson_a)" and "block_id block_verify = S ''v1''"
    by code_simp+
  ultimately show ?thesis by metis
qed

end
