(* ===== verification/App_Properties.thy ===== *)
theory App_Properties
  imports App_Handlers Progress_Ledger
begin

text \<open>
  What the learning server guarantees about its requests (\<open>learning/server/app.py\<close>): only an admitted
  request writes, and every handler answers.
\<close>

section \<open>Reading changes nothing\<close>

definition reads :: "'a op \<Rightarrow> bool" where
  "reads m \<longleftrightarrow> (\<forall>s. snd (m s) = s)"

lemma reads_bind: "reads m \<Longrightarrow> (\<And>a. reads (f a)) \<Longrightarrow> reads (op_bind m f)"
  by (auto simp: reads_def op_bind_def split: prod.split sum.split) (metis snd_conv)+

lemma reads_simps [simp]:
  "reads (op_return a)" "reads (op_lift r)" "reads (op_query f)" "reads (answer code j)" "reads (fail_with code msg)"
  by (simp_all add: reads_def op_return_def op_lift_def op_query_def answer_def fail_with_def)

lemma reads_if: "reads m \<Longrightarrow> reads k \<Longrightarrow> reads (if b then m else k)"
  by simp

lemma reads_lesson_public: "reads (lesson_public e c l)"
  unfolding lesson_public_def by (intro reads_bind reads_simps) (auto intro!: reads_bind)

lemma reads_GET: "reads (do_GET e c fs target)"
proof -
  have "reads (handle_state e c)" unfolding handle_state_def by (intro reads_bind reads_simps)
  moreover have "reads (handle_curriculum e c)" unfolding handle_curriculum_def by (intro reads_bind reads_simps)
  moreover have "reads (handle_lesson e c x)" for x
    by (auto simp: handle_lesson_def intro!: reads_bind reads_lesson_public split: option.split)
  moreover have "reads (handle_mastery e c)" unfolding handle_mastery_def by (intro reads_bind reads_simps)
  moreover have "reads (handle_flow e c x)" for x by (auto simp: handle_flow_def split: option.split)
  moreover have "reads (handle_interview_next e c)"
    unfolding handle_interview_next_def by (intro reads_bind) (auto split: option.split)
  ultimately show ?thesis unfolding do_GET_def by (intro reads_bind reads_if reads_simps) simp_all
qed

section \<open>Handlers that answer\<close>

lemma returns_return: "(\<And>s. P s \<Longrightarrow> Q a s) \<Longrightarrow> returns P (op_return a) Q"
  by (simp add: returns_def op_return_def)

lemma returns_answer [simp]: "returns P (answer code j) (\<lambda>_. P)" "returns P (fail_with code msg) (\<lambda>_. P)"
  by (simp_all add: answer_def fail_with_def returns_return)

lemma returns_query: "(\<And>s. P s \<Longrightarrow> \<exists>a. f (mem s) = Inr a \<and> Q a) \<Longrightarrow> returns P (op_query f) (\<lambda>a s. P s \<and> Q a)"
  by (fastforce simp: returns_def op_query_def)

lemma returns_query_any: "(\<And>s. P s \<Longrightarrow> \<exists>a. f (mem s) = Inr a) \<Longrightarrow> returns P (op_query f) (\<lambda>_. P)"
  by (fastforce simp: returns_def op_query_def)

lemma returns_lift_any: "\<exists>a. r = Inr a \<Longrightarrow> returns P (op_lift r) (\<lambda>_. P)"
  by (auto simp: returns_def op_lift_def)

lemma op_bind_lift [simp]: "op_bind (op_lift (Inr v)) f = f v"
  by (rule ext) (simp add: op_bind_def op_lift_def)

lemma returns_if: "returns P m Q \<Longrightarrow> returns P k Q \<Longrightarrow> returns P (if b then m else k) Q"
  by simp

text \<open>Sequences of steps that keep the store healthy.\<close>

lemma healthy_then:
  "returns healthy m (\<lambda>_. healthy) \<Longrightarrow> returns healthy k (\<lambda>_. healthy) \<Longrightarrow> returns healthy (op_then m k) (\<lambda>_. healthy)"
  by (rule returns_then)

lemma healthy_bind:
  "returns healthy m (\<lambda>_. healthy) \<Longrightarrow> (\<And>a. returns healthy (f a) (\<lambda>_. healthy)) \<Longrightarrow>
     returns healthy (op_bind m f) (\<lambda>_. healthy)"
  by (rule returns_bind)

lemma returns_command: "perform cmd = m \<Longrightarrow> returns healthy m (\<lambda>_. healthy)"
  using returns_perform by blast

lemmas returns_commands =
  returns_command [OF perform.simps(1)] returns_command [OF perform.simps(2)]
  returns_command [OF perform.simps(3)] returns_command [OF perform.simps(4)]
  returns_command [OF perform.simps(5)] returns_command [OF perform.simps(7)]

lemma healthy_full: "healthy s \<Longrightarrow> full_state (mem s)"
  by (simp add: healthy_def typed_store_full)

text \<open>What an accepted lesson gives the handlers.\<close>

lemma curriculum_lessons_ok:
  "curriculum_ok known tc c \<Longrightarrow> dget (c_lessons c) lid = Some l \<Longrightarrow> lesson_ok known tc l \<and> l_id l = lid"
  by (auto simp: curriculum_ok_def dest: map_of_SomeD)

lemma lesson_blocks_ok: "lesson_ok known tc l \<Longrightarrow> b \<in> set (l_blocks l) \<Longrightarrow> block_ok known b"
  by (simp add: lesson_ok_def)

lemma find_in: "List.find P xs = Some x \<Longrightarrow> x \<in> set xs \<and> P x"
  by (auto simp: find_Some_iff)

lemma type_names [simp]:
  "t_quiz \<noteq> t_verify" "t_quiz \<noteq> t_explain" "t_predict \<noteq> t_verify" "t_predict \<noteq> t_explain" "t_verify \<noteq> t_quiz"
  "t_explain \<noteq> t_quiz" "t_explain \<noteq> t_predict" "t_explain \<noteq> t_verify" "t_quiz \<noteq> t_predict" "t_predict \<noteq> t_quiz"
  "t_quiz \<noteq> t_learn" "t_quiz \<noteq> t_do" "t_predict \<noteq> t_learn" "t_predict \<noteq> t_do" "t_explain \<noteq> t_learn" "t_explain \<noteq> t_do"
  by (simp_all add: t_quiz_def t_verify_def t_explain_def t_predict_def t_learn_def t_do_def)

lemma quiz_block_keys:
  assumes "lesson_ok known tc l" and "quiz_block l bid = Some b"
  shows "dget b k_answer_index \<noteq> None"
proof -
  have b: "b \<in> set (l_blocks l)" "block_type b = JStr t_quiz \<or> block_type b = JStr t_predict"
    using find_in [OF assms(2) [unfolded quiz_block_def]] by auto
  have "block_ok known b" by (rule lesson_blocks_ok [OF assms(1) b(1)])
  then show ?thesis using b(2) by (auto simp: block_ok_def block_required_keys_def)
qed

lemma explain_block_keys:
  assumes "lesson_ok known tc l" and "explain_block l bid = Some b"
  shows "\<exists>xs ks. dget b k_keywords = Some (JList xs) \<and> strings_of xs = Some ks" and "dget b k_sample_answer \<noteq> None"
proof -
  have b: "b \<in> set (l_blocks l)" "block_type b = JStr t_explain"
    using find_in [OF assms(2) [unfolded explain_block_def]] by auto
  have ok: "block_ok known b" by (rule lesson_blocks_ok [OF assms(1) b(1)])
  then show "dget b k_sample_answer \<noteq> None" using b(2) by (auto simp: block_ok_def block_required_keys_def)
  have "dget b k_keywords \<noteq> None" using ok b(2) by (auto simp: block_ok_def block_required_keys_def)
  then show "\<exists>xs ks. dget b k_keywords = Some (JList xs) \<and> strings_of xs = Some ks"
    using ok b(2) by (auto simp: block_ok_def get_or_def)
qed

lemma hint_fields:
  assumes "lesson_ok known tc l" and "h \<in> set (l_hints l)"
  shows "\<exists>v. read_field h (S ''level'') = Inr v" and "\<exists>v. read_field h (S ''text'') = Inr v"
proof -
  obtain i where "i < length (l_hints l)" "h = l_hints l ! i" using assms(2) by (auto simp: in_set_conv_nth)
  then have "hint_ok i h" using assms(1) by (simp add: lesson_ok_def)
  then show "\<exists>v. read_field h (S ''level'') = Inr v" and "\<exists>v. read_field h (S ''text'') = Inr v"
    by (auto simp: hint_ok_def get_or_def read_field_def split: option.splits)
qed

lemma read_field_some: "dget d k \<noteq> None \<Longrightarrow> \<exists>v. read_field d k = Inr v"
  by (auto simp: read_field_def)

section \<open>Mutating handlers answer\<close>

lemma returns_with_lesson:
  assumes "curriculum_ok known tc c"
    and "\<And>l lid. dget (c_lessons c) lid = Some l \<Longrightarrow> lesson_ok known tc l \<Longrightarrow> returns healthy (f l) (\<lambda>_. healthy)"
  shows "returns healthy (with_lesson e c body f) (\<lambda>_. healthy)"
proof (cases "lesson_or_404 e c (get_or JNull body k_lesson_id)")
  case (Inl r)
  then show ?thesis by (simp add: with_lesson_def returns_return)
next
  case (Inr l)
  then obtain lid where "dget (c_lessons c) lid = Some l"
    by (auto simp: lesson_or_404_def split: json.splits option.splits)
  then show ?thesis using Inr assms(2) curriculum_lessons_ok [OF assms(1)] by (simp add: with_lesson_def)
qed

lemma returns_step_quiz: "lesson_ok known tc l \<Longrightarrow> returns healthy (step_quiz e l kind bid body) (\<lambda>_. healthy)"
proof (cases "quiz_block l bid")
  case (Some b)
  assume "lesson_ok known tc l"
  then obtain v where v: "read_field b k_answer_index = Inr v" using quiz_block_keys [OF _ Some] read_field_some by blast
  have "returns healthy (op_then (if kind = t_quiz then record_quiz (e_now e) (l_id l) bid x (l_concepts l)
      else record_step (l_id l) bid) (answer 200 j)) (\<lambda>_. healthy)" for x j
    by (intro healthy_then returns_if returns_commands returns_answer)
  then show ?thesis using Some v by (simp add: step_quiz_def Let_def)
qed (simp add: step_quiz_def)

lemma returns_step_explain: "lesson_ok known tc l \<Longrightarrow> returns healthy (step_explain e l bid body) (\<lambda>_. healthy)"
proof (cases "explain_block l bid")
  case (Some b)
  assume l: "lesson_ok known tc l"
  then obtain xs ks where k: "dget b k_keywords = Some (JList xs)" "strings_of xs = Some ks"
    using explain_block_keys [OF _ Some] by blast
  have sample: "\<exists>v. read_field b k_sample_answer = Inr v"
    using explain_block_keys [OF l Some] read_field_some by blast
  have "returns healthy (op_then (record_explain (e_now e) (l_id l) bid x (l_concepts l))
                 (op_bind (op_lift (read_field b k_sample_answer)) (\<lambda>sample. answer 200 (j sample)))) (\<lambda>_. healthy)" for x j
    by (intro healthy_then returns_commands healthy_bind returns_lift_any [OF sample] returns_answer)
  then show ?thesis
    using Some k by (cases "get_or JNull body k_answer_text")
      (simp_all add: step_explain_def Let_def read_field_def)
qed (simp add: step_explain_def)

lemma returns_step: "curriculum_ok known tc c \<Longrightarrow> returns healthy (handle_step e c body) (\<lambda>_. healthy)"
  unfolding handle_step_def
proof (rule returns_with_lesson)
  fix l lid assume l: "lesson_ok known tc l"
  have "returns healthy (op_then (record_step (l_id l) bid) (answer 200 j)) (\<lambda>_. healthy)" for bid j
    by (intro healthy_then returns_commands returns_answer)
  then show "returns healthy (case (get_or JNull body k_block_id, get_or JNull body k_kind) of
       (JStr bid, JStr kind) \<Rightarrow>
         if kind = t_learn \<or> kind = t_do
         then op_then (record_step (l_id l) bid) (answer 200 (JObj [(S ''recorded'', JBool True)]))
         else if kind = t_quiz \<or> kind = t_predict then step_quiz e l kind bid body
         else if kind = t_explain then step_explain e l bid body
         else fail_with 400 (S ''unknown step kind '' @ e_repr e kind)
     | _ \<Rightarrow> fail_with 400 (S ''block_id and kind required'')) (\<lambda>_. healthy)"
    using returns_step_quiz [OF l] returns_step_explain [OF l]
    by (cases "get_or JNull body k_block_id"; cases "get_or JNull body k_kind") simp_all
qed

lemma returns_hint: "curriculum_ok known tc c \<Longrightarrow> returns healthy (handle_hint e c body) (\<lambda>_. healthy)"
  unfolding handle_hint_def
proof (rule returns_with_lesson)
  fix l lid assume l: "lesson_ok known tc l"
  show "returns healthy (case as_int (get_or JNull body (S ''index'')) of
       None \<Rightarrow> fail_with 400 (S ''hint index out of range'')
     | Some i \<Rightarrow>
         if i < 0 \<or> int (length (l_hints l)) \<le> i then fail_with 400 (S ''hint index out of range'')
         else op_bind (record_hint (l_id l) i) (\<lambda>revealed.
              op_bind (op_lift (read_field (l_hints l ! nat i) (S ''level''))) (\<lambda>lv.
              op_bind (op_lift (read_field (l_hints l ! nat i) (S ''text''))) (\<lambda>t.
                answer 200 (JObj [(S ''level'', lv), (S ''text'', t),
                  (S ''total'', JInt (int (length (l_hints l)))), (S ''revealed'', JInt revealed)]))))) (\<lambda>_. healthy)"
  proof (cases "as_int (get_or JNull body (S ''index''))")
    case (Some i)
    show ?thesis
    proof (cases "i < 0 \<or> int (length (l_hints l)) \<le> i")
      case False
      then have i: "int (nat i) = i" and h: "l_hints l ! nat i \<in> set (l_hints l)" by auto
      have "returns healthy (record_hint (l_id l) i) (\<lambda>_. healthy)"
        using returns_hint_healthy [of "l_id l" "nat i"] by (simp only: i)
      then show ?thesis unfolding Some option.case if_not_P [OF False]
        by (intro healthy_bind returns_lift_any hint_fields [OF l h] returns_answer)
    qed (simp add: Some)
  qed simp
qed

lemma validation_passed_total: "full_state st \<Longrightarrow> \<exists>b. validation_passed st lid bid = Inr b"
proof (cases "dget (p_lessons st) lid")
  case (Some r)
  assume "full_state st"
  then have "full_record r" using Some by (simp add: full_state_def)
  then obtain d where "dget r f_validations = Some (JObj d)"
    using full_record_field [OF _ template_key_simps(2)] by (auto elim!: validations_okE)
  then show ?thesis using Some by (simp add: validation_passed_def get_or_def as_dict_attr_def)
qed (simp add: validation_passed_def get_or_def as_dict_attr_def)

lemma returns_record_check: "returns healthy (record_check e l b result crashed) (\<lambda>_. healthy)"
  unfolding record_check_def Let_def
  by (intro healthy_bind returns_if healthy_then returns_commands returns_answer
      returns_query_any returns_return validation_passed_total) (simp_all add: healthy_full)

lemma returns_validate: "curriculum_ok known tc c \<Longrightarrow> returns healthy (handle_validate e c reg cl1 cl2 body) (\<lambda>_. healthy)"
  unfolding handle_validate_def
proof (rule returns_with_lesson)
  fix l lid assume l: "lesson_ok known tc l"
  show "returns healthy (if l_status l \<noteq> s_available then fail_with 409 (S ''lesson is unavailable'')
     else case verify_block l (get_or JNull body k_block_id) of
         None \<Rightarrow> fail_with 404 (S ''lesson '' @ e_repr e (l_id l) @ S '' has no verify block '' @
                    e_repr_value e (get_or JNull body k_block_id))
       | Some b \<Rightarrow>
           (case get_or (JObj []) b (S ''args'') of
              JObj args \<Rightarrow>
                if cl1 then fail_with 503 (S ''the learning server is shutting down; this check was not started'')
                else (case (case get_or JNull b k_validator of
                              JStr v \<Rightarrow> run_validator reg v args
                            | _ \<Rightarrow> Crashed (S ''KeyError'') (S ''unknown validator'')) of
                    Finished result \<Rightarrow>
                      if cl2 then fail_with 503 (S ''the learning server is shutting down; this check was stopped and its result discarded'')
                      else record_check e l b result False
                  | Crashed trace what \<Rightarrow>
                      op_bind (op_lift (read_field b k_validator)) (\<lambda>v.
                        record_check e l b (crash_result (py_str (e_str e) v) trace what) True))
            | _ \<Rightarrow> fail_with 500 (S ''bad validator args''))) (\<lambda>_. healthy)"
  proof (cases "verify_block l (get_or JNull body k_block_id)")
    case (Some b)
    have b: "b \<in> set (l_blocks l)" "block_type b = JStr t_verify"
      using find_in [OF Some [unfolded verify_block_def]] by auto
    have "block_ok known b" by (rule lesson_blocks_ok [OF l b(1)])
    then obtain v where "dget b k_validator = Some (JStr v)"
      using b(2) by (auto simp: block_ok_def get_or_def split: option.splits)
    then have v: "read_field b k_validator = Inr (JStr v)" by (simp add: read_field_def)
    have crash: "returns healthy (op_bind (op_lift (read_field b k_validator)) (\<lambda>v.
        record_check e l b (crash_result (py_str (e_str e) v) trace what) True)) (\<lambda>_. healthy)" for trace what
      by (intro healthy_bind returns_lift_any returns_record_check) (simp add: v)
    show ?thesis
      by (cases "get_or (JObj []) b (S ''args'')")
        (auto simp: Some returns_record_check crash split: check_run.split)
  qed simp
qed

lemma returns_complete:
  assumes "curriculum_ok known tc c"
  shows "returns healthy (handle_complete e c body) (\<lambda>_. healthy)"
  unfolding handle_complete_def
proof (rule returns_with_lesson [OF assms])
  fix l lid
  have resume: "\<exists>lid. resume_lesson_id (mem s) c = Inr lid" if "healthy s" for s
    using resume_exact [OF assms healthy_full [OF that]] by blast
  have "returns healthy (op_bind (op_query (\<lambda>st. resume_lesson_id st c)) (\<lambda>resume. answer 200 (k resume)))
      (\<lambda>_. healthy)" for k
    by (intro returns_answer healthy_bind returns_query_any resume)
  then show "returns healthy (op_bind (mark_complete (e_now e) l (Some c)) (\<lambda>(holds, ms).
       if \<not> holds
       then answer 409 (JObj [(S ''complete'', JBool False), (S ''missing'', jstrs (map (missing_text e) ms))])
       else op_bind (op_query (\<lambda>st. resume_lesson_id st c)) (\<lambda>resume.
            answer 200 (JObj [(S ''complete'', JBool True), (S ''next_lesson_id'', JStr resume)])))) (\<lambda>_. healthy)"
    by (intro healthy_bind returns_complete_healthy) (simp add: case_prod_beta)
qed

lemma returns_interview_answer: "returns healthy (handle_interview_answer e c body) (\<lambda>_. healthy)"
proof -
  have "returns healthy (op_then (record_interview (e_now e) q x cs) (answer 200 j)) (\<lambda>_. healthy)" for q x cs j
    by (intro healthy_then returns_commands returns_answer)
  then show ?thesis
    by (cases "get_or JNull body k_answer_text")
      (auto simp: handle_interview_answer_def Let_def split: option.split)
qed

section \<open>The lesson shown after a start\<close>

text \<open>
  The snapshot is copied through the serialiser; the copy is exact when the texts have no lone
  surrogates, the numbers fit the interpreter's digit limit and the recursion room covers the state.
\<close>

definition copyable :: "env \<Rightarrow> progress \<Rightarrow> bool" where
  "copyable e st \<longleftrightarrow> plain (builtin_int (e_cap e)) (state_json st) \<and> containers (state_json st) \<le> e_depth e"

lemma snapshot_exact:
  "copyable e st \<Longrightarrow> wf_json (state_json st) \<Longrightarrow> snapshot (e_cap e) (e_depth e) fr st = Inr (state_json st)"
  by (simp add: snapshot_def copyable_def loads_dump)

lemma snapshot_lessons_exact:
  "snapshot_lessons (state_json st) = Inr (map (\<lambda>(k, r). (k, JObj r)) (p_lessons st))"
  by (simp add: snapshot_lessons_def state_json_fields as_dict_attr_def read_field_def dget_state_fields
      section_json_def del: map_of_append)

lemma snapshot_record_exact:
  "snapshot_record (map (\<lambda>(k, r). (k, JObj r)) rs) lid = Inr (case dget rs lid of None \<Rightarrow> [] | Some r \<Rightarrow> r)"
  by (simp add: snapshot_record_def get_or_def dget_map_snd as_dict_attr_def split: option.split)

lemma res_map_total: "(\<And>x. x \<in> set xs \<Longrightarrow> \<exists>y. f x = Inr y) \<Longrightarrow> \<exists>ys. res_map f xs = Inr ys"
proof (induction xs)
  case (Cons x xs)
  then obtain y ys where "f x = Inr y" "res_map f xs = Inr ys" by (metis list.set_intros(1,2))
  then show ?case by simp
qed simp

lemma revealed_hints_total:
  assumes l: "lesson_ok known tc l" and full: "full_state st"
  shows "\<exists>hs. revealed_hints l (case dget (p_lessons st) lid of None \<Rightarrow> [] | Some r \<Rightarrow> r) = Inr hs"
proof -
  let ?r = "case dget (p_lessons st) lid of None \<Rightarrow> [] | Some r \<Rightarrow> r"
  have "\<exists>n. get_or (JInt 0) ?r f_hints_used = JInt n"
  proof (cases "dget (p_lessons st) lid")
    case (Some r)
    then have "full_record r" using full by (simp add: full_state_def)
    from full_record_field [OF this template_key_simps(10)] show ?thesis
      using Some by (auto simp: get_or_def elim: counter_okE)
  qed (simp add: get_or_def)
  then obtain n where n: "get_or (JInt 0) ?r f_hints_used = JInt n" by blast
  have "\<exists>hs. res_map (\<lambda>h. res_bind (read_field h (S ''level'')) (\<lambda>lv. res_bind (read_field h (S ''text'')) (\<lambda>t.
           Inr (JObj [(S ''level'', lv), (S ''text'', t)])))) (py_take m (l_hints l)) = Inr hs" for m
  proof (rule res_map_total)
    fix h assume "h \<in> set (py_take m (l_hints l))"
    then have "h \<in> set (l_hints l)" by (auto simp: py_take_def dest: in_set_takeD)
    from hint_fields [OF l this] show "\<exists>y. res_bind (read_field h (S ''level'')) (\<lambda>lv.
        res_bind (read_field h (S ''text'')) (\<lambda>t. Inr (JObj [(S ''level'', lv), (S ''text'', t)]))) = Inr y" by auto
  qed
  then show ?thesis by (simp add: revealed_hints_def n Let_def py_int_def)
qed

lemma lesson_public_answers:
  assumes "copyable e (mem s)" and "wf_store s" and "healthy s" and "lesson_ok known tc l"
  shows "\<exists>j. lesson_public e c l s = (Inr j, s)"
proof -
  have full: "full_state (mem s)" by (rule healthy_full [OF assms(3)])
  obtain b ms where comp: "completion (mem s) (Some c) l [] = Inr (b, ms)" using gates_total(2) [OF full] by blast
  obtain hs where hs: "revealed_hints l (case dget (p_lessons (mem s)) (l_id l) of None \<Rightarrow> [] | Some r \<Rightarrow> r) = Inr hs"
    using revealed_hints_total [OF assms(4) full] by blast
  have snap: "snapshot (e_cap e) (e_depth e) (e_float e) (mem s) = Inr (state_json (mem s))"
    by (rule snapshot_exact [OF assms(1)]) (use assms(2) in \<open>simp add: wf_store_def\<close>)
  show ?thesis
    by (simp add: lesson_public_def op_bind_def op_query_def op_lift_def op_return_def snap
        snapshot_lessons_exact snapshot_record_exact comp hs)
qed

section \<open>Every admitted request answers\<close>

text \<open>A reply, unless the answer is a lesson view and the store cannot be copied.\<close>

definition answers :: "env \<Rightarrow> reply op \<Rightarrow> pstore \<Rightarrow> bool" where
  "answers e m s \<longleftrightarrow> (\<exists>r t. m s = (r, t) \<and> healthy t \<and> ((\<exists>rp. r = Inr rp) \<or> \<not> copyable e (mem t)))"

lemma returns_answers: "returns healthy m (\<lambda>_. healthy) \<Longrightarrow> healthy s \<Longrightarrow> answers e m s"
  unfolding returns_def answers_def by blast

lemma start_answers:
  assumes "curriculum_ok known tc c" and "wf_store s" and s: "healthy s"
  shows "answers e (handle_start e c body) s"
proof (cases "lesson_or_404 e c (get_or JNull body k_lesson_id)")
  case (Inr l)
  then obtain lid where "dget (c_lessons c) lid = Some l"
    by (auto simp: lesson_or_404_def split: json.splits option.splits)
  then have l: "lesson_ok known tc l" using curriculum_lessons_ok [OF assms(1)] by blast
  obtain t where t: "mark_started (e_now e) (l_id l) s = (Inr (), t)" "healthy t"
    using returns_perform [of "Mark_started (e_now e) (l_id l)"] s unfolding returns_def by fastforce
  have wf: "wf_store t"
    using keeps_wf_perform [of "Mark_started (e_now e) (l_id l)"] assms(2) t(1) unfolding keeps_wf_def
    by (metis perform.simps(1) snd_conv)
  have "answers e (op_then (mark_started (e_now e) (l_id l)) (op_bind (lesson_public e c l) (answer 200))) s"
  proof (cases "copyable e (mem t)")
    case True
    then obtain j where "lesson_public e c l t = (Inr j, t)" using lesson_public_answers [OF True wf t(2) l] by blast
    then show ?thesis using t by (simp add: answers_def op_then_def op_bind_def answer_def op_return_def)
  next
    case False
    have "reads (op_bind (lesson_public e c l) (answer 200))" by (intro reads_bind reads_lesson_public) simp
    then have "snd (op_bind (lesson_public e c l) (answer 200) t) = t" by (simp add: reads_def)
    then show ?thesis using t False
      by (cases "op_bind (lesson_public e c l) (answer 200) t")
        (simp add: answers_def op_then_def op_bind_def [of "mark_started _ _"])
  qed
  then show ?thesis using s
    by (simp add: handle_start_def with_lesson_def Inr answers_def fail_with_def op_return_def)
qed (use s in \<open>simp add: handle_start_def with_lesson_def answers_def op_return_def\<close>)

lemma dispatch_answers:
  assumes "curriculum_ok known tc c" and "wf_store s" and s: "healthy s"
  shows "answers e (dispatch e c reg cl1 cl2 path body) s"
  using start_answers [OF assms]
    returns_step [OF assms(1), THEN returns_answers, OF s] returns_hint [OF assms(1), THEN returns_answers, OF s]
    returns_validate [OF assms(1), THEN returns_answers, OF s] returns_complete [OF assms(1), THEN returns_answers, OF s]
    returns_interview_answer [THEN returns_answers, OF s] returns_answer(2) [THEN returns_answers, OF s]
  by (simp add: dispatch_def)

lemma POST_answers:
  assumes "curriculum_ok known tc c" and "wf_store s" and s: "healthy s"
    and "url_path (e_bad_netloc e) target = Inr path"
    and "same_origin (e_bad_netloc e) (e_cap e) (e_port e) hs = Inr refused"
  shows "answers e (do_POST e c reg cl1 cl2 target hs sent) s"
  using dispatch_answers [OF assms(1-3)] returns_answer(2) [THEN returns_answers, OF s]
  by (simp add: do_POST_def assms(4,5) split: option.split)

section \<open>A request is at most one command of the store\<close>

text \<open>The operation leaves the store alone or does what one command of kind \<open>P\<close> does.\<close>

definition performs :: "(command \<Rightarrow> bool) \<Rightarrow> 'a op \<Rightarrow> bool" where
  "performs P m \<longleftrightarrow> (\<forall>s. snd (m s) = s \<or> (\<exists>cmd. P cmd \<and> snd (m s) = snd (perform cmd s)))"

abbreviation one_step :: "'a op \<Rightarrow> bool" where
  "one_step \<equiv> performs (\<lambda>_. True)"

lemma performs_mono: "performs P m \<Longrightarrow> (\<And>cmd. P cmd \<Longrightarrow> Q cmd) \<Longrightarrow> performs Q m"
  unfolding performs_def by blast

lemma performs_reads: "reads m \<Longrightarrow> performs P m"
  by (simp add: reads_def performs_def)

lemma performs_simps [simp]: "performs P (answer code j)" "performs P (fail_with code msg)" "performs P (op_return a)"
  by (simp_all add: performs_reads)

lemma performs_command: "P cmd \<Longrightarrow> (\<And>s. snd (m s) = snd (perform cmd s)) \<Longrightarrow> performs P m"
  unfolding performs_def by blast

lemma performs_bind: "performs P m \<Longrightarrow> (\<And>a. reads (f a)) \<Longrightarrow> performs P (op_bind m f)"
  by (auto simp: performs_def reads_def op_bind_def split: prod.split sum.split) (metis snd_conv)+

lemma performs_then: "performs P m \<Longrightarrow> reads k \<Longrightarrow> performs P (op_then m k)"
  unfolding op_then_def by (rule performs_bind)

lemma performs_after: "reads m \<Longrightarrow> (\<And>a. performs P (f a)) \<Longrightarrow> performs P (op_bind m f)"
  by (auto simp: performs_def reads_def op_bind_def split: prod.split sum.split) (metis snd_conv)+

text \<open>Everything but a check, with completion asked for lessons of the curriculum.\<close>

fun ordinary :: "curriculum \<Rightarrow> command \<Rightarrow> bool" where
  "ordinary c (Record_validation now lid b passed mandatory cs historical) \<longleftrightarrow> False"
| "ordinary c cmd \<longleftrightarrow> in_program c cmd"

lemma performs_ordinary:
  "performs (ordinary c) (mark_started now lid)" "performs (ordinary c) (record_step lid b)"
  "performs (ordinary c) (record_quiz now lid b correct cs)" "performs (ordinary c) (record_explain now lid b passed cs)"
  "performs (ordinary c) (record_interview now q correct cs)"
  "dget (c_lessons c) (l_id l) = Some l \<Longrightarrow> performs (ordinary c) (mark_complete now l (Some c))"
  using performs_command [of "ordinary c" "Mark_started now lid" "mark_started now lid"]
    performs_command [of "ordinary c" "Record_step lid b" "record_step lid b"]
    performs_command [of "ordinary c" "Record_quiz now lid b correct cs" "record_quiz now lid b correct cs"]
    performs_command [of "ordinary c" "Record_explain now lid b passed cs" "record_explain now lid b passed cs"]
    performs_command [of "ordinary c" "Record_interview now q correct cs" "record_interview now q correct cs"]
    performs_command [of "ordinary c" "Mark_complete now l (Some c)" "mark_complete now l (Some c)"]
  by (simp_all add: snd_ignore)

lemma performs_hint: "0 \<le> i \<Longrightarrow> performs (ordinary c) (record_hint lid i)"
  using performs_command [of "ordinary c" "Record_hint lid (nat i)" "record_hint lid i"] by (simp add: snd_ignore)

lemma one_step_validation: "one_step (record_validation now lid b passed mandatory cs historical)"
  by (rule performs_command [of _ "Record_validation now lid b passed mandatory cs historical"]) simp_all

lemma performs_with_lesson:
  "(\<And>l lid. dget (c_lessons c) lid = Some l \<Longrightarrow> performs P (f l)) \<Longrightarrow> performs P (with_lesson e c body f)"
  by (auto simp: with_lesson_def lesson_or_404_def split: json.split option.split)

lemma performs_if: "(b \<Longrightarrow> performs P m) \<Longrightarrow> (\<not> b \<Longrightarrow> performs P k) \<Longrightarrow> performs P (if b then m else k)"
  by simp

lemma performs_start: "performs (ordinary c) (handle_start e c body)"
  unfolding handle_start_def
  by (intro performs_with_lesson performs_if performs_simps performs_then performs_ordinary reads_bind
      reads_lesson_public reads_simps)

lemma performs_quiz: "performs (ordinary c) (step_quiz e l kind bid body)"
  unfolding step_quiz_def Let_def
  by (auto split: option.split intro!: performs_after performs_then performs_ordinary)

lemma performs_explain: "performs (ordinary c) (step_explain e l bid body)"
  unfolding step_explain_def Let_def
  by (auto split: option.split json.split intro!: performs_after performs_then performs_ordinary reads_bind)

lemma performs_step: "performs (ordinary c) (handle_step e c body)"
  unfolding handle_step_def
  by (rule performs_with_lesson)
    (auto split: json.split intro!: performs_quiz performs_explain performs_then performs_ordinary)

lemma performs_handle_hint: "performs (ordinary c) (handle_hint e c body)"
  unfolding handle_hint_def
  by (rule performs_with_lesson) (auto split: option.split intro!: performs_bind performs_hint reads_bind)

lemma performs_complete:
  assumes "\<And>k l. dget (c_lessons c) k = Some l \<Longrightarrow> l_id l = k"
  shows "performs (ordinary c) (handle_complete e c body)"
  unfolding handle_complete_def
  by (rule performs_with_lesson)
    (auto split: prod.split intro!: performs_bind performs_ordinary reads_bind dest: assms)

lemma performs_interview: "performs (ordinary c) (handle_interview_answer e c body)"
  unfolding handle_interview_answer_def Let_def
  by (auto split: json.split option.split intro!: performs_then performs_ordinary)

lemmas performs_handlers = performs_start performs_step performs_handle_hint performs_interview

lemma one_step_complete: "one_step (handle_complete e c body)"
proof -
  have "one_step (mark_complete now l cur)" for now l cur
    by (rule performs_command [of _ "Mark_complete now l cur"]) (simp_all add: snd_ignore)
  then show ?thesis unfolding handle_complete_def
    by (intro performs_with_lesson) (auto split: prod.split intro!: performs_bind reads_bind)
qed

lemma one_step_record_check: "one_step (record_check e l b result crashed)"
  unfolding record_check_def Let_def
  by (auto intro!: performs_after performs_then one_step_validation)

lemma one_step_validate: "one_step (handle_validate e c reg cl1 cl2 body)"
  unfolding handle_validate_def
  by (rule performs_with_lesson)
    (auto split: option.split json.split check_run.split intro!: performs_after one_step_record_check)

lemma one_step_dispatch: "one_step (dispatch e c reg cl1 cl2 path body)"
  by (simp add: dispatch_def performs_handlers [THEN performs_mono] one_step_complete one_step_validate)

section \<open>What a check records\<close>

text \<open>
  The verdict \<open>/api/validate\<close> is about to record: the lesson, its block and whether the block's check,
  run by the server on the arguments the curriculum gives, passed.  Nothing is recorded when the request
  names no check, or the server is closing (unless the check has crashed).
\<close>

definition check_verdict :: "env \<Rightarrow> curriculum \<Rightarrow> registry \<Rightarrow> bool \<Rightarrow> bool \<Rightarrow> obj \<Rightarrow> (lesson \<times> obj \<times> bool) option" where
  "check_verdict e c reg closing1 closing2 body =
     (case lesson_or_404 e c (get_or JNull body k_lesson_id) of
        Inl r \<Rightarrow> None
      | Inr l \<Rightarrow>
          if l_status l \<noteq> s_available then None
          else case verify_block l (get_or JNull body k_block_id) of
              None \<Rightarrow> None
            | Some b \<Rightarrow>
                (case (get_or (JObj []) b (S ''args''), get_or JNull b k_validator) of
                   (JObj args, JStr v) \<Rightarrow>
                     if closing1 then None
                     else (case run_validator reg v args of
                             Finished result \<Rightarrow> if closing2 then None else Some (l, b, r_passed result)
                           | Crashed trace what \<Rightarrow> Some (l, b, False))
                 | _ \<Rightarrow> None))"

text \<open>The command that records it.\<close>

fun records_verdict :: "lesson \<times> obj \<times> bool \<Rightarrow> command \<Rightarrow> bool" where
  "records_verdict (l, b, p) (Record_validation now lid bid passed mandatory cs historical) \<longleftrightarrow>
     lid = l_id l \<and> bid = block_id b \<and> passed = p \<and> mandatory = flag b k_mandatory \<and> historical = flag b k_historical"
| "records_verdict v cmd \<longleftrightarrow> False"

lemma record_check_exact:
  assumes "healthy s"
  shows "\<exists>cmd. records_verdict (l, b, r_passed result) cmd \<and> snd (record_check e l b result crashed s) = snd (perform cmd s)"
proof -
  let ?cmd = "Record_validation (e_now e) (l_id l) (block_id b) (r_passed result) (flag b k_mandatory)
    (if crashed then [] else l_concepts l) (flag b k_historical)"
  obtain seen where "validation_passed (mem s) (l_id l) (block_id b) = Inr seen"
    using validation_passed_total healthy_full [OF assms] by blast
  moreover obtain t where "perform ?cmd s = (Inr (), t)"
    using returns_perform [of ?cmd] assms unfolding returns_def by fastforce
  ultimately have "snd (record_check e l b result crashed s) = snd (perform ?cmd s)"
    by (auto simp: record_check_def Let_def op_bind_def op_then_def op_query_def op_return_def answer_def)
  moreover have "records_verdict (l, b, r_passed result) ?cmd" by simp
  ultimately show ?thesis by blast
qed

lemma validate_exact:
  assumes ok: "curriculum_ok known tc c" and s: "healthy s"
  shows "case check_verdict e c reg cl1 cl2 body of
     None \<Rightarrow> snd (handle_validate e c reg cl1 cl2 body s) = s
   | Some v \<Rightarrow> \<exists>cmd. records_verdict v cmd \<and> snd (handle_validate e c reg cl1 cl2 body s) = snd (perform cmd s)"
proof (cases "lesson_or_404 e c (get_or JNull body k_lesson_id)")
  case (Inl r)
  then show ?thesis by (simp add: check_verdict_def handle_validate_def with_lesson_def op_return_def)
next
  case (Inr l)
  have fail: "snd (fail_with code msg s) = s" for code msg by (simp add: fail_with_def op_return_def)
  from Inr obtain lid where "dget (c_lessons c) lid = Some l"
    by (auto simp: lesson_or_404_def split: json.splits option.splits)
  then have l: "lesson_ok known tc l" using ok by (auto simp: curriculum_ok_def dest: map_of_SomeD)
  show ?thesis
  proof (cases "l_status l = s_available")
    case avail: True
    show ?thesis
    proof (cases "verify_block l (get_or JNull body k_block_id)")
      case None
      then show ?thesis using Inr avail by (simp add: check_verdict_def handle_validate_def with_lesson_def fail)
    next
      case (Some b)
      have b: "b \<in> set (l_blocks l)" "block_type b = JStr t_verify"
        using find_in [OF Some [unfolded verify_block_def]] by auto
      have "block_ok known b" by (rule lesson_blocks_ok [OF l b(1)])
      then obtain v where "dget b k_validator = Some (JStr v)"
        using b(2) by (auto simp: block_ok_def get_or_def split: option.splits)
      then have v: "get_or JNull b k_validator = JStr v" "read_field b k_validator = Inr (JStr v)"
        by (simp_all add: read_field_def get_or_def)
      have crash: "op_bind (op_lift (read_field b k_validator)) f s = f (JStr v) s" for f :: "json \<Rightarrow> reply op"
        by (simp add: op_bind_def op_lift_def v)
      have run: "handle_validate e c reg cl1 cl2 body s =
          (case get_or (JObj []) b (S ''args'') of
              JObj args \<Rightarrow>
                if cl1 then fail_with 503 (S ''the learning server is shutting down; this check was not started'') s
                else (case run_validator reg v args of
                    Finished result \<Rightarrow>
                      if cl2 then fail_with 503 (S ''the learning server is shutting down; this check was stopped and its result discarded'') s
                      else record_check e l b result False s
                  | Crashed trace what \<Rightarrow> record_check e l b (crash_result (py_str (e_str e) (JStr v)) trace what) True s)
            | _ \<Rightarrow> fail_with 500 (S ''bad validator args'') s)"
        using Inr avail Some v(1) by (auto simp: handle_validate_def with_lesson_def crash split: json.split check_run.split)
      have "\<not> r_passed (crash_result n trace what)" for n trace what by (simp add: crash_result_def)
      then show ?thesis
        unfolding run using Inr avail Some v(1) record_check_exact [OF s, of l b]
        by (auto simp: check_verdict_def fail split: json.split check_run.split) metis+
    qed
  qed (use Inr in \<open>simp add: check_verdict_def handle_validate_def with_lesson_def fail\<close>)
qed

end
