(* ===== verification/App_Service.thy ===== *)
theory App_Service
  imports App_Properties
begin

text \<open>
  The learning server as a service (\<open>do_GET\<close> and \<open>do_POST\<close> of \<open>learning/server/app.py\<close>): a sequence of
  requests, each with its own clock, file system and checks, on one progress store.
\<close>

datatype request =
    Get static_files pystr
  | Post registry bool bool pystr headers bytes

fun serve :: "env \<Rightarrow> curriculum \<Rightarrow> request \<Rightarrow> reply op" where
  "serve e c (Get fs target) = do_GET e c fs target"
| "serve e c (Post reg closing1 closing2 target hs sent) = do_POST e c reg closing1 closing2 target hs sent"

inductive server_step :: "curriculum \<Rightarrow> pstore \<Rightarrow> pstore \<Rightarrow> bool" for c where
  request: "serve e c req s = (r, t) \<Longrightarrow> server_step c s t"

inductive_cases server_stepE: "server_step c s t"

text \<open>A request that may mutate state: from this page or from no page, and with a proper body.\<close>

definition admitted :: "env \<Rightarrow> request \<Rightarrow> bool" where
  "admitted e req = (case req of
     Get fs target \<Rightarrow> False
   | Post reg closing1 closing2 target hs sent \<Rightarrow>
       media_type hs = S ''application/json'' \<and>
       (host_name hs = [] \<or> host_name hs \<in> set loopback_names) \<and>
       origin_allowed (e_bad_netloc e) (e_cap e) (e_port e) hs \<and>
       (fetch_site hs = None \<or> fetch_site hs = Some (S ''same-origin'') \<or> fetch_site hs = Some (S ''none'')) \<and>
       read_body (e_decode e) (e_cap e) (e_depth e) hs sent \<noteq> None)"

lemma admitted_iff:
  "admitted e (Post reg cl1 cl2 target hs sent) \<longleftrightarrow>
     same_origin (e_bad_netloc e) (e_cap e) (e_port e) hs = Inr None \<and>
     read_body (e_decode e) (e_cap e) (e_depth e) hs sent \<noteq> None"
  by (auto simp: admitted_def same_origin_admits split: option.split)

lemma op_bind_lift_snd: "snd (op_bind (op_lift (Inl x)) f s) = s"
  by (simp add: op_bind_def op_lift_def)

lemma refused_POST: "\<not> admitted e (Post reg cl1 cl2 target hs sent) \<Longrightarrow> reads (do_POST e c reg cl1 cl2 target hs sent)"
  unfolding admitted_iff do_POST_def
  by (cases "url_path (e_bad_netloc e) target"; cases "same_origin (e_bad_netloc e) (e_cap e) (e_port e) hs")
    (auto simp: reads_def op_bind_lift_snd fail_with_def op_return_def split: option.split)

lemma one_step_POST: "one_step (do_POST e c reg cl1 cl2 target hs sent)"
  unfolding do_POST_def
  by (intro performs_after reads_simps) (auto simp: one_step_dispatch split: option.split)

lemma serve_step: "snd (serve e c req s) = s \<or> progress_step s (snd (serve e c req s)) \<and> admitted e req"
proof (cases req)
  case (Get fs target)
  then show ?thesis using reads_GET by (simp add: reads_def)
next
  case (Post reg cl1 cl2 target hs sent)
  then show ?thesis
    using refused_POST one_step_POST progress_step.intros unfolding reads_def performs_def
    by (metis prod.collapse serve.simps(2))
qed

lemma server_step_store: "server_step c s t \<Longrightarrow> t = s \<or> progress_step s t"
  by (elim server_stepE) (metis serve_step snd_conv)

interpretation served: transition_invariant fresh_store "server_step c" "reachable fresh_store progress_step" for c
  by unfold_locales (auto intro: reachable.start reachable.step dest: server_step_store)

section \<open>A concrete request\<close>

definition tiny_env :: env where
  "tiny_env = \<lparr>e_lower = ascii_lower, e_repr = id, e_str = (\<lambda>_. []), e_repr_value = (\<lambda>_. []), e_float = (\<lambda>_. []),
     e_unquote = id, e_bad_netloc = (\<lambda>_. False), e_decode = Some, e_choose = (\<lambda>_. []), e_cap = 4300, e_depth = 100,
     e_port = 8765, e_now = S ''t''\<rparr>"

definition start_a :: bytes where
  "start_a = S ''{'' @ [34] @ S ''lesson_id'' @ [34] @ S '':'' @ [34] @ S ''a'' @ [34] @ S ''}''"

definition page_headers :: headers where
  "page_headers = \<lparr>content_type = Some (S ''application/json''), host = Some (S ''127.0.0.1:8765''),
     origin = Some (S ''http://127.0.0.1:8765''), fetch_site = Some (S ''same-origin''),
     content_length = Some (S ''17'')\<rparr>"

definition post_start :: request where
  "post_start = Post [] False False (S ''/api/start'') page_headers start_a"

definition evil_start :: request where
  "evil_start = Post [] False False (S ''/api/start'') (page_headers\<lparr>origin := Some (S ''http://evil.example'')\<rparr>) start_a"

text \<open>How a URL is taken apart.\<close>

lemmas url_defs = origin_is_self_def url_split_def split_scheme_def url_port_def url_hostname_def host_and_port_def
  url_path_def cut_params_def uses_params_def partition_at_def after_last_def before_last_def is_ascii_letter_def
  is_scheme_char_def is_digit_def ascii_lower_def loopback_names_def S_def

section \<open>Properties\<close>

text \<open>
  C11: A request changes the store only if it was admitted (JSON, a loopback Host, an Origin that is
  this server or none, not cross-site, a body of at most 64 KiB that is an object), and then by a
  single command of the store; so every state the service reaches is one the store's own commands
  reach, and all that holds of those holds of it.
\<close>

theorem requests_refine_store:
  assumes "reachable fresh_store (server_step c) s"
  shows "reachable fresh_store progress_step s \<and>
    (let t = snd (serve e c req s) in t = s \<or> (progress_step s t \<and> admitted e req))"
  using served.inv_reachable [OF assms] serve_step [of e c req s] by (simp add: Let_def)

theorem requests_refine_store_witness:
  "snd (serve tiny_env tiny_curriculum evil_start new_store) = new_store"
proof -
  have "\<not> admitted tiny_env evil_start"
    by (simp add: evil_start_def page_headers_def tiny_env_def admitted_def origin_allowed_def url_defs)
  moreover have "reachable fresh_store (server_step tiny_curriculum) new_store"
    by (rule reachable.start) (simp add: fresh_store_def new_store_def load_progress_def)
  ultimately show ?thesis
    using requests_refine_store [of tiny_curriculum new_store tiny_env evil_start] by (simp add: Let_def)
qed



end
