(* ===== verification/App_Trace.thy ===== *)
theory App_Trace
  imports App_Service
begin

text \<open>
  What a certificate says of the requests behind it (\<open>learning/server/app.py\<close> on top of
  \<open>learning/server/progress.py\<close>): the server has run every mandatory check of the lesson itself, and
  the last run that counts has passed.  A client sends identifiers only and cannot report a verdict.
\<close>

section \<open>The verdict of a request\<close>

text \<open>The lesson, the block and the outcome of the check a request makes the server run and record.\<close>

definition check_request :: "env \<Rightarrow> curriculum \<Rightarrow> request \<Rightarrow> (lesson \<times> obj \<times> bool) option" where
  "check_request e c req = (case req of
     Get fs target \<Rightarrow> None
   | Post reg closing1 closing2 target hs sent \<Rightarrow>
       if admitted e req \<and> url_path (e_bad_netloc e) target = Inr (S ''/api/validate'')
       then (case read_body (e_decode e) (e_cap e) (e_depth e) hs sent of
               None \<Rightarrow> None | Some body \<Rightarrow> check_verdict e c reg closing1 closing2 body)
       else None)"

lemma dispatch_ordinary:
  assumes "curriculum_ok known tc c" and "path \<noteq> S ''/api/validate''"
  shows "performs (ordinary c) (dispatch e c reg cl1 cl2 path body)"
  using performs_complete curriculum_ids [OF assms(1)] assms(2) by (simp add: dispatch_def performs_handlers)

lemma dispatch_validate: "dispatch e c reg cl1 cl2 (S ''/api/validate'') body = handle_validate e c reg cl1 cl2 body"
  by (simp add: dispatch_def)

lemma serve_exact:
  assumes ok: "curriculum_ok known tc c" and s: "healthy s"
  shows "case check_request e c req of
     None \<Rightarrow> snd (serve e c req s) = s \<or> (\<exists>cmd. ordinary c cmd \<and> snd (serve e c req s) = snd (perform cmd s))
   | Some v \<Rightarrow> \<exists>cmd. records_verdict v cmd \<and> snd (serve e c req s) = snd (perform cmd s)"
proof (cases req)
  case (Get fs target)
  then show ?thesis using reads_GET by (simp add: reads_def check_request_def)
next
  case (Post reg cl1 cl2 target hs sent)
  show ?thesis
  proof (cases "admitted e req")
    case False
    then show ?thesis using Post refused_POST by (simp add: check_request_def reads_def)
  next
    case True
    then obtain body where body: "read_body (e_decode e) (e_cap e) (e_depth e) hs sent = Some body"
      and origin: "same_origin (e_bad_netloc e) (e_cap e) (e_port e) hs = Inr None"
      using Post by (auto simp: admitted_iff)
    show ?thesis
    proof (cases "url_path (e_bad_netloc e) target")
      case (Inl x)
      then show ?thesis using Post by (simp add: check_request_def do_POST_def op_bind_lift_snd)
    next
      case (Inr path)
      have run: "serve e c req s = dispatch e c reg cl1 cl2 path body s"
        using Post Inr body origin by (simp add: do_POST_def op_bind_def op_lift_def)
      show ?thesis
      proof (cases "path = S ''/api/validate''")
        case True
        then show ?thesis
          using \<open>admitted e req\<close> Post Inr body validate_exact [OF ok s, of e reg cl1 cl2 body]
          unfolding run by (auto simp: check_request_def dispatch_validate split: option.splits)
      next
        case False
        then show ?thesis
          using Post Inr dispatch_ordinary [OF ok False, of e reg cl1 cl2 body]
          unfolding run by (simp add: check_request_def performs_def)
      qed
    qed
  qed
qed

section \<open>Sequences of requests\<close>

text \<open>Each request comes with the machine as it is then.\<close>

fun serve_all :: "curriculum \<Rightarrow> (env \<times> request) list \<Rightarrow> pstore \<Rightarrow> pstore" where
  "serve_all c [] s = s"
| "serve_all c ((e, req) # reqs) s = serve_all c reqs (snd (serve e c req s))"

lemma serve_all_snoc: "serve_all c (reqs @ [(e, req)]) s = snd (serve e c req (serve_all c reqs s))"
  by (induction reqs arbitrary: s) auto

lemma serve_healthy: "curriculum_ok known tc c \<Longrightarrow> healthy s \<Longrightarrow> healthy (snd (serve e c req s))"
  using serve_exact [of known tc c s e req] by (auto simp: perform_healthy split: option.splits)

lemma serve_all_healthy: "curriculum_ok known tc c \<Longrightarrow> healthy s \<Longrightarrow> healthy (serve_all c reqs s)"
  by (induction c reqs s rule: serve_all.induct) (simp_all add: serve_healthy)

text \<open>The request made the server run this check and it passed; or it failed, outside the red stage.\<close>

fun verified :: "curriculum \<Rightarrow> pystr \<Rightarrow> pystr \<Rightarrow> env \<times> request \<Rightarrow> bool" where
  "verified c lid bid (e, req) \<longleftrightarrow> (case check_request e c req of
     None \<Rightarrow> False | Some (l, b, passed) \<Rightarrow> l_id l = lid \<and> block_id b = bid \<and> passed)"

fun refuted :: "curriculum \<Rightarrow> pystr \<Rightarrow> pystr \<Rightarrow> env \<times> request \<Rightarrow> bool" where
  "refuted c lid bid (e, req) \<longleftrightarrow> (case check_request e c req of
     None \<Rightarrow> False
   | Some (l, b, passed) \<Rightarrow> l_id l = lid \<and> block_id b = bid \<and> \<not> passed \<and> \<not> flag b k_historical)"

lemma ordinary_keeps: "ordinary c cmd \<Longrightarrow> \<not> passes_check lid b cmd \<and> \<not> fails_check lid b cmd \<and> in_program c cmd"
  by (cases cmd) auto

lemma verdict_matters:
  "records_verdict (l, b, p) cmd \<Longrightarrow>
     (passes_check lid bid cmd \<longleftrightarrow> l_id l = lid \<and> block_id b = bid \<and> p) \<and>
     (fails_check lid bid cmd \<longleftrightarrow> l_id l = lid \<and> block_id b = bid \<and> \<not> p \<and> \<not> flag b k_historical) \<and> in_program c cmd"
  by (cases cmd) auto

lemma served_passes:
  assumes ok: "curriculum_ok known tc c" and s: "healthy s"
  shows "bid \<in> en_passed (entry_at (ledger (mem (snd (serve e c req s)))) lid) \<longleftrightarrow>
    verified c lid bid (e, req) \<or> bid \<in> en_passed (entry_at (ledger (mem s)) lid) \<and> \<not> refuted c lid bid (e, req)"
proof -
  have cmd: "bid \<in> en_passed (entry_at (ledger (mem (snd (perform cmd s)))) lid) \<longleftrightarrow>
      passes_check lid bid cmd \<or> bid \<in> en_passed (entry_at (ledger (mem s)) lid) \<and> \<not> fails_check lid bid cmd"
    if "in_program c cmd" for cmd
    unfolding step_ledger [OF ok s that] by (rule entry_step)
  show ?thesis
  proof (cases "check_request e c req")
    case None
    then show ?thesis using serve_exact [OF ok s, of e req] ordinary_keeps cmd by auto
  next
    case (Some v)
    obtain l b p where v: "v = (l, b, p)" by (cases v)
    obtain x where "records_verdict (l, b, p) x" "snd (serve e c req s) = snd (perform x s)"
      using serve_exact [OF ok s, of e req] Some v by auto
    then show ?thesis using cmd [of x] verdict_matters [of l b p x lid bid c] Some v by auto
  qed
qed

lemma passes_history:
  assumes ok: "curriculum_ok known tc c" and s: "healthy s" and new: "ledger (mem s) = Map.empty"
  shows "bid \<in> en_passed (entry_at (ledger (mem (serve_all c reqs s))) lid) \<longleftrightarrow>
    last_good (verified c lid bid) (refuted c lid bid) reqs"
proof (induction reqs rule: rev_induct)
  case (snoc x reqs)
  obtain e req where x: "x = (e, req)" by (cases x)
  show ?case
    unfolding x serve_all_snoc last_good_snoc served_passes [OF ok serve_all_healthy [OF ok s]] snoc ..
qed (simp add: new no_entry_def)

section \<open>Properties\<close>

text \<open>
  C5: Over any sequence of requests to a server on a new progress file, a lesson is certified only if,
  for each of its mandatory checks, some admitted request made the server run that block's validator
  on the arguments of the curriculum and it passed, with no failing run of it since (of a red-stage
  check, the first pass stands).
\<close>

theorem certified_only_by_checks:
  assumes "load_curriculum cap depth pr files stems known tc = Inr c"
    and "certified (mem (serve_all c reqs new_store)) c lid"
  shows "\<exists>l. dget (c_lessons c) lid = Some l \<and>
    (\<forall>b \<in> set (mandatory_validators l). last_good (verified c lid (block_id b)) (refuted c lid (block_id b)) reqs)"
proof -
  note ok = load_curriculum_ok [OF assms(1)]
  have "granted c (ledger (mem (serve_all c reqs new_store))) lid"
    using assms(2) by (simp add: certified_granted)
  then obtain l where l: "dget (c_lessons c) lid = Some l" "earned l (ledger (mem (serve_all c reqs new_store)))"
    by (auto elim: grantedE)
  then show ?thesis
    using curriculum_ids [OF ok l(1)] passes_history [OF ok reachable_full(2) [OF new_store_reachable] ledger_new]
    by (auto simp: earned_def entry_suffices_def)
qed

section \<open>A day of work\<close>

text \<open>Five requests that finish the first lesson of the small curriculum.\<close>

definition script_headers :: headers where
  "script_headers = \<lparr>content_type = Some (S ''application/json''), host = None, origin = None, fetch_site = None,
     content_length = Some (S ''2000'')\<rparr>"

definition green_check :: "obj \<Rightarrow> check_run" where
  "green_check args = Finished \<lparr>r_name = S ''run'', r_passed = True, r_exit = Some 0, r_stdout = [], r_stderr = [],
     r_duration = 1, r_interpretation = S ''ok'', r_timed_out = False, r_details = []\<rparr>"

definition post_json :: "pystr \<Rightarrow> obj \<Rightarrow> request" where
  "post_json path body = Post [(S ''run'', green_check)] False False path script_headers (dump (\<lambda>_. []) None 0 (JObj body))"

definition for_a :: "obj \<Rightarrow> obj" where
  "for_a rest = (k_lesson_id, JStr (S ''a'')) # rest"

definition quiz_body :: obj where
  "quiz_body = for_a [(k_block_id, JStr (S ''q1'')), (k_kind, JStr t_quiz), (k_answer_index, JInt 1)]"

definition explain_body :: obj where
  "explain_body = for_a [(k_block_id, JStr (S ''e1'')), (k_kind, JStr t_explain),
     (k_answer_text, JStr (S ''tcp is a b c d e f g h i j''))]"

definition work_day :: "(env \<times> request) list" where
  "work_day = map (\<lambda>(path, body). (tiny_env, post_json path body))
     [(S ''/api/start'', for_a []), (S ''/api/validate'', for_a [(k_block_id, JStr (S ''v1''))]),
      (S ''/api/step'', quiz_body), (S ''/api/step'', explain_body), (S ''/api/complete'', for_a [])]"

lemma script_origin: "same_origin (\<lambda>_. False) 4300 8765 script_headers = Inr None"
  by (simp add: same_origin_def media_type_def script_headers_def host_name_def header_or_empty_def site_refusal_def
      partition_at_def before_last_def strip_by_def py_strip_def lstrip_by_def rstrip_by_def S_def is_space_def ascii_lower_def)

lemma script_length: "declared_length 4300 script_headers = Some 2000"
  by (simp add: declared_length_def script_headers_def int_of_str_def S_def py_strip_def lstrip_by_def rstrip_by_def
      is_space_def is_digit_def digits_val_def Let_def)

lemma work_paths:
  "list_all (\<lambda>path. url_path (\<lambda>_. False) path = Inr path)
     [S ''/api/start'', S ''/api/validate'', S ''/api/step'', S ''/api/complete'']"
  by (simp add: url_path_def url_split_def split_scheme_def partition_at_def S_def uses_params_def cut_params_def after_last_def)

lemma length_dump_string: "length (dump_string s) \<le> 12 * length s + 2"
proof -
  have "length (esc c) \<le> 12" for c by (simp add: esc_def u_escape_def)
  then have "length (concat (map esc s)) \<le> 12 * length s" by (induction s) (auto simp: add_mono)
  then show ?thesis by (simp add: dump_string_def)
qed

lemma post_json_admitted:
  assumes "plain (builtin_int 4300) (JObj body)" and "wf_json (JObj body)" and "containers (JObj body) \<le> 100"
    and "length (dump (\<lambda>_. []) None 0 (JObj body)) \<le> 2000" and "url_path (\<lambda>_. False) path = Inr path"
  shows "serve tiny_env tiny_curriculum (post_json path body) s =
    dispatch tiny_env tiny_curriculum [(S ''run'', green_check)] False False path body s"
    and "admitted tiny_env (post_json path body)"
proof -
  have env: "e_bad_netloc tiny_env = (\<lambda>_. False)" "e_decode tiny_env = Some" "e_cap tiny_env = 4300"
    "e_depth tiny_env = 100" "e_port tiny_env = 8765"
    by (simp_all add: tiny_env_def)
  have body: "read_body Some 4300 100 script_headers (dump (\<lambda>_. []) None 0 (JObj body)) = Some body"
    using assms(4) loads_dump [OF assms(1-3)] script_length by (simp add: read_body_def MAX_BODY_def)
  show "admitted tiny_env (post_json path body)"
    unfolding post_json_def admitted_iff env script_origin body by simp
  show "serve tiny_env tiny_curriculum (post_json path body) s =
      dispatch tiny_env tiny_curriculum [(S ''run'', green_check)] False False path body s"
    unfolding post_json_def serve.simps do_POST_def env script_origin body assms(5)
    by (simp add: op_bind_def op_lift_def)
qed

text \<open>The bodies: short objects of literals.\<close>

lemmas body_defs = for_a_def quiz_body_def explain_body_def k_lesson_id_def k_block_id_def k_kind_def k_answer_index_def
  k_answer_text_def t_quiz_def t_explain_def

lemma work_bodies:
  "list_all (\<lambda>body. plain (builtin_int 4300) (JObj body) \<and> wf_json (JObj body) \<and> containers (JObj body) \<le> 100)
     [for_a [], for_a [(k_block_id, JStr (S ''v1''))], quiz_body, explain_body]"
  by (simp add: body_defs dict_ok_def dkeys_def builtin_int_small str_ok_literal)

lemma work_lengths:
  "list_all (\<lambda>body. length (dump (\<lambda>_. []) None 0 (JObj body)) \<le> 2000)
     [for_a [], for_a [(k_block_id, JStr (S ''v1''))], quiz_body, explain_body]"
proof -
  note bound = length_dump_string [of "S ''lesson_id''"] length_dump_string [of "S ''block_id''"]
    length_dump_string [of "S ''kind''"] length_dump_string [of "S ''answer_index''"] length_dump_string [of "S ''answer_text''"]
    length_dump_string [of "S ''quiz''"] length_dump_string [of "S ''explain''"] length_dump_string [of "S ''a''"]
    length_dump_string [of "S ''v1''"] length_dump_string [of "S ''q1''"] length_dump_string [of "S ''e1''"]
    length_dump_string [of "S ''tcp is a b c d e f g h i j''"]
  have "length (S t) = length t" for t by (simp add: S_def)
  note short = bound [unfolded this, simplified]
  show ?thesis
    using short by (simp add: body_defs newline_def item_sep_def dec_int_def dec_nat.simps)
qed

lemmas posted = post_json_admitted(1) [of "for_a []"] post_json_admitted(1) [of "for_a [(k_block_id, JStr (S ''v1''))]"]
  post_json_admitted(1) [of quiz_body] post_json_admitted(1) [of explain_body]

lemma snd_bind: "(\<And>a. reads (f a)) \<Longrightarrow> snd (op_bind m f s) = snd (m s)"
  by (auto simp: op_bind_def reads_def split: prod.split sum.split)

lemma snd_then: "reads k \<Longrightarrow> snd (op_then m k s) = snd (m s)"
  by (auto simp: op_then_def op_bind_def reads_def split: prod.split sum.split)

lemma lesson_a_of: "lesson_or_404 e tiny_curriculum (get_or JNull (for_a rest) k_lesson_id) = Inr lesson_a"
  by (simp add: lesson_or_404_def for_a_def get_or_def tiny_get)

text \<open>Each request does what the corresponding command of \<open>lesson_commands\<close> does.\<close>

lemma work_start:
  "snd (serve tiny_env tiny_curriculum (post_json (S ''/api/start'') (for_a [])) s) = snd (perform (Mark_started (S ''t'') (S ''a'')) s)"
proof -
  have "reads (op_bind (lesson_public tiny_env tiny_curriculum lesson_a) (answer 200))"
    by (intro reads_bind reads_lesson_public) simp
  then have "snd (handle_start tiny_env tiny_curriculum (for_a []) s) = snd (mark_started (S ''t'') (S ''a'') s)"
    by (simp add: handle_start_def with_lesson_def lesson_a_of snd_then tiny_lesson_simps) (simp add: tiny_env_def)
  then show ?thesis using posted(1) [of "S ''/api/start''" s] work_bodies work_lengths work_paths by (simp add: dispatch_def)
qed

lemma work_validate:
  "snd (serve tiny_env tiny_curriculum (post_json (S ''/api/validate'') (for_a [(k_block_id, JStr (S ''v1''))])) s) =
     snd (perform (Record_validation (S ''t'') (S ''a'') (S ''v1'') True True [S ''net''] False) s)"
proof -
  have block: "verify_block lesson_a (JStr (S ''v1'')) = Some block_verify"
    by (simp add: verify_block_def lesson_a_def block_verify_def block_quiz_def curriculum_key_defs block_type_def get_or_def)
  have parts: "get_or (JObj []) block_verify (S ''args'') = JObj []" "get_or JNull block_verify k_validator = JStr (S ''run'')"
    "block_id block_verify = S ''v1''" "flag block_verify k_mandatory" "\<not> flag block_verify k_historical"
    by (simp_all add: block_verify_def curriculum_key_defs get_or_def block_id_def flag_def k_historical_def)
  have "get_or JNull (for_a [(k_block_id, JStr (S ''v1''))]) k_block_id = JStr (S ''v1'')"
    by (simp add: body_defs get_or_def)
  then have "snd (handle_validate tiny_env tiny_curriculum [(S ''run'', green_check)] False False
      (for_a [(k_block_id, JStr (S ''v1''))]) s) =
      snd (record_validation (S ''t'') (S ''a'') (S ''v1'') True True [S ''net''] False s)"
    by (simp add: handle_validate_def with_lesson_def lesson_a_of tiny_lesson_simps block parts run_validator_def green_check_def
        record_check_def op_bind_def [of "op_return False"] op_return_def snd_then Let_def)
      (simp add: tiny_env_def lesson_a_def)
  then show ?thesis
    using posted(2) [of "S ''/api/validate''" s] work_bodies work_lengths work_paths by (simp add: dispatch_validate)
qed

lemma work_quiz:
  "snd (serve tiny_env tiny_curriculum (post_json (S ''/api/step'') quiz_body) s) =
     snd (perform (Record_quiz (S ''t'') (S ''a'') (S ''q1'') True [S ''net'']) s)"
proof -
  have block: "quiz_block lesson_a (S ''q1'') = Some block_quiz"
    by (simp add: quiz_block_def lesson_a_def block_quiz_def curriculum_key_defs block_type_def get_or_def)
  have parts: "block_type block_quiz = JStr t_quiz" "read_field block_quiz k_answer_index = Inr (JInt 1)"
    by (simp_all add: block_quiz_def curriculum_key_defs block_type_def get_or_def read_field_def)
  have body: "get_or JNull quiz_body k_block_id = JStr (S ''q1'')" "get_or JNull quiz_body k_kind = JStr t_quiz"
    "get_or JNull quiz_body k_answer_index = JInt 1" "get_or JNull quiz_body k_lesson_id = JStr (S ''a'')"
    by (simp_all add: body_defs get_or_def)
  have kinds: "t_quiz \<noteq> t_learn" "t_quiz \<noteq> t_do" by (simp_all add: curriculum_key_defs)
  have "snd (handle_step tiny_env tiny_curriculum quiz_body s) = snd (record_quiz (S ''t'') (S ''a'') (S ''q1'') True [S ''net''] s)"
    by (simp add: handle_step_def with_lesson_def lesson_or_404_def tiny_get body kinds step_quiz_def block parts
        op_bind_def [of "op_lift _"] op_lift_def Let_def snd_then)
      (simp add: tiny_env_def lesson_a_def)
  then show ?thesis
    using posted(3) [of "S ''/api/step''" s] work_bodies work_lengths work_paths by (simp add: dispatch_def)
qed

lemma work_explain:
  "snd (serve tiny_env tiny_curriculum (post_json (S ''/api/step'') explain_body) s) =
     snd (perform (Record_explain (S ''t'') (S ''a'') (S ''e1'') True [S ''net'']) s)"
proof -
  let ?text = "S ''tcp is a b c d e f g h i j''"
  have block: "explain_block lesson_a (S ''e1'') = Some block_explain"
    by (simp add: explain_block_def lesson_a_def block_explain_def block_quiz_def block_verify_def curriculum_key_defs
        block_type_def get_or_def)
  have parts: "read_field block_explain k_keywords = Inr (JList [JStr (S ''tcp'')])"
    "read_field block_explain k_sample_answer = Inr (JStr (S ''tcp''))"
    by (simp_all add: block_explain_def curriculum_key_defs read_field_def)
  have body: "get_or JNull explain_body k_block_id = JStr (S ''e1'')" "get_or JNull explain_body k_kind = JStr t_explain"
    "get_or JNull explain_body k_answer_text = JStr ?text" "get_or JNull explain_body k_lesson_id = JStr (S ''a'')"
    by (simp_all add: body_defs get_or_def)
  have kinds: "t_explain \<noteq> t_learn" "t_explain \<noteq> t_do" "t_explain \<noteq> t_quiz" "t_explain \<noteq> t_predict"
    by (simp_all add: curriculum_key_defs)
  have answer: "py_strip ?text \<noteq> []" "keyword_hits tiny_env [S ''tcp''] ?text = [S ''tcp'']" "count_words False ?text = 12"
    by (simp_all add: S_def is_space_def py_strip_def lstrip_by_def rstrip_by_def keyword_hits_def substring_def
        starts_with_def tiny_env_def ascii_lower_def)
  have "reads (op_bind (op_lift r) (\<lambda>sample. answer 200 (j sample)))" for r j by (intro reads_bind) simp_all
  then have "snd (handle_step tiny_env tiny_curriculum explain_body s) =
      snd (record_explain (S ''t'') (S ''a'') (S ''e1'') True [S ''net''] s)"
    by (simp add: handle_step_def with_lesson_def lesson_or_404_def tiny_get body kinds step_explain_def block parts answer
        op_bind_run [of "op_lift _"] op_lift_def Let_def snd_then MIN_EXPLAIN_WORDS_def)
      (simp add: tiny_env_def lesson_a_def)
  then show ?thesis
    using posted(4) [of "S ''/api/step''" s] work_bodies work_lengths work_paths by (simp add: dispatch_def)
qed

lemma work_complete:
  "snd (serve tiny_env tiny_curriculum (post_json (S ''/api/complete'') (for_a [])) s) =
     snd (perform (Mark_complete (S ''t'') lesson_a (Some tiny_curriculum)) s)"
proof -
  have "snd (handle_complete tiny_env tiny_curriculum (for_a []) s) = snd (mark_complete (S ''t'') lesson_a (Some tiny_curriculum) s)"
    unfolding handle_complete_def with_lesson_def lesson_a_of sum.case
    by (subst snd_bind) (auto simp: tiny_env_def split: prod.split intro!: reads_bind)
  then show ?thesis
    using posted(1) [of "S ''/api/complete''" s] work_bodies work_lengths work_paths by (simp add: dispatch_def snd_ignore)
qed

lemma work_day_served: "serve_all tiny_curriculum work_day new_store = day_one"
proof -
  have "evidence_commands (S ''t'') lesson_a =
      [Mark_started (S ''t'') (S ''a''), Record_validation (S ''t'') (S ''a'') (S ''v1'') True True [S ''net''] False,
       Record_quiz (S ''t'') (S ''a'') (S ''q1'') True [S ''net''], Record_explain (S ''t'') (S ''a'') (S ''e1'') True [S ''net'']]"
    by (simp add: evidence_commands_def mandatory_validators_def required_quiz_ids_def required_explain_ids_def lesson_a_def
        block_quiz_def block_verify_def block_explain_def curriculum_key_defs block_type_def block_id_def get_or_def)
  then show ?thesis
    by (simp add: work_day_def day_one_def lesson_commands_def work_start work_validate work_quiz work_explain work_complete
        del: perform.simps)
qed

theorem certified_only_by_checks_witness:
  "last_good (verified tiny_curriculum (S ''a'') (S ''v1'')) (refuted tiny_curriculum (S ''a'') (S ''v1'')) work_day"
proof -
  have "certified (mem (serve_all tiny_curriculum work_day new_store)) tiny_curriculum (S ''a'')"
    unfolding work_day_served by (rule day_one_certified)
  note earned = certified_only_by_checks [OF tiny_loads this]
  have "block_verify \<in> set (mandatory_validators lesson_a)" and "block_id block_verify = S ''v1''"
    by code_simp+
  then show ?thesis using earned unfolding tiny_get by (metis option.inject)
qed

end
