(* ===== verification/App_Replies.thy ===== *)
theory App_Replies
  imports App_Handlers Wire_Text
begin

text \<open>
  A reply on the wire (\<open>_send_json\<close> and the end of \<open>_serve_static\<close> in \<open>learning/server/app.py\<close>): status,
  headers and body.  The status line and the framing are \<open>http.server\<close>'s.
\<close>

record http_response =
  h_status :: nat
  h_headers :: "pystr dict"
  h_body :: bytes

definition common_headers :: "pystr \<Rightarrow> bytes \<Rightarrow> pystr dict" where
  "common_headers mime body =
     [(S ''Content-Type'', mime), (S ''Content-Length'', dec_nat (length body)),
      (S ''X-Content-Type-Options'', S ''nosniff'')]"

definition send_json :: "(pyfloat \<Rightarrow> pystr) \<Rightarrow> json \<Rightarrow> nat \<Rightarrow> http_response" where
  "send_json fr payload status =
     (let body = utf8_encode (dump fr None 0 payload)
      in \<lparr>h_status = status, h_headers = common_headers (S ''application/json; charset=utf-8'') body, h_body = body\<rparr>)"

definition send_file :: "pystr \<Rightarrow> bytes \<Rightarrow> http_response" where
  "send_file mime body =
     \<lparr>h_status = 200, h_headers = common_headers mime body @ [(S ''Cache-Control'', S ''no-store'')], h_body = body\<rparr>"

definition send_reply :: "(pyfloat \<Rightarrow> pystr) \<Rightarrow> reply \<Rightarrow> http_response" where
  "send_reply fr r = (case r of Reply code j \<Rightarrow> send_json fr j code | File mime body \<Rightarrow> send_file mime body)"

text \<open>
  The page reads back exactly what the handler answered: the declared length is that of the body, the
  type is fixed and may not be guessed, and the body parses to the payload.
\<close>

theorem reply_reads_back:
  assumes "plain (builtin_int cap) j" and "wf_json j" and "containers j \<le> depth"
  shows "let r = send_reply fr (Reply code j)
    in h_status r = code \<and> loads (builtin_int cap) depth (h_body r) = Inr j \<and>
       (\<exists>n. dget (h_headers r) (S ''Content-Length'') = Some n \<and> digits_val n = int (length (h_body r))) \<and>
       dget (h_headers r) (S ''Content-Type'') = Some (S ''application/json; charset=utf-8'') \<and>
       dget (h_headers r) (S ''X-Content-Type-Options'') = Some (S ''nosniff'')"
  using loads_dump [OF assms, of fr None] printable_ascii [OF dump_printable_plain [OF assms(1), of fr 0]]
  by (simp add: send_reply_def send_json_def common_headers_def Let_def digits_val_dec_nat)

theorem reply_reads_back_witness:
  "loads (builtin_int 4300) 10 (h_body (send_reply (\<lambda>_. []) (Reply 200 (JObj [(S ''recorded'', JBool True)])))) =
     Inr (JObj [(S ''recorded'', JBool True)])"
  using reply_reads_back [of 4300 "JObj [(S ''recorded'', JBool True)]" 10]
  by (simp add: str_ok_literal dict_ok_def dkeys_def Let_def)

end
