(* ===== verification/Check_Common.thy ===== *)
theory Check_Common
  imports Validators
begin

text \<open>
  What the lesson checks share (\<open>learning/checks/common.py\<close>): the environment and the outcome of a
  child process, and the verdict built from a list of failures.

  The record \<open>cenv\<close> holds what a check takes from Python's library: \<open>re.search\<close> without and with
  \<open>re.MULTILINE\<close>, \<open>int\<close> and \<open>float\<close> of a string, \<open>repr\<close>, \<open>str\<close> of a value that is not a string,
  a number of seconds as text, \<open>str.lower\<close>.
\<close>

record cenv =
  x_cap :: nat
  x_depth :: nat
  x_int :: "pystr \<Rightarrow> py_exc + int"
  x_float :: "pystr \<Rightarrow> pyfloat option"
  x_search :: "pystr \<Rightarrow> pystr \<Rightarrow> py_exc + bool"
  x_search_lines :: "pystr \<Rightarrow> pystr \<Rightarrow> py_exc + bool"
  x_repr :: "json \<Rightarrow> pystr"
  x_str :: "json \<Rightarrow> pystr"
  x_seconds :: "pyfloat \<Rightarrow> pystr"
  x_lower :: "pystr \<Rightarrow> pystr"

definition comma :: pystr where "comma = S '', ''"

text \<open>\<open>int(v)\<close>\<close>

definition to_int :: "cenv \<Rightarrow> json \<Rightarrow> py_exc + int" where
  "to_int e v = (case v of JStr s \<Rightarrow> x_int e s | _ \<Rightarrow> py_int v)"

definition k_success_note :: pystr where "k_success_note = S ''success_note''"

definition success_note :: "cenv \<Rightarrow> obj \<Rightarrow> pystr \<Rightarrow> pystr" where
  "success_note e args otherwise = py_str (x_str e) (get_or (JStr otherwise) args k_success_note)"

definition check_failed :: "pystr list \<Rightarrow> pystr" where
  "check_failed failures = S ''Check failed: '' @ join (S ''; '') failures"

definition matching :: "pystr \<Rightarrow> pystr" where
  "matching pattern = S ''/'' @ pattern @ S ''/''"

text \<open>The failures of one optional pattern, required or forbidden.\<close>

definition required_match :: "(pystr \<Rightarrow> pystr \<Rightarrow> py_exc + bool) \<Rightarrow> json \<Rightarrow> pystr \<Rightarrow> (pystr \<Rightarrow> pystr) \<Rightarrow> py_exc + pystr list" where
  "required_match search v text msg = (case v of
     JStr p \<Rightarrow> res_bind (search p text) (\<lambda>found. Inr (if found then [] else [msg p]))
   | _ \<Rightarrow> Inr [])"

definition forbidden_match :: "(pystr \<Rightarrow> pystr \<Rightarrow> py_exc + bool) \<Rightarrow> json \<Rightarrow> pystr \<Rightarrow> (pystr \<Rightarrow> pystr) \<Rightarrow> py_exc + pystr list" where
  "forbidden_match search v text msg = (case v of
     JStr p \<Rightarrow> res_bind (search p text) (\<lambda>found. Inr (if found then [msg p] else []))
   | _ \<Rightarrow> Inr [])"

text \<open>\<open>for item in v\<close>\<close>

definition py_iter :: "json \<Rightarrow> py_exc + json list" where
  "py_iter v = (case v of
     JList xs \<Rightarrow> Inr xs
   | JStr s \<Rightarrow> Inr (map (\<lambda>c. JStr [c]) s)
   | JObj d \<Rightarrow> Inr (map JStr (dkeys d))
   | _ \<Rightarrow> Inl TypeError)"

text \<open>A list of strings, or \<open>None\<close>.\<close>

definition all_strings :: "json \<Rightarrow> pystr list option" where
  "all_strings v = (case v of
     JList xs \<Rightarrow> if list_all is_str xs then Some (map (the \<circ> as_str) xs) else None | _ \<Rightarrow> None)"

text \<open>The failures of a list of patterns.\<close>

definition each_pattern :: "(json \<Rightarrow> py_exc + pystr list) \<Rightarrow> json \<Rightarrow> py_exc + pystr list" where
  "each_pattern f v = res_bind (py_iter v) (\<lambda>vs. res_bind (res_map f vs) (\<lambda>fss. Inr (concat fss)))"

definition exit_text :: "int option \<Rightarrow> pystr" where
  "exit_text x = (case x of None \<Rightarrow> S ''None'' | Some i \<Rightarrow> dec_int i)"

text \<open>A check as the registry holds it; \<open>show\<close> renders an exception.\<close>

definition as_check :: "(py_exc \<Rightarrow> pystr \<times> pystr) \<Rightarrow> (obj \<Rightarrow> py_exc + check_result) \<Rightarrow> obj \<Rightarrow> check_run" where
  "as_check render f args = (case f args of
     Inl x \<Rightarrow> Crashed (fst (render x)) (snd (render x))
   | Inr r \<Rightarrow> Finished r)"

text \<open>An environment for examples: every pattern matches, no string is a number.\<close>

definition plain_cenv :: cenv where
  "plain_cenv = \<lparr>x_cap = 4300, x_depth = 100, x_int = (\<lambda>_. Inl ValueError), x_float = (\<lambda>_. None),
     x_search = (\<lambda>_ _. Inr True), x_search_lines = (\<lambda>_ _. Inr True), x_repr = (\<lambda>_. []), x_str = (\<lambda>_. []),
     x_seconds = (\<lambda>_. []), x_lower = id\<rparr>"

text \<open>\<open>time.monotonic() < deadline\<close>\<close>

definition before_deadline :: "rat \<Rightarrow> pyfloat \<Rightarrow> bool" where
  "before_deadline now deadline = (case deadline of Fin d \<Rightarrow> now < d | PInf \<Rightarrow> True | _ \<Rightarrow> False)"

section \<open>Child processes\<close>

definition env_excludes :: "pystr list" where
  "env_excludes = [S ''EVIDENCE_DIR'', S ''FTL_DUT'']"

definition child_env :: "pystr dict \<Rightarrow> pystr dict \<Rightarrow> pystr dict" where
  "child_env vars extra =
     fold (\<lambda>(k, v). dset k v) extra (filter (\<lambda>(k, v). k \<notin> set env_excludes) vars)"

text \<open>
  A started child: what \<open>communicate\<close> returns within the time limit, and within five seconds of the
  kill (\<open>None\<close> is \<open>TimeoutExpired\<close>); its return code in the end, and the clock's milliseconds.
\<close>

record child =
  ch_first :: "(pystr \<times> pystr) option"
  ch_killed :: "(pystr \<times> pystr) option"
  ch_code :: "int option"
  ch_ms :: int

record outcome =
  o_exit :: "int option"
  o_out :: pystr
  o_err :: pystr
  o_ms :: int
  o_timed_out :: bool

type_synonym spawner = "pystr list \<Rightarrow> pystr dict \<Rightarrow> pyfloat \<Rightarrow> py_exc + child"

definition run_subprocess ::
    "spawner \<Rightarrow> pystr dict \<Rightarrow> pystr list \<Rightarrow> pyfloat \<Rightarrow> pystr dict \<Rightarrow> py_exc + outcome" where
  "run_subprocess spawn vars argv limit extra =
     res_bind (spawn argv (child_env vars extra) limit) (\<lambda>c.
       let (texts, timed_out) = (case ch_first c of
             Some t \<Rightarrow> (t, False)
           | None \<Rightarrow> (case ch_killed c of Some t \<Rightarrow> t | None \<Rightarrow> ([], []), True))
       in Inr \<lparr>o_exit = ch_code c, o_out = fst texts, o_err = snd texts, o_ms = ch_ms c, o_timed_out = timed_out\<rparr>)"

section \<open>Lemmas\<close>

lemma dget_fold_dset:
  "dget (fold (\<lambda>(k, v). dset k v) ps d) k =
     (case map_of (rev ps) k of Some v \<Rightarrow> Some v | None \<Rightarrow> dget d k)"
proof (induction ps arbitrary: d)
  case (Cons p ps)
  obtain k' v where p: "p = (k', v)" by (cases p)
  then show ?case
    by (auto simp: Cons.IH map_add_def dget_dset split: option.split)
qed simp

lemma dget_filter_key: "dget (filter (\<lambda>(k, v). P k) d) k = (if P k then dget d k else None)"
  by (induction d) auto

text \<open>A check inherits neither the learner's evidence directory nor the choice of the device.\<close>

lemma child_env_clean:
  "k \<in> set env_excludes \<Longrightarrow> dget (child_env vars extra) k = map_of (rev extra) k"
  by (simp add: child_env_def dget_fold_dset dget_filter_key split: option.split)

lemma required_match_none:
  "required_match search v text msg = Inr [] \<longleftrightarrow> (\<forall>p. v = JStr p \<longrightarrow> search p text = Inr True)"
  by (cases v) (auto simp: required_match_def res_bind_Inr split: if_splits)

lemma check_failed_nonempty: "check_failed fs \<noteq> []"
  by (simp add: check_failed_def)

text \<open>Failures collected over a list: none exactly when each element has none.\<close>

lemma res_map_all_nil:
  "res_bind (res_map f xs) (\<lambda>fss. Inr (a @ concat fss)) = Inr [] \<longleftrightarrow> a = [] \<and> (\<forall>x \<in> set xs. f x = Inr [])"
proof (induction xs)
  case (Cons x xs)
  show ?case
  proof (cases "f x")
    case (Inr fs)
    then show ?thesis using Cons by (cases "res_map f xs") auto
  qed simp
qed simp

lemma res_map_nil:
  "res_bind (res_map f xs) (\<lambda>fss. Inr (concat fss)) = Inr [] \<longleftrightarrow> (\<forall>x \<in> set xs. f x = Inr [])"
  using res_map_all_nil [of f xs "[]"] by simp

end
