(* ===== verification/Check_Progress.thy ===== *)
theory Check_Progress
  imports Check_Common
begin

text \<open>
  The check that the interview drill happened (\<open>learning/checks/progress_check.py\<close>), reading the
  progress file, and the snippet check (\<open>learning/checks/python_probe.py\<close>).
\<close>

section \<open>Counting interview answers\<close>

definition load_state :: "nat \<Rightarrow> nat \<Rightarrow> progress_file \<Rightarrow> obj" where
  "load_state cap depth pf = (case pf of
     Progress_file (ReadText t) \<Rightarrow> (case loads (builtin_int cap) depth t of Inr (JObj d) \<Rightarrow> d | _ \<Rightarrow> [])
   | _ \<Rightarrow> [])"

definition int_or_zero :: "json \<Rightarrow> int" where
  "int_or_zero v = (case as_int v of Some i \<Rightarrow> i | None \<Rightarrow> 0)"

definition answer_total :: "json \<Rightarrow> int" where
  "answer_total v = (case v of
     JObj r \<Rightarrow> int_or_zero (get_or (JInt 0) r f_correct) + int_or_zero (get_or (JInt 0) r f_incorrect)
   | _ \<Rightarrow> 0)"

definition interview_records :: "obj \<Rightarrow> json list" where
  "interview_records state = (case get_or JNull state k_interview of JObj d \<Rightarrow> map snd d | _ \<Rightarrow> [])"

definition answered_in :: "obj \<Rightarrow> int" where
  "answered_in state = sum_list (map answer_total (interview_records state))"

definition distinct_in :: "obj \<Rightarrow> nat" where
  "distinct_in state = length (filter (\<lambda>v. answer_total v \<noteq> 0) (interview_records state))"

text \<open>The count from which to measure; \<open>None\<close> if the lesson has never been opened.\<close>

definition baseline_in :: "obj \<Rightarrow> json \<Rightarrow> int option" where
  "baseline_in state since = (case since of
     JStr lid \<Rightarrow>
       (case get_or JNull state k_lessons of
          JObj ls \<Rightarrow>
            (case get_or JNull ls lid of
               JObj r \<Rightarrow> as_int (get_or JNull r f_baseline)
             | _ \<Rightarrow> None)
        | _ \<Rightarrow> None)
   | _ \<Rightarrow> Some 0)"

definition k_since_lesson :: pystr where "k_since_lesson = S ''since_lesson''"
definition k_min_answers :: pystr where "k_min_answers = S ''min_interview_answers''"

definition progress_check :: "cenv \<Rightarrow> progress_file \<Rightarrow> obj \<Rightarrow> py_exc + check_result" where
  "progress_check e pf args =
     res_bind (to_int e (get_or (JInt 1) args k_min_answers)) (\<lambda>minimum.
       let state = load_state (x_cap e) (x_depth e) pf;
           answered = answered_in state; questions = int (distinct_in state)
       in case baseline_in state (get_or JNull args k_since_lesson) of
            None \<Rightarrow> Inr \<lparr>r_name = S ''progress_check'', r_passed = False, r_exit = Some 1,
              r_stdout = S ''interview answers: '' @ dec_int answered @ S '' total'', r_stderr = [], r_duration = 0,
              r_interpretation = S ''Check failed: '' @ py_str (x_str e) (get_or JNull args k_since_lesson) @
                S '' has not been started, so there is no point to measure the drill from. '' @
                S ''Open the lesson, then do the drill.'',
              r_timed_out = False,
              r_details = [(S ''answers'', JInt answered), (S ''distinct_questions'', JInt questions)]\<rparr>
          | Some baseline \<Rightarrow>
              (let during = answered - baseline; passed = (minimum \<le> during)
               in Inr \<lparr>r_name = S ''progress_check'', r_passed = passed, r_exit = Some (if passed then 0 else 1),
                 r_stdout = S ''interview answers: '' @ dec_int answered @ S '' total across '' @ dec_int questions @
                   S '' questions, '' @ dec_int during @ S '' since this lesson began'', r_stderr = [], r_duration = 0,
                 r_interpretation =
                   (if passed
                    then success_note e args (dec_int during @ S '' interview answers recorded across '' @
                           dec_int questions @ S '' questions '' @ [8212] @ S '' the drill actually happened.'')
                    else S ''Check failed: '' @ dec_int during @
                      S '' interview answer(s) since you opened this lesson, '' @ dec_int minimum @
                      S '' required (answers before it do not count). Open Interview mode and submit answers '' @
                      [8212] @ S '' this lesson's objective is the drill itself, so it cannot be completed by '' @
                      S ''answering the quiz here.''),
                 r_timed_out = False,
                 r_details = [(S ''answers'', JInt answered), (S ''answers_during_lesson'', JInt during),
                   (S ''distinct_questions'', JInt questions)]\<rparr>))"

section \<open>Running a snippet\<close>

definition python_probe ::
    "cenv \<Rightarrow> spawner \<Rightarrow> pystr dict \<Rightarrow> pystr \<Rightarrow> obj \<Rightarrow> py_exc + check_result" where
  "python_probe e spawn vars python args = (case get_or JNull args (S ''snippet'') of
     JStr snippet \<Rightarrow>
       if py_strip snippet = [] then Inl ValueError
       else
         res_bind (to_int e (get_or (JInt 0) args (S ''expect_exit''))) (\<lambda>expected.
         res_bind (clamp_timeout (x_float e) args) (\<lambda>limit.
         res_bind (run_subprocess spawn vars [python, S ''-c'', snippet] limit []) (\<lambda>run.
         res_bind (required_match (x_search e) (get_or JNull args (S ''expect_stdout_regex'')) (o_out run)
                     (\<lambda>p. S ''stdout did not match '' @ matching p)) (\<lambda>absent.
         res_bind (forbidden_match (x_search e) (get_or JNull args (S ''forbid_stdout_regex'')) (o_out run)
                     (\<lambda>p. S ''stdout unexpectedly matched '' @ matching p)) (\<lambda>unwanted.
           let failures =
                 (if o_timed_out run then [S ''snippet did not finish within '' @ x_seconds e limit @ S ''s'']
                  else if o_exit run \<noteq> Some expected
                       then [S ''expected exit '' @ dec_int expected @ S '', got '' @ exit_text (o_exit run)]
                       else []) @ absent @ unwanted
           in Inr \<lparr>r_name = S ''python_probe'', r_passed = (failures = []), r_exit = o_exit run,
                r_stdout = truncate_output (o_out run), r_stderr = truncate_output (o_err run), r_duration = o_ms run,
                r_interpretation = (if failures = [] then success_note e args (S ''Snippet behaved as expected.'')
                                    else check_failed failures),
                r_timed_out = o_timed_out run, r_details = []\<rparr>)))))
   | _ \<Rightarrow> Inl ValueError)"

section \<open>When they pass\<close>

lemma progress_check_passes:
  assumes "progress_check e pf args = Inr r" and "to_int e (get_or (JInt 1) args k_min_answers) = Inr minimum"
  shows "r_passed r \<longleftrightarrow>
    (\<exists>b. baseline_in (load_state (x_cap e) (x_depth e) pf) (get_or JNull args k_since_lesson) = Some b \<and>
      minimum \<le> answered_in (load_state (x_cap e) (x_depth e) pf) - b)"
  using assms by (auto simp: progress_check_def Let_def split: option.splits)

end
