(* ===== verification/Check_Drill.thy ===== *)
theory Check_Drill
  imports Check_Progress
begin

text \<open>
  The drill check against the store it reads: the file the store has saved counts every answer, the
  baseline is fixed when the lesson is first opened, and so the check measures exactly the answers
  recorded since.
\<close>

section \<open>What a command leaves alone\<close>

text \<open>\<open>D\<close> is kept by an operation, whether or not it raises.\<close>

definition leaves :: "(pstore \<Rightarrow> bool) \<Rightarrow> 'a op \<Rightarrow> bool" where
  "leaves D m \<longleftrightarrow> (\<forall>s. D s \<longrightarrow> D (snd (m s)))"

lemma leaves_bind: "leaves D m \<Longrightarrow> (\<And>a. leaves D (f a)) \<Longrightarrow> leaves D (op_bind m f)"
  by (auto simp: leaves_def op_bind_def split: prod.split sum.split)

lemma leaves_then: "leaves D m \<Longrightarrow> leaves D k \<Longrightarrow> leaves D (op_then m k)"
  unfolding op_then_def by (rule leaves_bind)

lemma leaves_simps [simp]: "leaves D (op_return a)" "leaves D (op_lift r)" "leaves D (get_record lid)"
  "leaves D (get_field lid k)"
  by (auto simp: leaves_def op_return_def op_lift_def get_record_def get_field_def op_bind_def
      split: option.split)

lemma leaves_when: "leaves D m \<Longrightarrow> leaves D (op_when b m)"
  by (simp add: op_when_def)

lemma leaves_if: "leaves D m \<Longrightarrow> leaves D k \<Longrightarrow> leaves D (if b then m else k)"
  by simp

section \<open>An opened lesson\<close>

definition opened :: "progress \<Rightarrow> pystr \<Rightarrow> int \<Rightarrow> bool" where
  "opened st lid b \<longleftrightarrow> (\<exists>r. dget (p_lessons st) lid = Some r \<and>
     (\<exists>v. dget r f_started_at = Some v \<and> v \<noteq> JNull) \<and> dget r f_baseline = Some (JInt b))"

text \<open>The answers are \<open>rs\<close> and the lesson has been opened at \<open>b\<close> answers.\<close>

definition drill :: "obj dict \<Rightarrow> pystr \<Rightarrow> int \<Rightarrow> pstore \<Rightarrow> bool" where
  "drill rs lid b s \<longleftrightarrow> p_interview (mem s) = rs \<and> opened (mem s) lid b"

lemma leaves_drill_simps [simp]:
  "leaves (drill rs lid b) save" "leaves (drill rs lid b) (set_last x)" "leaves (drill rs lid b) (finish x)"
  by (auto simp: leaves_def drill_def opened_def save_def set_last_def finish_def op_then_def op_bind_def)

lemma fill_keeps: "dget r k = Some v \<Longrightarrow> dget (fold (\<lambda>(k, v). dsetdefault k v) ps r) k = Some v"
proof (induction ps arbitrary: r)
  case (Cons p ps)
  have "dget (dsetdefault (fst p) (snd p) r) k = Some v" using Cons.prems by (auto simp: dget_dsetdefault)
  from Cons.IH [OF this] show ?case by (simp add: case_prod_beta)
qed simp

lemma leaves_lesson_record: "leaves (drill rs lid b) (lesson_record lid')"
  unfolding leaves_def
proof (intro allI impI)
  fix s assume s: "drill rs lid b s"
  then obtain r v where r: "dget (p_lessons (mem s)) lid = Some r" "dget r f_started_at = Some v" "v \<noteq> JNull"
    "dget r f_baseline = Some (JInt b)" by (auto simp: drill_def opened_def)
  show "drill rs lid b (snd (lesson_record lid' s))"
    using s r fill_keeps [OF r(2)] fill_keeps [OF r(4)]
    by (auto simp: drill_def opened_def lesson_record_def Let_def put_record_def filled_record_def
        fill_template_def dget_dset)
qed

lemma leaves_set_field:
  "k \<noteq> f_started_at \<Longrightarrow> k \<noteq> f_baseline \<Longrightarrow> leaves (drill rs lid b) (set_field lid' k v)"
  by (auto simp: leaves_def drill_def opened_def set_field_def get_record_def op_bind_def put_record_def
      dget_dset split: option.split)

lemma leaves_update:
  "k \<noteq> f_started_at \<Longrightarrow> k \<noteq> f_baseline \<Longrightarrow> leaves (drill rs lid b) (update_field lid' k f)"
  unfolding update_field_def by (intro leaves_bind leaves_simps leaves_set_field)

lemma leaves_add:
  "k \<noteq> f_started_at \<Longrightarrow> k \<noteq> f_baseline \<Longrightarrow> leaves (drill rs lid b) (add_to_list lid' k x)"
  unfolding add_to_list_def by (intro leaves_bind leaves_simps leaves_when leaves_update)

lemma leaves_bump: "leaves (drill rs lid b) (bump_concepts now c cs)"
proof (induction cs)
  case (Cons x xs)
  have "leaves (drill rs lid b) (bump_concept now c x)"
    by (auto simp: leaves_def drill_def opened_def bump_concept_def Let_def split: sum.split)
  then show ?case by (simp add: leaves_then Cons)
qed simp

lemma drill_keys [simp]:
  "f_steps_done \<noteq> f_started_at" "f_steps_done \<noteq> f_baseline" "f_validations \<noteq> f_started_at" "f_validations \<noteq> f_baseline"
  "f_quiz_correct \<noteq> f_started_at" "f_quiz_correct \<noteq> f_baseline" "f_quiz_attempts \<noteq> f_started_at"
  "f_quiz_attempts \<noteq> f_baseline" "f_explain_done \<noteq> f_started_at" "f_explain_done \<noteq> f_baseline"
  "f_hints_used \<noteq> f_started_at" "f_hints_used \<noteq> f_baseline" "f_status \<noteq> f_started_at" "f_status \<noteq> f_baseline"
  "f_completed_at \<noteq> f_started_at" "f_completed_at \<noteq> f_baseline" "f_attempts \<noteq> f_started_at" "f_attempts \<noteq> f_baseline"
  "f_baseline \<noteq> f_started_at" "f_started_at \<noteq> f_baseline"
  by (simp_all add: field_defs)

lemmas leaves_rules = leaves_bind leaves_then leaves_when leaves_if leaves_simps leaves_drill_simps
  leaves_lesson_record leaves_set_field leaves_update leaves_add leaves_bump drill_keys

text \<open>Opening the lesson again leaves its baseline; opening another one is not its business.\<close>

lemma leaves_mark_started: "leaves (drill rs lid b) (mark_started now lid')"
proof (cases "lid' = lid")
  case False
  have other: "leaves (drill rs lid b) (set_field lid' k v)" for k v
    using False by (auto simp: leaves_def drill_def opened_def set_field_def get_record_def op_bind_def
        put_record_def dget_dset split: option.split)
  then have "leaves (drill rs lid b) (\<lambda>s. set_field lid' f_baseline (JInt (interview_total (mem s))) s)"
    by (simp add: leaves_def)
  note first = other this
  show ?thesis unfolding mark_started_def by (intro first leaves_rules)
next
  case True
  define rest where "rest = op_bind (get_field lid f_status) (\<lambda>status.
     op_then (op_when (status = JStr st_not_started) (set_field lid f_status (JStr st_in_progress)))
     (op_then (update_field lid f_attempts py_incr) (finish lid)))"
  have rest: "leaves (drill rs lid b) rest" unfolding rest_def by (intro leaves_rules)
  show ?thesis unfolding leaves_def
  proof (intro allI impI)
    fix s assume "drill rs lid b s"
    then have s1: "drill rs lid b (snd (lesson_record lid s))"
      using leaves_lesson_record unfolding leaves_def by blast
    obtain a where a: "lesson_record lid s = (Inr a, snd (lesson_record lid s))"
      by (simp add: lesson_record_def Let_def)
    obtain v where v: "get_field lid f_started_at (snd (lesson_record lid s)) = (Inr v, snd (lesson_record lid s))"
      "v \<noteq> JNull"
      using s1 by (auto simp: drill_def opened_def get_field_def get_record_def op_bind_def op_lift_def read_field_def)
    have "mark_started now lid s = rest (snd (lesson_record lid s))"
      unfolding mark_started_def rest_def [symmetric] op_bind_def [of "lesson_record lid"]
      by (subst a) (simp add: op_bind_def [of "get_field lid f_started_at"] v op_when_def op_then_def
          op_bind_def [of "op_return ()"] op_return_def)
    then show "drill rs lid b (snd (mark_started now lid' s))"
      using rest s1 True unfolding leaves_def by simp
  qed
qed

fun answers_interview :: "command \<Rightarrow> bool" where
  "answers_interview (Record_interview now q correct cs) = True"
| "answers_interview _ = False"

lemma leaves_perform:
  assumes "\<not> answers_interview cmd"
  shows "leaves (drill rs lid b) (perform cmd)"
proof (cases cmd)
  case (Record_hint l i)
  have "leaves (drill rs lid b) (record_hint l (int i))"
    unfolding record_hint_def Let_def by (intro leaves_rules)
  then show ?thesis using Record_hint by (simp add: ignore_def leaves_bind)
next
  case (Record_validation now l v p m cs h)
  have "leaves (drill rs lid b) (record_validation now l v p m cs h)"
    unfolding record_validation_def by (intro leaves_rules)
  then show ?thesis using Record_validation by simp
next
  case (Mark_complete now l cur)
  have "leaves (drill rs lid b) (op_bind (lesson_record (l_id l)) (\<lambda>_.
            op_then (set_field (l_id l) f_status (JStr st_complete))
            (op_then (set_field (l_id l) f_completed_at (JStr now))
            (op_then save (op_return (True, []))))))" by (intro leaves_rules)
  then have "leaves (drill rs lid b) (mark_complete now l cur)"
    by (auto simp: leaves_def mark_complete_def split: sum.split prod.split)
  then show ?thesis using Mark_complete by (simp add: ignore_def leaves_bind)
next
  case (Record_quiz now l q c cs)
  have "leaves (drill rs lid b) (record_quiz now l q c cs)" unfolding record_quiz_def by (intro leaves_rules)
  then show ?thesis using Record_quiz by simp
next
  case (Record_explain now l x p cs)
  have "leaves (drill rs lid b) (record_explain now l x p cs)" unfolding record_explain_def by (intro leaves_rules)
  then show ?thesis using Record_explain by simp
next
  case (Record_step l x)
  have "leaves (drill rs lid b) (record_step l x)" unfolding record_step_def by (intro leaves_rules)
  then show ?thesis using Record_step by simp
qed (use assms leaves_mark_started in simp_all)

section \<open>Counting answers\<close>

definition entry_total :: "obj \<Rightarrow> int" where
  "entry_total e = entry_count e f_correct + entry_count e f_incorrect"

lemma interview_total_alt: "interview_total st = sum_list (map (\<lambda>p. entry_total (snd p)) (p_interview st))"
  by (simp add: interview_total_def entry_total_def case_prod_unfold)

lemma sum_dset:
  "dict_ok d \<Longrightarrow> sum_list (map (\<lambda>p. f (snd p)) (dset k v d)) =
     sum_list (map (\<lambda>p. f (snd p)) d) - (case dget d k of None \<Rightarrow> 0 | Some w \<Rightarrow> f w) + (f v :: int)"
proof (induction d)
  case (Cons p d)
  obtain k' w where p: "p = (k', w)" by (cases p)
  show ?case
  proof (cases "k' = k")
    case True
    then show ?thesis by (simp add: p dset_def)
  next
    case False
    have "dict_ok d" using Cons.prems by (simp add: dict_ok_def dkeys_def)
    from Cons.IH [OF this] show ?thesis using False by (simp add: p dset_def)
  qed
qed (simp add: dset_def)

lemma entry_total_step:
  assumes e: "interview_ok e" and i: "dget e k = Some (JInt i)" and k: "k = (if correct then f_correct else f_incorrect)"
  shows "entry_total (dset f_streak m (dset k (JInt (i + 1)) e)) = entry_total e + 1"
proof -
  obtain x y where "dget e f_correct = Some (JInt x)" "dget e f_incorrect = Some (JInt y)"
    using e by (auto simp: interview_ok_def counts_ok_def)
  then show ?thesis using i
    by (cases correct) (auto simp: entry_total_def entry_count_def get_or_def k dget_dset)
qed

text \<open>An answer counts once and touches no lesson.\<close>

lemma leaves_interview: "leaves (\<lambda>s. p_interview (mem s) = rs \<and> p_lessons (mem s) = ls) (bump_concepts now c cs)"
proof (induction cs)
  case (Cons x xs)
  have "leaves (\<lambda>s. p_interview (mem s) = rs \<and> p_lessons (mem s) = ls) (bump_concept now c x)"
    by (auto simp: leaves_def bump_concept_def Let_def split: sum.split)
  then show ?case by (simp add: leaves_then Cons)
qed simp

lemma answer_counts:
  assumes s: "typed_store L s"
  shows "interview_total (mem (snd (record_interview now q correct cs s))) = interview_total (mem s) + 1 \<and>
    p_lessons (mem (snd (record_interview now q correct cs s))) = p_lessons (mem s)"
proof -
  define e where "e = (case dget (p_interview (mem s)) q of None \<Rightarrow> empty_interview | Some e \<Rightarrow> e)"
  define k where "k = (if correct then f_correct else f_incorrect)"
  obtain i m where e: "interview_ok e" and i: "dget e k = Some (JInt i)"
    and run: "record_interview now q correct cs s =
      op_then (op_when (cs \<noteq> []) (bump_concepts now correct cs)) save
        (snd (set_interview q (dset f_streak (JInt m) (dset k (JInt (i + 1)) e))
          (snd (set_interview q (dset k (JInt (i + 1)) e) (snd (set_interview q e s))))))"
    using record_interview_run [OF s e_def k_def] by blast
  let ?e2 = "dset f_streak (JInt m) (dset k (JInt (i + 1)) e)"
  let ?rs = "dset q ?e2 (p_interview (mem s))"
  let ?Q = "\<lambda>s'. p_interview (mem s') = ?rs \<and> p_lessons (mem s') = p_lessons (mem s)"
  have dset3: "dset q a (dset q b (dset q c d)) = dset q a d" for a b c :: obj and d
    unfolding dset_def by (induction d) auto
  have "leaves ?Q (op_then (op_when (cs \<noteq> []) (bump_concepts now correct cs)) save)"
    by (intro leaves_then leaves_when leaves_interview) (simp add: leaves_def save_def)
  then have Q: "?Q (snd (record_interview now q correct cs s))"
    unfolding run leaves_def by (elim allE impE) (auto simp: set_interview_def dset3)
  have "dict_ok (p_interview (mem s))" using s by (simp add: typed_store_def typed_state_def)
  from sum_dset [OF this, of entry_total q ?e2]
  have "sum_list (map (\<lambda>p. entry_total (snd p)) ?rs) =
      sum_list (map (\<lambda>p. entry_total (snd p)) (p_interview (mem s))) -
      (case dget (p_interview (mem s)) q of None \<Rightarrow> 0 | Some w \<Rightarrow> entry_total w) + (entry_total e + 1)"
    by (simp add: entry_total_step [OF e i k_def])
  moreover have "(case dget (p_interview (mem s)) q of None \<Rightarrow> 0 | Some w \<Rightarrow> entry_total w) = entry_total e"
    by (auto simp: e_def entry_total_def empty_interview_def entry_count_def get_or_def
        split: option.split)
  ultimately show ?thesis using Q by (simp add: interview_total_alt)
qed

definition answers_in :: "command list \<Rightarrow> nat" where
  "answers_in cmds = length (filter answers_interview cmds)"

lemma perform_counts:
  assumes s: "healthy s" and o': "opened (mem s) lid b"
  shows "interview_total (mem (snd (perform cmd s))) =
      interview_total (mem s) + (if answers_interview cmd then 1 else 0) \<and>
    opened (mem (snd (perform cmd s))) lid b"
proof (cases "answers_interview cmd")
  case True
  then obtain now q c cs where "cmd = Record_interview now q c cs" by (cases cmd) auto
  then show ?thesis using answer_counts [of "{}" s now q c cs] s o' by (simp add: healthy_def opened_def)
next
  case False
  have "drill (p_interview (mem s)) lid b s" using o' by (simp add: drill_def)
  then have "drill (p_interview (mem s)) lid b (snd (perform cmd s))"
    using leaves_perform [OF False] unfolding leaves_def by blast
  then show ?thesis using False by (simp add: drill_def interview_total_def)
qed

lemma run_counts:
  "healthy s \<Longrightarrow> opened (mem s) lid b \<Longrightarrow>
     interview_total (mem (run cmds s)) = interview_total (mem s) + int (answers_in cmds) \<and>
     opened (mem (run cmds s)) lid b"
proof (induction cmds arbitrary: s)
  case (Cons cmd cmds)
  have "healthy (snd (perform cmd s))"
    using returns_perform [of cmd] Cons.prems(1) unfolding returns_def by (metis snd_conv)
  from Cons.IH [OF this conjunct2 [OF perform_counts [OF Cons.prems]]] perform_counts [OF Cons.prems]
  show ?case by (auto simp: answers_in_def)
qed (simp add: answers_in_def)

section \<open>Opening the lesson\<close>

text \<open>Never opened: no record, or one without a start time.\<close>

definition unopened :: "progress \<Rightarrow> pystr \<Rightarrow> bool" where
  "unopened st lid \<longleftrightarrow> (case dget (p_lessons st) lid of None \<Rightarrow> True | Some r \<Rightarrow> dget r f_started_at = Some JNull)"

lemma mark_started_opens:
  assumes s: "healthy s" and u: "unopened (mem s) lid"
  shows "opened (mem (snd (mark_started now lid s))) lid (interview_total (mem s)) \<and>
    p_interview (mem (snd (mark_started now lid s))) = p_interview (mem s)"
proof -
  obtain r s1 where r: "lesson_record lid s = (Inr r, s1)" "dget (p_lessons (mem s1)) lid = Some r"
    "p_interview (mem s1) = p_interview (mem s)" "dget r f_started_at = Some JNull"
  proof (cases "dget (p_lessons (mem s)) lid")
    case None
    have "lesson_record lid s = (Inr empty_lesson_record, snd (lesson_record lid s))"
      using lesson_record_new [OF None] by (metis prod.collapse)
    from that [OF this lesson_record_put [OF this]] show ?thesis
      by (simp add: lesson_record_def Let_def put_record_def empty_lesson_record_def field_defs)
  next
    case (Some r)
    then have "full_record r" using s by (auto simp: healthy_def typed_store_def)
    from lesson_record_same [OF Some this] show ?thesis
      using that Some u by (auto simp: unopened_def)
  qed
  define rest where "rest = op_bind (get_field lid f_status) (\<lambda>status.
     op_then (op_when (status = JStr st_not_started) (set_field lid f_status (JStr st_in_progress)))
     (op_then (update_field lid f_attempts py_incr) (finish lid)))"
  define s2 where "s2 = s1\<lparr>mem := (mem s1)\<lparr>p_lessons := dset lid
      (dset f_baseline (JInt (interview_total (mem s))) (dset f_started_at (JStr now) r)) (p_lessons (mem s1))\<rparr>\<rparr>"
  have total: "interview_total (mem s1) = interview_total (mem s)" using r(3) by (simp add: interview_total_def)
  have "mark_started now lid s = rest s2"
    unfolding mark_started_def rest_def [symmetric]
    using r total
    by (simp add: op_bind_def op_then_def get_field_def get_record_def op_lift_def read_field_def op_when_def
        set_field_def put_record_def dget_dset interview_total_def s2_def)
  moreover have "drill (p_interview (mem s)) lid (interview_total (mem s)) s2"
    using r(3) by (simp add: drill_def opened_def s2_def dget_dset)
  moreover have "leaves (drill (p_interview (mem s)) lid (interview_total (mem s))) rest"
    unfolding rest_def by (intro leaves_rules)
  ultimately show ?thesis by (simp add: leaves_def drill_def)
qed

section \<open>The saved file\<close>

definition saved_file :: "(pyfloat \<Rightarrow> pystr) \<Rightarrow> pstore \<Rightarrow> progress_file" where
  "saved_file fr s = Progress_file (ReadText (dumps_indent2 fr (state_json (mem s))))"

lemma load_saved:
  assumes "plain (builtin_int cap) (state_json (mem s))" and "wf_json (state_json (mem s))"
    and "containers (state_json (mem s)) \<le> depth"
  shows "load_state cap depth (saved_file fr s) = canon_obj (state_fields (mem s) @ p_other (mem s))"
  using loads_dumps_indent2 [OF assms]
  by (simp add: load_state_def saved_file_def state_json_fields canon_JObj del: canon.simps)

lemma answer_total_canon: "interview_ok e \<Longrightarrow> dict_ok e \<Longrightarrow> answer_total (JObj (canon_obj e)) = entry_total e"
  by (auto simp: answer_total_def get_or_def dget_canon_obj interview_ok_def counts_ok_def entry_total_def
      entry_count_def int_or_zero_def)

lemma sum_list_sort: "sum_list (map f (sort_key g xs)) = (sum_list (map f xs) :: int)"
  by (metis mset_map mset_sort sum_mset_sum_list)

lemma saved_section:
  assumes "wf_json (state_json st)" and "dget (state_fields st @ p_other st) k = Some (section_json rs)"
  shows "get_or JNull (canon_obj (state_fields st @ p_other st)) k = section_json (canon_section rs)"
proof -
  have "dict_ok (state_fields st @ p_other st)" using assms(1) by (simp add: state_json_fields)
  from dget_canon_obj [OF this, of k] show ?thesis
    using assms(2) by (simp add: get_or_def section_json_canon del: map_of_append canon.simps)
qed

lemma answered_saved:
  assumes "plain (builtin_int cap) (state_json (mem s))" and wf: "wf_json (state_json (mem s))"
    and "containers (state_json (mem s)) \<le> depth" and full: "full_state (mem s)"
  shows "answered_in (load_state cap depth (saved_file fr s)) = interview_total (mem s)"
proof -
  let ?rs = "p_interview (mem s)"
  have wfs: "wf_json (section_json ?rs)" using wf by (auto simp: state_json_fields state_fields_def)
  then have ok: "dict_ok ?rs" by (simp add: section_json_def)
  have each: "answer_total (JObj (canon_obj e)) = entry_total e" if "(k, e) \<in> set ?rs" for k e
  proof -
    have get: "dget ?rs k = Some e" using that ok by (simp add: dset_in)
    have "interview_ok e" using full get by (auto simp: full_state_def typed_state_def)
    moreover have "dict_ok e" using wf_section_get [OF wfs get] by simp
    ultimately show ?thesis by (rule answer_total_canon)
  qed
  have "interview_records (load_state cap depth (saved_file fr s)) = map (\<lambda>(k, r). JObj r) (canon_section ?rs)"
    unfolding load_saved [OF assms(1-3)] interview_records_def saved_section [OF wf dget_state_fields(5)]
    by (simp add: section_json_def case_prod_unfold)
  then have "answered_in (load_state cap depth (saved_file fr s)) =
      sum_list (map (\<lambda>p. answer_total (JObj (canon_obj (snd p)))) ?rs)"
    by (simp add: answered_in_def canon_section_def sum_list_sort comp_def case_prod_unfold)
  also have "\<dots> = sum_list (map (\<lambda>p. entry_total (snd p)) ?rs)"
    by (rule arg_cong [of _ _ sum_list], rule map_cong) (auto simp: each)
  finally show ?thesis by (simp add: interview_total_alt)
qed

lemma baseline_saved:
  assumes "plain (builtin_int cap) (state_json (mem s))" and wf: "wf_json (state_json (mem s))"
    and "containers (state_json (mem s)) \<le> depth" and "opened (mem s) lid b"
  shows "baseline_in (load_state cap depth (saved_file fr s)) (JStr lid) = Some b"
proof -
  let ?ls = "p_lessons (mem s)"
  obtain r where r: "dget ?ls lid = Some r" "dget r f_baseline = Some (JInt b)"
    using assms(4) by (auto simp: opened_def)
  have wfs: "wf_json (section_json ?ls)" using wf by (auto simp: state_json_fields state_fields_def)
  then have ok: "dict_ok ?ls" by (simp add: section_json_def)
  have "dict_ok r" using wf_section_get [OF wfs r(1)] by simp
  then have base: "get_or JNull (canon_obj r) f_baseline = JInt b" using r(2) by (simp add: get_or_def dget_canon_obj)
  have "get_or JNull (map (\<lambda>(k, r). (k, JObj r)) (canon_section ?ls)) lid = JObj (canon_obj r)"
    using dget_canon_section [OF ok, of lid] r(1) by (simp add: get_or_def dget_map_snd)
  with base show ?thesis
    unfolding load_saved [OF assms(1-3)] baseline_in_def saved_section [OF wf dget_state_fields(3)]
    by (simp add: section_json_def)
qed

section \<open>The check\<close>

text \<open>
  C25: The drill check passes exactly when enough answers were recorded since the lesson was opened:
  for every store that is opened on the lesson for the first time and then commanded in any way, and
  whose saved file the check reads back.  Answers from before, and opening the lesson again, do not
  count.
\<close>

theorem drill_check_exact:
  assumes "reachable fresh_store progress_step s" and "unopened (mem s) lid"
    and "t = run (Mark_started now lid # cmds) s"
    and "plain (builtin_int (x_cap e)) (state_json (mem t))" and "containers (state_json (mem t)) \<le> x_depth e"
    and "get_or JNull args k_since_lesson = JStr lid" and "to_int e (get_or (JInt 1) args k_min_answers) = Inr minimum"
  shows "\<exists>r. progress_check e (saved_file fr t) args = Inr r \<and> (r_passed r \<longleftrightarrow> minimum \<le> int (answers_in cmds))"
proof -
  have h: "healthy s" by (rule reachable_full(2) [OF assms(1)])
  let ?s1 = "snd (mark_started now lid s)"
  have t: "t = run cmds ?s1" using assms(3) by simp
  have tr: "reachable fresh_store progress_step t" using reachable_run [OF assms(1), of "Mark_started now lid # cmds"] assms(3) by simp
  have wf: "wf_json (state_json (mem t))" using store_wf.inv_reachable [OF tr] by (simp add: wf_store_def)
  have h1: "healthy ?s1"
    using returns_perform [of "Mark_started now lid"] h unfolding returns_def by (metis perform.simps(1) snd_conv)
  note opens = mark_started_opens [OF h assms(2), of now]
  have total: "interview_total (mem ?s1) = interview_total (mem s)"
    using opens by (simp add: interview_total_def)
  note counts = run_counts [OF h1 conjunct1 [OF opens], of cmds, folded t]
  have "answered_in (load_state (x_cap e) (x_depth e) (saved_file fr t)) = interview_total (mem t)"
    by (rule answered_saved [OF assms(4) wf assms(5) reachable_full(1) [OF tr]])
  moreover have "baseline_in (load_state (x_cap e) (x_depth e) (saved_file fr t)) (JStr lid) = Some (interview_total (mem s))"
    by (rule baseline_saved [OF assms(4) wf assms(5) conjunct2 [OF counts]])
  ultimately show ?thesis
    using counts total assms(6,7) by (simp add: progress_check_def Let_def)
qed

definition drill_args :: obj where
  "drill_args = [(k_since_lesson, JStr (S ''d'')), (k_min_answers, JInt 2)]"

definition one_answer :: "command list" where
  "one_answer = [Record_interview (S ''t'') (S ''q'') True [], Mark_started (S ''u'') (S ''d'')]"

definition drill_end :: progress where
  "drill_end = empty_state\<lparr>p_last := JStr (S ''d''),
     p_lessons := [(S ''d'', dset f_status (JStr st_in_progress) (dset f_started_at (JStr (S ''t''))
       (dset f_attempts (JInt 2) empty_lesson_record)))],
     p_interview := [(S ''q'', [(f_correct, JInt 1), (f_incorrect, JInt 0), (f_streak, JInt 1)])]\<rparr>"

lemma drill_end_reached:
  "mem (run (Mark_started (S ''t'') (S ''d'') # one_answer) new_store) = drill_end"
  by code_simp

lemma drill_end_json:
  "plain (builtin_int 4300) (state_json drill_end) \<and> containers (state_json drill_end) \<le> 100"
proof -
  have ints: "builtin_int 4300 (dec_int 0) = Inr 0" "builtin_int 4300 (dec_int 1) = Inr 1" "builtin_int 4300 (dec_int 2) = Inr 2"
    by (simp_all add: builtin_int_def dec_int_def dec_nat.simps lstrip_by_def int_of_token_def digits_val_def)
  show ?thesis
    by (simp add: drill_end_def state_json_def section_json_def empty_state_def STATE_VERSION_def empty_lesson_record_def
        dset_def field_defs state_key_defs status_defs ints str_ok_literal)
qed

theorem drill_check_exact_witness:
  "\<exists>r. progress_check plain_cenv
      (saved_file (\<lambda>_. []) (run (Mark_started (S ''t'') (S ''d'') # one_answer) new_store)) drill_args = Inr r \<and>
    \<not> r_passed r"
proof -
  have "\<exists>r. progress_check plain_cenv
      (saved_file (\<lambda>_. []) (run (Mark_started (S ''t'') (S ''d'') # one_answer) new_store)) drill_args = Inr r \<and>
    (r_passed r \<longleftrightarrow> (2 :: int) \<le> int (answers_in one_answer))"
  proof (rule drill_check_exact [OF new_store_reachable _ refl, where e = plain_cenv and lid = "S ''d''"])
    show "unopened (mem new_store) (S ''d'')" by (simp add: unopened_def new_store_def empty_state_def)
    show "plain (builtin_int (x_cap plain_cenv)) (state_json (mem (run (Mark_started (S ''t'') (S ''d'') # one_answer) new_store)))"
      unfolding drill_end_reached using drill_end_json by (simp add: plain_cenv_def)
    show "containers (state_json (mem (run (Mark_started (S ''t'') (S ''d'') # one_answer) new_store))) \<le> x_depth plain_cenv"
      unfolding drill_end_reached using drill_end_json by (simp add: plain_cenv_def)
    show "get_or JNull drill_args k_since_lesson = JStr (S ''d'')" by (simp add: drill_args_def get_or_def)
    show "to_int plain_cenv (get_or (JInt 1) drill_args k_min_answers) = Inr 2"
      by (simp add: drill_args_def get_or_def k_since_lesson_def k_min_answers_def to_int_def py_int_def)
  qed
  then show ?thesis by (simp add: answers_in_def one_answer_def)
qed

end
