(* ===== verification/Python_Syntax.thy ===== *)
theory Python_Syntax
  imports Check_Common
begin

text \<open>
  Python's syntax trees as the source checks see them (\<open>learning/checks/source_check.py\<close> with the
  standard module \<open>ast\<close>): a constructor for each class of node the code looks at, and one for all
  others, which have children only.  Contexts (\<open>Load\<close>, \<open>Store\<close>) carry nothing and are left out.
\<close>

datatype const = C_str pystr | C_bool bool | C_other

datatype ast =
    Name pystr nat                                  \<comment> \<open>\<open>id\<close>, \<open>lineno\<close>\<close>
  | Attribute ast pystr                             \<comment> \<open>\<open>value\<close>, \<open>attr\<close>\<close>
  | Constant const
  | Call ast "ast list" "ast list"                  \<comment> \<open>\<open>func\<close>, \<open>args\<close>, \<open>keywords\<close>\<close>
  | Keyword "pystr option" ast                      \<comment> \<open>\<open>arg\<close>, \<open>value\<close>\<close>
  | Assign "ast list" ast                           \<comment> \<open>\<open>targets\<close>, \<open>value\<close>\<close>
  | With_stmt "ast list" "ast list"                 \<comment> \<open>\<open>items\<close>, \<open>body\<close>; also \<open>AsyncWith\<close>\<close>
  | Withitem ast "ast list"                         \<comment> \<open>\<open>context_expr\<close>, \<open>optional_vars\<close> if there\<close>
  | If_stmt ast "ast list" "ast list"               \<comment> \<open>\<open>test\<close>, \<open>body\<close>, \<open>orelse\<close>\<close>
  | Function_def bool pystr "pystr list" ast "ast list" "ast list" "ast list"
      \<comment> \<open>async?, \<open>name\<close>, the names in \<open>args.args\<close>, \<open>args\<close>, \<open>body\<close>, \<open>decorator_list\<close>, the rest\<close>
  | Other_node "ast list"

text \<open>\<open>ast.iter_child_nodes\<close>\<close>

fun child_nodes :: "ast \<Rightarrow> ast list" where
  "child_nodes (Name x l) = []"
| "child_nodes (Attribute v a) = [v]"
| "child_nodes (Constant c) = []"
| "child_nodes (Call f xs ks) = f # xs @ ks"
| "child_nodes (Keyword k v) = [v]"
| "child_nodes (Assign ts v) = ts @ [v]"
| "child_nodes (With_stmt items body) = items @ body"
| "child_nodes (Withitem c vars) = c # vars"
| "child_nodes (If_stmt test body orelse) = test # body @ orelse"
| "child_nodes (Function_def async name params args body decorators rest) = args # body @ decorators @ rest"
| "child_nodes (Other_node xs) = xs"

definition weight :: "ast list \<Rightarrow> nat" where
  "weight q = sum_list (map (\<lambda>a. Suc (size a)) q)"

lemma weight_simps [simp]:
  "weight [] = 0" "weight (a # q) = Suc (size a) + weight q" "weight (p @ q) = weight p + weight q"
  by (simp_all add: weight_def)

lemma weight_size_list: "size_list size q = weight q"
  by (induction q) simp_all

lemma weight_children: "weight (child_nodes a) \<le> size a"
  by (cases a) (simp_all add: weight_size_list)

lemma weight_member: "a \<in> set q \<Longrightarrow> size a < weight q"
  by (induction q) auto

lemma child_size: "c \<in> set (child_nodes a) \<Longrightarrow> size c < size a"
  using weight_member [of c "child_nodes a"] weight_children [of a] by simp

text \<open>\<open>ast.walk\<close>: breadth first, from a queue.\<close>

function walk_queue :: "ast list \<Rightarrow> ast list" where
  "walk_queue [] = []"
| "walk_queue (a # q) = a # walk_queue (q @ child_nodes a)"
  by pat_completeness auto
termination by (relation "measure weight") (simp_all add: weight_children le_imp_less_Suc)

definition walk :: "ast \<Rightarrow> ast list" where
  "walk a = walk_queue [a]"

text \<open>The nodes of a tree.\<close>

inductive node_of :: "ast \<Rightarrow> ast \<Rightarrow> bool" where
  itself: "node_of a a"
| below: "c \<in> set (child_nodes a) \<Longrightarrow> node_of x c \<Longrightarrow> node_of x a"

inductive_cases node_ofE: "node_of x a"

lemma node_of_iff: "node_of x a \<longleftrightarrow> x = a \<or> (\<exists>c \<in> set (child_nodes a). node_of x c)"
  by (auto intro: node_of.intros elim: node_ofE)

lemma set_walk_queue: "set (walk_queue q) = {x. \<exists>a \<in> set q. node_of x a}"
proof (induction q rule: walk_queue.induct)
  case (2 a q)
  have "x \<in> {x. \<exists>b \<in> set (a # q). node_of x b} \<longleftrightarrow>
      x \<in> insert a {x. \<exists>b \<in> set (q @ child_nodes a). node_of x b}" for x
    using node_of_iff [of x a] by auto
  then have "{x. \<exists>b \<in> set (a # q). node_of x b} = insert a {x. \<exists>b \<in> set (q @ child_nodes a). node_of x b}"
    by (rule set_eqI)
  then show ?case by (simp only: walk_queue.simps list.set(2) 2)
qed simp

text \<open>The walk visits exactly the nodes of the tree.\<close>

lemma set_walk: "set (walk a) = {x. node_of x a}"
  using set_walk_queue [of "[a]"] by (simp add: walk_def del: walk_queue.simps)

lemma walk_not_empty [simp]: "walk a \<noteq> []"
  by (simp add: walk_def)

section \<open>Names\<close>

text \<open>\<open>getattr(n, "attr", None) or getattr(n, "id", None)\<close>, empty if neither is there.\<close>

fun node_text :: "ast \<Rightarrow> pystr" where
  "node_text (Name x l) = x"
| "node_text (Attribute v a) = a"
| "node_text _ = []"

definition contains :: "pystr \<Rightarrow> pystr \<Rightarrow> bool" where
  "contains x s \<longleftrightarrow> list_ex (\<lambda>i. starts_with x (drop i s)) [0..<Suc (length s)]"

fun fun_name :: "ast \<Rightarrow> pystr option" where
  "fun_name (Function_def async name params args body decorators rest) = Some name"
| "fun_name _ = None"

fun decorators :: "ast \<Rightarrow> ast list" where
  "decorators (Function_def async name params args body ds rest) = ds"
| "decorators _ = []"

fun_cases fun_name_SomeE: "fun_name a = Some n"

end
