(* ===== verification/Check_Source.thy ===== *)
theory Check_Source
  imports Python_Syntax
begin

text \<open>
  The source checks (\<open>learning/checks/source_check.py\<close>): which functions carry a requirement marker,
  whether a function creates its lock file exclusively, whether a branch touches a variable outside a
  lock, and \<open>run\<close>, which turns the rules of a lesson into a verdict.
\<close>

section \<open>Files of the repository\<close>

record repo =
  rp_root :: "pystr list"
  rp_resolve :: "pystr \<Rightarrow> pystr list"
  rp_exists :: "pystr list \<Rightarrow> bool"
  rp_is_file :: "pystr list \<Rightarrow> bool"
  rp_read :: "pystr list \<Rightarrow> pystr + pystr"     \<comment> \<open>the text of the \<open>OSError\<close>, or of the file\<close>

definition resolve_repo_path :: "repo \<Rightarrow> pystr \<Rightarrow> py_exc + pystr list" where
  "resolve_repo_path rp relative =
     (let candidate = rp_resolve rp relative
      in if take (length (rp_root rp)) candidate = rp_root rp then Inr candidate else Inl ValueError)"

text \<open>The text, and the failure to report if there is one.\<close>

definition read_artifact :: "repo \<Rightarrow> pystr list \<Rightarrow> pystr \<Rightarrow> pystr \<times> pystr" where
  "read_artifact rp target relative =
     (if \<not> rp_exists rp target then ([], relative @ S '' does not exist'')
      else if \<not> rp_is_file rp target then ([], relative @ S '' is not a file (it is a directory)'')
      else (case rp_read rp target of
              Inr text \<Rightarrow> (text, [])
            | Inl why \<Rightarrow> ([], relative @ S '' could not be read: '' @ why)))"

section \<open>Requirement markers\<close>

fun decorator_text :: "ast \<Rightarrow> pystr list" where
  "decorator_text (Name x l) = [x]"
| "decorator_text (Attribute v a) = [a]"
| "decorator_text _ = []"

definition decorator_names :: "ast \<Rightarrow> pystr list" where
  "decorator_names f = concat (map (\<lambda>d. concat (map decorator_text (walk d))) (decorators f))"

definition k_mark :: pystr where "k_mark = S ''mark''"
definition k_requirement :: pystr where "k_requirement = S ''requirement''"

fun is_requirement_call :: "pystr \<Rightarrow> ast \<Rightarrow> bool" where
  "is_requirement_call requirement (Call (Attribute (Attribute v m) r) xs ks) =
     (r = k_requirement \<and> m = k_mark \<and> Constant (C_str requirement) \<in> set xs)"
| "is_requirement_call requirement _ = False"

definition is_marked :: "pystr \<Rightarrow> ast \<Rightarrow> bool" where
  "is_marked requirement f \<longleftrightarrow>
     list_ex (\<lambda>d. list_ex (is_requirement_call requirement) (walk d)) (decorators f)"

definition function_defs :: "ast \<Rightarrow> ast list" where
  "function_defs tree = filter (\<lambda>n. fun_name n \<noteq> None) (walk tree)"

definition marked_functions :: "ast \<Rightarrow> pystr \<Rightarrow> pystr list" where
  "marked_functions tree requirement =
     map (\<lambda>n. the (fun_name n)) (filter (is_marked requirement) (function_defs tree))"

section \<open>Exclusive creation\<close>

definition module_names :: "pystr list" where
  "module_names = [S ''os'', S ''pathlib'', S ''shutil'']"

fun is_module_reference :: "ast \<Rightarrow> bool" where
  "is_module_reference (Name x l) = (x \<in> set module_names)"
| "is_module_reference _ = False"

fun is_name :: "ast \<Rightarrow> bool" where
  "is_name (Name x l) = True"
| "is_name _ = False"

fun names_lock_path :: "pystr list \<Rightarrow> ast option \<Rightarrow> bool" where
  "names_lock_path names (Some (Attribute v a)) = (a \<in> set names \<and> is_name v)"
| "names_lock_path names (Some (Name x l)) = (x \<in> set names)"
| "names_lock_path names _ = False"

text \<open>The targets of an assignment that \<open>_lock_path_names\<close> adds.\<close>

fun bound_names :: "ast \<Rightarrow> pystr list" where
  "bound_names (Attribute v a) = [a]"
| "bound_names (Name x l) = [x]"
| "bound_names _ = []"

definition uses_any :: "pystr list \<Rightarrow> ast \<Rightarrow> bool" where
  "uses_any params v \<longleftrightarrow> list_ex (\<lambda>n. case n of Name x l \<Rightarrow> x \<in> set params | _ \<Rightarrow> False) (walk v)"

text \<open>The names an \<open>__init__\<close> contributes: its path parameters and what is assigned from them.\<close>

fun init_names :: "(pystr \<Rightarrow> pystr) \<Rightarrow> ast \<Rightarrow> pystr list" where
  "init_names lower (Function_def async name params args body ds rest) =
     (let paths = filter (\<lambda>p. contains (S ''path'') (lower p)) params
      in if async \<or> name \<noteq> S ''__init__'' \<or> paths = [] then []
         else paths @ concat (map (\<lambda>st. case st of
                Assign ts v \<Rightarrow> if uses_any paths v then concat (map bound_names ts) else []
              | _ \<Rightarrow> []) (walk (Function_def async name params args body ds rest))))"
| "init_names lower _ = []"

fun alias_names :: "pystr list \<Rightarrow> ast list \<Rightarrow> pystr list" where
  "alias_names names [] = names"
| "alias_names names (st # sts) =
     alias_names (case st of
         Assign ts v \<Rightarrow> if names_lock_path names (Some v)
                       then names @ concat (map (\<lambda>t. case t of Name x l \<Rightarrow> [x] | _ \<Rightarrow> []) ts) else names
       | _ \<Rightarrow> names) sts"

definition lock_path_names :: "(pystr \<Rightarrow> pystr) \<Rightarrow> ast \<Rightarrow> ast \<Rightarrow> pystr list" where
  "lock_path_names lower tree f = alias_names (concat (map (init_names lower) (walk tree))) (walk f)"

fun keyword_value :: "pystr list \<Rightarrow> ast \<Rightarrow> ast list" where
  "keyword_value ks (Keyword (Some k) v) = (if k \<in> set ks then [v] else [])"
| "keyword_value ks _ = []"

definition exist_ok_is :: "bool \<Rightarrow> ast list \<Rightarrow> bool" where
  "exist_ok_is b ks \<longleftrightarrow> list_ex (\<lambda>k. keyword_value [S ''exist_ok''] k = [Constant (C_bool b)]) ks"

text \<open>The function's name, and the expression that should be the lock file.\<close>

definition call_name :: "ast \<Rightarrow> pystr" where
  "call_name f = node_text f"

definition path_methods :: "pystr list" where
  "path_methods = [S ''touch'', S ''mkdir'', S ''open'']"

definition receiver :: "ast \<Rightarrow> ast option" where
  "receiver f = (case f of Attribute v a \<Rightarrow> Some v | _ \<Rightarrow> None)"

definition first_of :: "'a list \<Rightarrow> 'a option" where
  "first_of xs = (case xs of [] \<Rightarrow> None | x # _ \<Rightarrow> Some x)"

definition call_subject :: "ast \<Rightarrow> ast list \<Rightarrow> ast option" where
  "call_subject f xs =
     (let subject = (if call_name f \<in> set path_methods then receiver f else None)
      in case subject of
           None \<Rightarrow> first_of xs
         | Some v \<Rightarrow> if is_module_reference v then first_of xs else Some v)"

definition opens_exclusively :: "ast list \<Rightarrow> bool" where
  "opens_exclusively candidates \<longleftrightarrow>
     list_ex (\<lambda>c. list_ex (\<lambda>n. node_text n = S ''O_EXCL'') (walk c)) candidates \<or>
     list_ex (\<lambda>c. case c of Constant (C_str m) \<Rightarrow> contains (S ''x'') m | _ \<Rightarrow> False) candidates"

fun creates_exclusively :: "pystr list \<Rightarrow> ast \<Rightarrow> bool" where
  "creates_exclusively names (Call f xs ks) =
     (if \<not> names_lock_path names (call_subject f xs) then False
      else if call_name f = S ''open''
        then opens_exclusively (drop 1 xs @ concat (map (keyword_value [S ''mode'', S ''flags'']) ks))
      else if call_name f = S ''touch'' then exist_ok_is False ks
      else if call_name f = S ''mkdir'' then \<not> exist_ok_is True ks
      else call_name f = S ''link'' \<or> call_name f = S ''symlink'')"
| "creates_exclusively names _ = False"

section \<open>Holding a lock\<close>

definition mentions_lock :: "(pystr \<Rightarrow> pystr) \<Rightarrow> ast \<Rightarrow> bool" where
  "mentions_lock lower a \<longleftrightarrow> list_ex (\<lambda>n. node_text n \<noteq> [] \<and> contains (S ''lock'') (lower (node_text n))) (walk a)"

fun context_expr :: "ast \<Rightarrow> ast" where
  "context_expr (Withitem c vars) = c"
| "context_expr a = a"

lemma context_size: "size (context_expr a) \<le> size a"
  by (cases a) simp_all

lemma item_sizes: "i \<in> set items \<Longrightarrow> size i < weight items \<and> size (context_expr i) < weight items"
  using context_size [of i] weight_member [of i items] by simp

function unguarded_uses :: "(pystr \<Rightarrow> pystr) \<Rightarrow> pystr \<Rightarrow> bool \<Rightarrow> ast \<Rightarrow> nat list" where
  "unguarded_uses lower target guarded a = (case a of
     With_stmt items body \<Rightarrow>
       (let holds = guarded \<or> list_ex (\<lambda>i. mentions_lock lower (context_expr i)) items
        in concat (map (\<lambda>i. unguarded_uses lower target guarded (context_expr i)) items) @
           concat (map (unguarded_uses lower target holds) body))
   | Name x l \<Rightarrow> if x = target \<and> \<not> guarded then [l] else []
   | _ \<Rightarrow> concat (map (unguarded_uses lower target guarded) (child_nodes a)))"
  by pat_completeness auto
termination
  by (relation "measure (\<lambda>(lower, target, guarded, a). size a)")
    (auto dest!: item_sizes simp: weight_size_list)

declare unguarded_uses.simps [simp del]

section \<open>Finding the code to look at\<close>

definition branch_on_constant :: "ast \<Rightarrow> pystr \<Rightarrow> ast option" where
  "branch_on_constant tree value = List.find (\<lambda>n. case n of
     If_stmt test body orelse \<Rightarrow> Constant (C_str value) \<in> set (walk test)
   | _ \<Rightarrow> False) (walk tree)"

definition function_named :: "ast \<Rightarrow> pystr \<Rightarrow> ast option" where
  "function_named tree name = List.find (\<lambda>n. fun_name n = Some name) (walk tree)"

definition touches :: "pystr \<Rightarrow> ast \<Rightarrow> bool" where
  "touches target a \<longleftrightarrow> list_ex (\<lambda>n. case n of Name x l \<Rightarrow> x = target | _ \<Rightarrow> False) (walk a)"

section \<open>The rules of a lesson\<close>

datatype parse_result = Parsed ast | Syntax_error pystr | Parse_raises py_exc

text \<open>A rule that needs the syntax tree: a text that does not parse is a failure, not a crash.\<close>

definition with_tree ::
    "(pystr \<Rightarrow> parse_result) \<Rightarrow> pystr \<Rightarrow> pystr \<Rightarrow> (ast \<Rightarrow> py_exc + pystr list) \<Rightarrow> py_exc + pystr list" where
  "with_tree parse relative text rule = (case parse text of
     Parsed tree \<Rightarrow> rule tree
   | Syntax_error why \<Rightarrow> Inr [relative @ S '' does not parse as Python: '' @ why]
   | Parse_raises x \<Rightarrow> Inl x)"

definition repr_str :: "cenv \<Rightarrow> pystr \<Rightarrow> pystr" where
  "repr_str e s = x_repr e (JStr s)"

definition define_rule :: "cenv \<Rightarrow> (pystr \<Rightarrow> parse_result) \<Rightarrow> pystr \<Rightarrow> pystr \<Rightarrow> json \<Rightarrow> py_exc + pystr list" where
  "define_rule e parse relative text v = (case v of
     JStr f \<Rightarrow>
       if text = [] then Inr []
       else with_tree parse relative text (\<lambda>tree.
         Inr (if Some f \<in> set (map fun_name (walk tree)) then []
              else [relative @ S '' does not define a function named '' @ repr_str e f]))
   | _ \<Rightarrow> Inr [])"

definition exclusive_note :: pystr where
  "exclusive_note = S ''() never creates the lock file with an exclusive-create operation '' @ [8212] @
     S '' os.open(..., os.O_CREAT | os.O_EXCL), open(path, 'x'), touch(exist_ok=False) or mkdir() all fail when '' @
     S ''the file already exists, and a check-then-write does not. The identifier appearing in a comment is '' @
     S ''not the operation''"

definition exclusive_rule :: "cenv \<Rightarrow> (pystr \<Rightarrow> parse_result) \<Rightarrow> pystr \<Rightarrow> pystr \<Rightarrow> json \<Rightarrow> py_exc + pystr list" where
  "exclusive_rule e parse relative text v = (case v of
     JStr name \<Rightarrow>
       if text = [] then Inr []
       else with_tree parse relative text (\<lambda>tree. Inr (case function_named tree name of
           None \<Rightarrow> [relative @ S '' does not define '' @ repr_str e name]
         | Some f \<Rightarrow>
             if list_ex (creates_exclusively (lock_path_names (x_lower e) tree f)) (walk f) then []
             else [relative @ S '': '' @ name @ exclusive_note]))
   | _ \<Rightarrow> Inr [])"

definition lock_note :: pystr where
  "lock_note = S '' '' @ [8212] @ S '' wrap the whole read-modify-write in `with <something>_lock:`. The GIL makes an '' @
     S ''unlocked counter produce the right answer almost every run; that is why this is checked in the source '' @
     S ''and not by counting''"

text \<open>What the lock rule reports for a parsed file.\<close>

definition lock_failures :: "cenv \<Rightarrow> pystr \<Rightarrow> pystr \<Rightarrow> pystr \<Rightarrow> ast \<Rightarrow> pystr list" where
  "lock_failures e relative value target tree = (case branch_on_constant tree value of
     None \<Rightarrow> [relative @ S '' has no branch on '' @ repr_str e value @ S '' '' @ [8212] @
              S '' the check cannot inspect an implementation it cannot find'']
   | Some branch \<Rightarrow>
       if \<not> touches target branch
       then [relative @ S '': the '' @ repr_str e value @ S '' branch never touches '' @ repr_str e target]
       else (let offenders = unguarded_uses (x_lower e) target False branch
             in if offenders = [] then []
                else [relative @ S '': '' @ target @ S '' is read or written outside a lock at line(s) '' @
                      join comma (map (\<lambda>l. dec_int (int l)) offenders) @ lock_note]))"

definition lock_rule :: "cenv \<Rightarrow> (pystr \<Rightarrow> parse_result) \<Rightarrow> pystr \<Rightarrow> pystr \<Rightarrow> json \<Rightarrow> py_exc + pystr list" where
  "lock_rule e parse relative text v =
     (if v = JNull \<or> text = [] then Inr []
      else case v of
          JObj spec \<Rightarrow>
            res_bind (read_field spec (S ''branch'')) (\<lambda>b.
            res_bind (read_field spec (S ''target'')) (\<lambda>t.
              with_tree parse relative text (\<lambda>tree.
                Inr (lock_failures e relative (py_str (x_str e) b) (py_str (x_str e) t) tree))))
        | _ \<Rightarrow> Inl ValueError)"

text \<open>The test functions whose name matches.\<close>

definition marker_candidates :: "cenv \<Rightarrow> pystr \<Rightarrow> ast \<Rightarrow> py_exc + ast list" where
  "marker_candidates e pattern tree =
     res_bind (res_map (\<lambda>n. res_bind (x_search e pattern (the (fun_name n))) (\<lambda>found. Inr (n, found)))
                (filter (\<lambda>n. starts_with (S ''test_'') (the (fun_name n))) (function_defs tree)))
       (\<lambda>ns. Inr (map fst (filter snd ns)))"

definition satisfied_by :: "ast \<Rightarrow> pystr \<Rightarrow> pystr list \<Rightarrow> ast list \<Rightarrow> ast list" where
  "satisfied_by tree requirement also candidates =
     filter (\<lambda>n. the (fun_name n) \<in> set (marked_functions tree requirement) \<and>
       list_all (\<lambda>m. m \<in> set (decorator_names n)) also) candidates"

definition names_json :: "pystr list \<Rightarrow> json" where
  "names_json xs = JList (map JStr (sort xs))"

definition marker_failures :: "cenv \<Rightarrow> pystr \<Rightarrow> pystr \<Rightarrow> pystr \<Rightarrow> pystr list \<Rightarrow> ast \<Rightarrow> py_exc + pystr list" where
  "marker_failures e relative requirement pattern also tree =
     res_bind (marker_candidates e pattern tree) (\<lambda>candidates.
       let marked = remdups (marked_functions tree requirement);
           described = S ''a test matching '' @ matching pattern
       in Inr (if satisfied_by tree requirement also candidates \<noteq> [] then []
          else if candidates = [] then [relative @ S '' defines no '' @ described]
          else [relative @ S '': no single function is both '' @ described @
                S '' and marked @pytest.mark.requirement('' @ repr_str e requirement @ S '')'' @
                (if also = [] then [] else S '' and decorated with '' @ join comma also) @
                S '' '' @ [8212] @ S '' found '' @ x_repr e (names_json (map (\<lambda>n. the (fun_name n)) candidates)) @
                S '', marked '' @ (if marked = [] then S ''nothing'' else x_repr e (names_json marked)) @
                S ''. Marking a different function does not link this one'']))"

definition marker_rule :: "cenv \<Rightarrow> (pystr \<Rightarrow> parse_result) \<Rightarrow> pystr \<Rightarrow> pystr \<Rightarrow> json \<Rightarrow> py_exc + pystr list" where
  "marker_rule e parse relative text v =
     (if v = JNull \<or> text = [] then Inr []
      else case v of
          JObj spec \<Rightarrow>
            res_bind (read_field spec k_requirement) (\<lambda>r.
            res_bind (py_iter (get_or (JList []) spec (S ''also_decorated_with''))) (\<lambda>also.
              with_tree parse relative text
                (marker_failures e relative (py_str (x_str e) r)
                  (py_str (x_str e) (get_or (JStr (S ''.'')) spec (S ''name''))) (map (py_str (x_str e)) also))))
        | _ \<Rightarrow> Inl ValueError)"

definition source_check :: "cenv \<Rightarrow> repo \<Rightarrow> (pystr \<Rightarrow> parse_result) \<Rightarrow> obj \<Rightarrow> py_exc + check_result" where
  "source_check e rp parse args = (case get_or JNull args (S ''file'') of
     JStr relative \<Rightarrow>
       if relative = [] then Inl ValueError
       else
         res_bind (resolve_repo_path rp relative) (\<lambda>path.
           let (text, error) = read_artifact rp path relative
           in res_bind (each_pattern (\<lambda>v. required_match (x_search e) v text
                  (\<lambda>p. relative @ S '' does not match '' @ matching p)) (get_or (JList []) args (S ''must_contain''))) (\<lambda>f1.
              res_bind (each_pattern (\<lambda>v. forbidden_match (x_search e) v text
                  (\<lambda>p. relative @ S '' unexpectedly matches '' @ matching p)) (get_or (JList []) args (S ''must_not_contain''))) (\<lambda>f2.
              res_bind (define_rule e parse relative text (get_or JNull args (S ''must_define_function''))) (\<lambda>f3.
              res_bind (exclusive_rule e parse relative text (get_or JNull args (S ''must_create_exclusively''))) (\<lambda>f4.
              res_bind (lock_rule e parse relative text (get_or JNull args (S ''must_hold_lock''))) (\<lambda>f5.
              if dget args (S ''must_have_requirement_marker'') \<noteq> None then Inl ValueError
              else
                res_bind (marker_rule e parse relative text (get_or JNull args (S ''must_mark_function''))) (\<lambda>f6.
                  let failures = (if error = [] then [] else [error]) @ f1 @ f2 @ f3 @ f4 @ f5 @ f6
                  in Inr \<lparr>r_name = S ''source_check'', r_passed = (failures = []),
                       r_exit = Some (if failures = [] then 0 else 1), r_stdout = [], r_stderr = [], r_duration = 0,
                       r_interpretation = (if failures = []
                         then success_note e args (relative @ S '' has the expected shape.'')
                         else check_failed failures),
                       r_timed_out = False, r_details = []\<rparr>)))))))
   | _ \<Rightarrow> Inl ValueError)"

end
