(* ===== verification/Check_Source_Gates.thy ===== *)
theory Check_Source_Gates
  imports Check_Source
begin

text \<open>
  What the source gates prove about the code they accept: a branch that passes the lock gate never
  touches the variable without a lock, in any execution; and which exclusive creations and marked
  tests the other gates really see.
\<close>

section \<open>Executions of a branch\<close>

text \<open>
  Executing code takes and releases locks and touches names.  A node that is no \<open>with\<close> may evaluate its
  parts in any order and any number of times (branches, loops, calls, short circuits); a \<open>with\<close>
  evaluates its contexts one by one, holding those it has entered, binds its \<open>as\<close> targets, runs its body
  and releases.
\<close>

datatype event = Enter | Leave | Access pystr nat

inductive exec :: "(pystr \<Rightarrow> pystr) \<Rightarrow> ast \<Rightarrow> event list \<Rightarrow> bool"
  and execs :: "(pystr \<Rightarrow> pystr) \<Rightarrow> ast list \<Rightarrow> event list \<Rightarrow> bool"
  and enters :: "(pystr \<Rightarrow> pystr) \<Rightarrow> ast list \<Rightarrow> event list \<Rightarrow> nat \<Rightarrow> bool"
  for lower where
  name: "exec lower (Name x l) [Access x l]"
| with_stmt: "enters lower items hs d \<Longrightarrow> execs lower body tr \<Longrightarrow>
    exec lower (With_stmt items body) (hs @ tr @ replicate d Leave)"
| node: "\<forall>x l. a \<noteq> Name x l \<Longrightarrow> \<forall>items body. a \<noteq> With_stmt items body \<Longrightarrow> execs lower (child_nodes a) tr \<Longrightarrow>
    exec lower a tr"
| finished: "execs lower as []"
| more: "a \<in> set as \<Longrightarrow> exec lower a tr1 \<Longrightarrow> execs lower as tr2 \<Longrightarrow> execs lower as (tr1 @ tr2)"
| entered: "enters lower [] [] 0"
| enter: "exec lower c tr1 \<Longrightarrow> execs lower vars tr2 \<Longrightarrow> enters lower items hs d \<Longrightarrow>
    enters lower (Withitem c vars # items)
      (tr1 @ (if mentions_lock lower c then [Enter] else []) @ tr2 @ hs) (d + (if mentions_lock lower c then 1 else 0))"

text \<open>The lines that touch \<open>target\<close> while no lock is held.\<close>

fun naked :: "pystr \<Rightarrow> nat \<Rightarrow> event list \<Rightarrow> nat set" where
  "naked target held [] = {}"
| "naked target held (Enter # tr) = naked target (Suc held) tr"
| "naked target held (Leave # tr) = naked target (held - 1) tr"
| "naked target held (Access x l # tr) =
     (if x = target \<and> held = 0 then {l} else {}) \<union> naked target held tr"

text \<open>How many more locks are held at the end.\<close>

fun gain :: "event list \<Rightarrow> int" where
  "gain [] = 0"
| "gain (Enter # tr) = gain tr + 1"
| "gain (Leave # tr) = gain tr - 1"
| "gain (Access x l # tr) = gain tr"

text \<open>No prefix of a trace releases more than it has taken.\<close>

definition steady :: "int \<Rightarrow> event list \<Rightarrow> bool" where
  "steady d tr \<longleftrightarrow> gain tr = d \<and> (\<forall>n. 0 \<le> gain (take n tr))"

lemma gain_append [simp]: "gain (a @ b) = gain a + gain b"
  by (induction a rule: gain.induct) auto

lemma gain_leaves [simp]: "gain (replicate d Leave) = - int d"
  by (induction d) auto

lemma naked_append:
  "(\<forall>n. 0 \<le> int held + gain (take n a)) \<Longrightarrow> naked target held (a @ b) =
     naked target held a \<union> naked target (nat (int held + gain a)) b"
proof (induction a arbitrary: held)
  case (Cons x a)
  have pre: "0 \<le> int held + gain (take (Suc n) (x # a))" for n using Cons.prems by blast
  show ?case
  proof (cases x)
    case Enter
    then have "\<forall>n. 0 \<le> int (Suc held) + gain (take n a)" using pre by (simp add: algebra_simps)
    from Cons.IH [OF this] Enter show ?thesis by (simp add: ac_simps)
  next
    case Leave
    have "1 \<le> held" using pre [of 0] Leave by simp
    then have "\<forall>n. 0 \<le> int (held - 1) + gain (take n a)" using pre Leave by (simp add: of_nat_diff algebra_simps)
    from Cons.IH [OF this] \<open>1 \<le> held\<close> Leave show ?thesis by (simp add: of_nat_diff algebra_simps)
  next
    case (Access y l)
    then have "\<forall>n. 0 \<le> int held + gain (take n a)" using pre by simp
    from Cons.IH [OF this] Access show ?thesis by auto
  qed
qed simp

lemma steady_append: "steady c a \<Longrightarrow> steady d b \<Longrightarrow> 0 \<le> c \<Longrightarrow> steady (c + d) (a @ b)"
  by (auto simp: steady_def take_append)

lemma steady_gain: "steady c a \<Longrightarrow> gain a = c \<and> 0 \<le> c"
  unfolding steady_def by (metis order_refl take_all)

lemma naked_steady:
  assumes "steady c a"
  shows "naked target held (a @ b) = naked target held a \<union> naked target (held + nat c) b"
proof -
  have "nat (int held + gain a) = held + nat c" using steady_gain [OF assms] by (simp add: nat_add_distrib)
  then show ?thesis using naked_append [of held a target b] assms by (simp add: steady_def)
qed

text \<open>Nothing is naked while a lock is held throughout.\<close>

lemma naked_held: "\<forall>n. 0 < int held + gain (take n tr) \<Longrightarrow> naked target held tr = {}"
proof (induction tr arbitrary: held)
  case (Cons x tr)
  have pre: "0 < int held + gain (take (Suc n) (x # tr))" for n using Cons.prems by blast
  have "0 < held" using Cons.prems [THEN spec, of 0] by simp
  show ?case
  proof (cases x)
    case Enter
    then have "\<forall>n. 0 < int (Suc held) + gain (take n tr)" using pre by (simp add: algebra_simps)
    from Cons.IH [OF this] Enter show ?thesis by simp
  next
    case Leave
    then have "\<forall>n. 0 < int (held - 1) + gain (take n tr)" using pre \<open>0 < held\<close> by (simp add: of_nat_diff algebra_simps)
    from Cons.IH [OF this] Leave show ?thesis by simp
  next
    case (Access y l)
    then have "\<forall>n. 0 < int held + gain (take n tr)" using pre by simp
    from Cons.IH [OF this] Access \<open>0 < held\<close> show ?thesis by simp
  qed
qed simp

lemma steady_held: "steady c tr \<Longrightarrow> naked target (Suc held) tr = {}"
  by (rule naked_held) (auto simp: steady_def add_pos_nonneg)

lemma naked_leaves [simp]: "naked target held (replicate d Leave) = {}"
  by (induction d arbitrary: held) auto

lemma steady_leaves: "steady (int d) tr \<Longrightarrow> steady 0 (tr @ replicate d Leave)"
proof -
  assume tr: "steady (int d) tr"
  have "0 \<le> gain (take n (tr @ replicate d Leave))" for n
  proof (cases "n \<le> length tr")
    case False
    have "gain (take (n - length tr) (replicate d Leave)) = - int (min (n - length tr) d)" by simp
    then show ?thesis using False tr by (simp add: steady_def)
  qed (use tr in \<open>simp add: steady_def\<close>)
  then show ?thesis using tr by (simp add: steady_def)
qed

section \<open>The lock gate is sound\<close>

text \<open>The target is never the \<open>as\<close> of a \<open>with\<close>: no item of one has it among its variables.\<close>

definition binds_as :: "pystr \<Rightarrow> ast \<Rightarrow> bool" where
  "binds_as target a \<longleftrightarrow> (\<exists>c vars v l. node_of (Withitem c vars) a \<and> v \<in> set vars \<and> node_of (Name target l) v)"

lemma node_of_trans: "node_of x y \<Longrightarrow> node_of y z \<Longrightarrow> node_of x z"
  by (rotate_tac, induction rule: node_of.induct) (auto intro: node_of.below)

lemma child_node: "c \<in> set (child_nodes a) \<Longrightarrow> node_of c a"
  by (auto intro: node_of.intros)

lemma node_of_With:
  "node_of x (With_stmt items body) \<longleftrightarrow> x = With_stmt items body \<or> (\<exists>c \<in> set items \<union> set body. node_of x c)"
  by (subst node_of_iff) simp

lemma node_of_item: "node_of x (Withitem c vars) \<longleftrightarrow> x = Withitem c vars \<or> node_of x c \<or> (\<exists>v \<in> set vars. node_of x v)"
  by (subst node_of_iff) simp

lemma node_of_Name [simp]: "node_of x (Name y l) \<longleftrightarrow> x = Name y l"
  by (subst node_of_iff) simp

lemma binds_child: "binds_as t c \<Longrightarrow> c \<in> set (child_nodes a) \<Longrightarrow> binds_as t a"
  unfolding binds_as_def using node_of_trans child_node by blast

lemma unguarded_Name: "unguarded_uses lower t g (Name x l) = (if x = t \<and> \<not> g then [l] else [])"
  by (subst unguarded_uses.simps) simp

lemma unguarded_With: "unguarded_uses lower t g (With_stmt items body) =
  concat (map (\<lambda>i. unguarded_uses lower t g (context_expr i)) items) @
  concat (map (unguarded_uses lower t (g \<or> list_ex (\<lambda>i. mentions_lock lower (context_expr i)) items)) body)"
  by (subst unguarded_uses.simps) (simp add: Let_def)

lemma unguarded_node:
  "\<forall>x l. a \<noteq> Name x l \<Longrightarrow> \<forall>items body. a \<noteq> With_stmt items body \<Longrightarrow>
     unguarded_uses lower t g a = concat (map (unguarded_uses lower t g) (child_nodes a))"
  by (subst unguarded_uses.simps) (cases a; simp)

text \<open>Code in which the target does not occur does not touch it.\<close>

lemma untouched:
  "exec lower a tr \<Longrightarrow> \<forall>l. \<not> node_of (Name t l) a \<Longrightarrow> steady 0 tr \<and> (\<forall>h. naked t h tr = {})"
  "execs lower as tr \<Longrightarrow> \<forall>a \<in> set as. \<forall>l. \<not> node_of (Name t l) a \<Longrightarrow> steady 0 tr \<and> (\<forall>h. naked t h tr = {})"
  "enters lower items hs d \<Longrightarrow> \<forall>a \<in> set items. \<forall>l. \<not> node_of (Name t l) a \<Longrightarrow>
     steady (int d) hs \<and> (\<forall>h. naked t h hs = {})"
proof (induction rule: exec_execs_enters.inducts)
  case (name x l)
  then show ?case by (auto simp: steady_def take_Cons')
next
  case (with_stmt items hs d body tr)
  have "\<forall>a \<in> set items. \<forall>l. \<not> node_of (Name t l) a" "\<forall>a \<in> set body. \<forall>l. \<not> node_of (Name t l) a"
    using with_stmt.prems by (auto simp: node_of_With)
  with with_stmt.IH have h: "steady (int d) hs" "\<forall>h. naked t h hs = {}" "steady 0 tr" "\<forall>h. naked t h tr = {}" by auto
  have "steady (int d) (hs @ tr)" using steady_append [OF h(1,3)] by simp
  from steady_leaves [OF this] show ?case
    using naked_steady [OF h(1)] naked_steady [OF h(3)] h by simp
next
  case (node a tr)
  then show ?case using node_of.below by blast
next
  case (more a as tr1 tr2)
  then have h: "steady 0 tr1" "\<forall>h. naked t h tr1 = {}" "steady 0 tr2" "\<forall>h. naked t h tr2 = {}" by auto
  show ?case using steady_append [OF h(1,3)] naked_steady [OF h(1)] h by simp
next
  case (enter c tr1 vars tr2 items hs d)
  have "\<forall>l. \<not> node_of (Name t l) c" "\<forall>a \<in> set vars. \<forall>l. \<not> node_of (Name t l) a"
    using enter.prems by (auto simp: node_of_item)
  moreover have "\<forall>a \<in> set items. \<forall>l. \<not> node_of (Name t l) a" using enter.prems by simp
  ultimately have h: "steady 0 tr1" "\<forall>h. naked t h tr1 = {}" "steady 0 tr2" "\<forall>h. naked t h tr2 = {}"
    "steady (int d) hs" "\<forall>h. naked t h hs = {}" using enter.IH by auto
  let ?e = "if mentions_lock lower c then [Enter] else []"
  have e: "steady (if mentions_lock lower c then 1 else 0) ?e" by (auto simp: steady_def take_Cons')
  have "steady (int d + (if mentions_lock lower c then 1 else 0)) (tr1 @ ?e @ tr2 @ hs)"
    using steady_append [OF h(1) steady_append [OF e steady_append [OF h(3,5)]]] by (simp add: ac_simps split: if_splits)
  moreover have "naked t k (tr1 @ ?e @ tr2 @ hs) = {}" for k
    using naked_steady [OF h(1)] naked_steady [OF h(3)] h by (cases "mentions_lock lower c") simp_all
  ultimately show ?case by (cases "mentions_lock lower c") (simp_all add: ac_simps)
qed (auto simp: steady_def)

lemma exec_sound:
  "exec lower a tr \<Longrightarrow> \<not> binds_as t a \<Longrightarrow>
     steady 0 tr \<and> (\<forall>h. naked t h tr \<subseteq> set (unguarded_uses lower t (0 < h) a))"
  "execs lower as tr \<Longrightarrow> \<forall>a \<in> set as. \<not> binds_as t a \<Longrightarrow>
     steady 0 tr \<and> (\<forall>h. naked t h tr \<subseteq> (\<Union>a \<in> set as. set (unguarded_uses lower t (0 < h) a)))"
  "enters lower items hs d \<Longrightarrow> \<forall>i \<in> set items. \<not> binds_as t i \<Longrightarrow>
     steady (int d) hs \<and> (0 < d \<longleftrightarrow> list_ex (\<lambda>i. mentions_lock lower (context_expr i)) items) \<and>
     (\<forall>h. naked t h hs \<subseteq> (\<Union>i \<in> set items. set (unguarded_uses lower t (0 < h) (context_expr i))))"
proof (induction rule: exec_execs_enters.inducts)
  case (name x l)
  then show ?case by (auto simp: steady_def take_Cons' unguarded_Name)
next
  case (with_stmt items hs d body tr)
  have "\<forall>i \<in> set items. \<not> binds_as t i" "\<forall>a \<in> set body. \<not> binds_as t a"
    using with_stmt.prems binds_child [of t _ "With_stmt items body"] by auto
  with with_stmt.IH have d: "0 < d \<longleftrightarrow> list_ex (\<lambda>i. mentions_lock lower (context_expr i)) items"
    and h: "steady (int d) hs" "\<forall>h. naked t h hs \<subseteq> (\<Union>i \<in> set items. set (unguarded_uses lower t (0 < h) (context_expr i)))"
      "steady 0 tr" "\<forall>h. naked t h tr \<subseteq> (\<Union>a \<in> set body. set (unguarded_uses lower t (0 < h) a))" by auto
  have "steady (int d) (hs @ tr)" using steady_append [OF h(1,3)] by simp
  note st = steady_leaves [OF this]
  have "naked t k (hs @ tr @ replicate d Leave) \<subseteq> set (unguarded_uses lower t (0 < k) (With_stmt items body))" for k
  proof -
    have "naked t k (hs @ tr @ replicate d Leave) = naked t k hs \<union> naked t (k + d) tr"
      using naked_steady [OF h(1)] naked_steady [OF h(3)] by simp
    moreover have "(0 < k + d) = (0 < k \<or> list_ex (\<lambda>i. mentions_lock lower (context_expr i)) items)" using d by auto
    ultimately show ?thesis using h(2) [THEN spec, of k] h(4) [THEN spec, of "k + d"]
      by (auto simp: unguarded_With)
  qed
  with st show ?case by simp
next
  case (node a tr)
  have "\<forall>c \<in> set (child_nodes a). \<not> binds_as t c" using node.prems binds_child by blast
  with node show ?case by (simp add: unguarded_node)
next
  case (more a as tr1 tr2)
  then have h: "steady 0 tr1" "\<forall>h. naked t h tr1 \<subseteq> set (unguarded_uses lower t (0 < h) a)" "steady 0 tr2"
    "\<forall>h. naked t h tr2 \<subseteq> (\<Union>a \<in> set as. set (unguarded_uses lower t (0 < h) a))" by auto
  have "steady 0 (tr1 @ tr2)" using steady_append [OF h(1,3)] by simp
  moreover have "naked t k (tr1 @ tr2) = naked t k tr1 \<union> naked t k tr2" for k using naked_steady [OF h(1)] by simp
  ultimately show ?case using h(2,4) more.hyps(1) by (auto 0 3)
next
  case (enter c tr1 vars tr2 items hs d)
  have b: "\<not> binds_as t (Withitem c vars)" "\<forall>i \<in> set items. \<not> binds_as t i" using enter.prems by auto
  have c: "\<not> binds_as t c" using b(1) binds_child [of t c "Withitem c vars"] by auto
  have "\<forall>v \<in> set vars. \<forall>l. \<not> node_of (Name t l) v"
    using b(1) unfolding binds_as_def by (metis node_of.itself)
  from untouched(2) [OF enter.IH(3) this] have v: "steady 0 tr2" "\<forall>h. naked t h tr2 = {}" by auto
  from enter.IH(2) [OF c] have h1: "steady 0 tr1" "\<forall>h. naked t h tr1 \<subseteq> set (unguarded_uses lower t (0 < h) c)" by auto
  from enter.IH(6) [OF b(2)] have h3: "steady (int d) hs"
    "(0 < d) = list_ex (\<lambda>i. mentions_lock lower (context_expr i)) items"
    "\<forall>h. naked t h hs \<subseteq> (\<Union>i \<in> set items. set (unguarded_uses lower t (0 < h) (context_expr i)))" by auto
  let ?e = "if mentions_lock lower c then [Enter] else []"
  have e: "steady (if mentions_lock lower c then 1 else 0) ?e" by (auto simp: steady_def take_Cons')
  have "steady (int d + (if mentions_lock lower c then 1 else 0)) (tr1 @ ?e @ tr2 @ hs)"
    using steady_append [OF h1(1) steady_append [OF e steady_append [OF v(1) h3(1)]]] by (simp add: ac_simps split: if_splits)
  moreover have "naked t k (tr1 @ ?e @ tr2 @ hs) \<subseteq>
      set (unguarded_uses lower t (0 < k) c) \<union> (\<Union>i \<in> set items. set (unguarded_uses lower t (0 < k) (context_expr i)))" for k
  proof -
    have "naked t k (tr1 @ ?e @ tr2 @ hs) = naked t k tr1 \<union> naked t (if mentions_lock lower c then Suc k else k) hs"
      using naked_steady [OF h1(1)] naked_steady [OF v(1)] v(2) by (cases "mentions_lock lower c") simp_all
    then show ?thesis using h1(2) h3(3) steady_held [OF h3(1), of t k] by (cases "mentions_lock lower c") auto
  qed
  ultimately show ?case using h3(2) by (auto simp: subset_iff)
qed (auto simp: steady_def)

section \<open>Verdicts\<close>

lemma lock_failures_none:
  "lock_failures e relative value target tree = [] \<longleftrightarrow>
     (\<exists>branch. branch_on_constant tree value = Some branch \<and> touches target branch \<and>
       unguarded_uses (x_lower e) target False branch = [])"
  by (auto simp: lock_failures_def Let_def split: option.splits)

lemma source_check_lock:
  assumes "source_check e rp parse args = Inr r" and "r_passed r"
    and "get_or JNull args (S ''file'') = JStr relative" and "resolve_repo_path rp relative = Inr path"
    and "read_artifact rp path relative = (text, err)"
  shows "lock_rule e parse relative text (get_or JNull args (S ''must_hold_lock'')) = Inr []"
  using assms by (auto simp: source_check_def Let_def res_simps split: if_splits)

lemma marked_names:
  "n \<in> set (marked_functions tree requirement) \<longleftrightarrow>
     (\<exists>g. node_of g tree \<and> fun_name g = Some n \<and> is_marked requirement g)"
  by (force simp: marked_functions_def function_defs_def set_walk)

lemma candidates_exact:
  assumes "\<And>s. x_search e pattern s = Inr (m s)"
  shows "marker_candidates e pattern tree =
    Inr (filter (\<lambda>n. m (the (fun_name n))) (filter (\<lambda>n. starts_with (S ''test_'') (the (fun_name n))) (function_defs tree)))"
proof -
  have "res_map (\<lambda>n. res_bind (x_search e pattern (the (fun_name n))) (\<lambda>found. Inr (n, found))) ns =
      Inr (map (\<lambda>n. (n, m (the (fun_name n)))) ns)" for ns
    by (rule res_map_all) (simp add: assms)
  moreover have "map fst (filter snd (map (\<lambda>n. (n, m (the (fun_name n)))) ns)) = filter (\<lambda>n. m (the (fun_name n))) ns" for ns
    by (induction ns) auto
  ultimately show ?thesis by (simp add: marker_candidates_def)
qed

section \<open>Properties\<close>


definition counter_tree :: ast where
  "counter_tree = Other_node [If_stmt (Other_node [Name (S ''command'') 1, Constant (C_str (S ''count''))])
     [With_stmt [Withitem (Name (S ''count_lock'') 2) []]
        [Assign [Name (S ''counter'') 3] (Other_node [Name (S ''counter'') 3, Constant C_other])]] []]"

definition one_file :: repo where
  "one_file = \<lparr>rp_root = [S ''r''], rp_resolve = (\<lambda>p. [S ''r'', p]), rp_exists = (\<lambda>_. True),
     rp_is_file = (\<lambda>_. True), rp_read = (\<lambda>_. Inr (S ''text''))\<rparr>"

definition lock_args :: obj where
  "lock_args = [(S ''file'', JStr (S ''a.py'')), (S ''must_hold_lock'',
     JObj [(S ''branch'', JStr (S ''count'')), (S ''target'', JStr (S ''counter''))])]"


text \<open>
  Three documented forms of exclusive creation are not recognised: \<open>path.open("x")\<close> with a positional
  mode is rejected for every receiver; \<open>os.link(new, lock)\<close> is judged by its source, not by the lock it
  creates; and where \<open>__init__\<close> names no path, nothing at all is accepted, instead of anything.
\<close>

theorem exclusive_forms_missed:
  "\<not> creates_exclusively names (Call (Attribute path (S ''open'')) [Constant (C_str (S ''x''))] []) \<and>
   creates_exclusively names (Call (Attribute (Name (S ''os'') l) (S ''link'')) [new, lock] []) =
     names_lock_path names (Some new) \<and>
   \<not> creates_exclusively [] call"
proof -
  have "\<not> names_lock_path [] a" for a
    by (cases "([] :: pystr list, a)" rule: names_lock_path.cases) auto
  then have "\<not> creates_exclusively [] call"
    by (cases call) auto
  then show ?thesis
    by (simp add: opens_exclusively_def call_subject_def call_name_def path_methods_def first_of_def Let_def
        names_lock_path.simps split: option.split)
qed


text \<open>Two methods of one name: one parametrized, the other marked.\<close>

definition two_tests :: ast where
  "two_tests = Other_node
     [Other_node [Function_def False (S ''test_a'') [] (Other_node []) [] [Name (S ''parametrize'') 1] []],
      Other_node [Function_def False (S ''test_a'') [] (Other_node []) []
        [Call (Attribute (Attribute (Name (S ''pytest'') 5) k_mark) k_requirement) [Constant (C_str (S ''REQ-1''))] []] []]]"


end
