(* ===== verification/Check_Artifact.thy ===== *)
theory Check_Artifact
  imports Check_Source
begin

text \<open>
  The evidence checks (\<open>learning/checks/artifact_check.py\<close>): the fields of a run manifest against the
  rules of a lesson, rows of a CSV file, and the outcome of a test case in a JUnit report.

  \<open>acenv\<close> adds what these take from outside: \<open>git rev-parse\<close>, \<open>datetime.fromisoformat\<close> (whether the
  instant has an offset), \<open>csv.DictReader\<close>, the XML parser, and the text of an exception.
\<close>

text \<open>A row of \<open>csv.DictReader\<close>: surplus cells are a list under the key \<open>None\<close>, missing ones are \<open>None\<close>.\<close>

type_synonym csv_row = "(pystr option \<times> json) list"

datatype xml = Element pystr "pystr dict" "xml list"

record acenv = cenv +
  a_commit :: "pystr \<Rightarrow> bool"
  a_iso :: "pystr \<Rightarrow> bool option"
  a_csv :: "pystr \<Rightarrow> py_exc + csv_row list"
  a_xml :: "pystr \<Rightarrow> xml option"
  a_exc :: "py_exc \<Rightarrow> pystr"

section \<open>Outcomes of test cases\<close>

datatype junit = Passed | Failed | Erred | Skipped

fun junit_text :: "junit \<Rightarrow> pystr" where
  "junit_text Passed = S ''passed''"
| "junit_text Failed = S ''failed''"
| "junit_text Erred = S ''error''"
| "junit_text Skipped = S ''skipped''"

lemma junit_text_inj [simp]: "junit_text a = junit_text b \<longleftrightarrow> a = b"
  by (cases a; cases b) simp_all

text \<open>Outcomes are ordered as their names, as \<open>sorted\<close> orders them.\<close>

instantiation junit :: linorder
begin

definition less_eq_junit :: "junit \<Rightarrow> junit \<Rightarrow> bool" where
  "less_eq_junit a b \<longleftrightarrow> junit_text a \<le> junit_text b"

definition less_junit :: "junit \<Rightarrow> junit \<Rightarrow> bool" where
  "less_junit a b \<longleftrightarrow> junit_text a < junit_text b"

instance
  by standard (auto simp: less_eq_junit_def less_junit_def less_le)

end

fun element_tag :: "xml \<Rightarrow> pystr" where
  "element_tag (Element t as cs) = t"

fun element_children :: "xml \<Rightarrow> xml list" where
  "element_children (Element t as cs) = cs"

fun element_attr :: "xml \<Rightarrow> pystr \<Rightarrow> pystr option" where
  "element_attr (Element t as cs) k = dget as k"

text \<open>\<open>find(tag) is not None\<close> and \<open>iter(tag)\<close>\<close>

definition has_child :: "pystr \<Rightarrow> xml \<Rightarrow> bool" where
  "has_child tag x \<longleftrightarrow> list_ex (\<lambda>c. element_tag c = tag) (element_children x)"

fun iter_tag :: "pystr \<Rightarrow> xml \<Rightarrow> xml list" where
  "iter_tag tag (Element t as cs) =
     (if t = tag then [Element t as cs] else []) @ concat (map (iter_tag tag) cs)"

definition case_outcome :: "xml \<Rightarrow> junit" where
  "case_outcome x = (if has_child (S ''failure'') x then Failed else if has_child (S ''error'') x then Erred
     else if has_child (S ''skipped'') x then Skipped else Passed)"

definition junit_outcome :: "xml list \<Rightarrow> junit list" where
  "junit_outcome xs = remdups (map case_outcome xs)"

definition case_name :: "xml \<Rightarrow> pystr" where
  "case_name x = (case element_attr x (S ''name'') of None \<Rightarrow> [] | Some n \<Rightarrow> n)"

definition matching_cases :: "pystr \<Rightarrow> xml \<Rightarrow> xml list" where
  "matching_cases wanted doc = filter (\<lambda>x. contains wanted (case_name x)) (iter_tag (S ''testcase'') doc)"

section \<open>Values and rules\<close>

definition describe :: "('a cenv_scheme) \<Rightarrow> json \<Rightarrow> pystr" where
  "describe e v = (let r = x_repr e v in if length r \<le> 60 then r else take 57 r @ S ''...'')"

definition is_hex :: "nat \<Rightarrow> bool" where
  "is_hex c \<longleftrightarrow> 48 \<le> c \<and> c \<le> 57 \<or> 97 \<le> c \<and> c \<le> 102 \<or> 65 \<le> c \<and> c \<le> 70"

definition is_commit_id :: "pystr \<Rightarrow> bool" where
  "is_commit_id s \<longleftrightarrow> 7 \<le> length s \<and> length s \<le> 40 \<and> list_all is_hex s"

text \<open>\<open>s.replace("Z", "+00:00")\<close>\<close>

definition zulu :: "pystr \<Rightarrow> pystr" where
  "zulu s = concat (map (\<lambda>c. if c = 90 then S ''+00:00'' else [c]) s)"

definition quoted :: "('a cenv_scheme) \<Rightarrow> pystr \<Rightarrow> pystr \<Rightarrow> pystr" where
  "quoted e relative label = relative @ S '': '' @ x_repr e (JStr label)"

fun blank :: "json \<Rightarrow> bool" where
  "blank (JStr s) = (py_strip s = [])"
| "blank _ = False"

definition object_note :: "('a cenv_scheme) \<Rightarrow> pystr \<Rightarrow> pystr \<Rightarrow> obj \<Rightarrow> pystr list" where
  "object_note e relative label d =
     (if list_ex (\<lambda>(k, v). blank v) d
      then [quoted e relative label @ S '' still has empty placeholder values ('' @ describe e (JObj d) @ S '') '' @
            [8212] @ S '' fill in the real configuration'']
      else [])"

definition check_commit :: "acenv \<Rightarrow> pystr \<Rightarrow> pystr \<Rightarrow> pystr \<Rightarrow> pystr list" where
  "check_commit e relative label s =
     (if \<not> is_commit_id (py_strip s)
      then [quoted e relative label @ S '' is not a git commit id ('' @ describe e (JStr s) @
            S ''); use the output of `git rev-parse HEAD`'']
      else if \<not> a_commit e (py_strip s)
      then [quoted e relative label @ S '' ('' @ describe e (JStr s) @ S '') is not a commit in this repository '' @
            [8212] @ S '' a manifest has to identify the state that produced the run, not just look like a hash'']
      else [])"

definition check_timestamp :: "acenv \<Rightarrow> pystr \<Rightarrow> pystr \<Rightarrow> pystr \<Rightarrow> pystr list" where
  "check_timestamp e relative label s =
     (let text = zulu (py_strip s)
      in case a_iso e text of
           None \<Rightarrow> [quoted e relative label @ S '' is not an ISO-8601 timestamp ('' @ describe e (JStr s) @ S '')'']
         | Some offset \<Rightarrow>
             if 84 \<notin> set text \<and> 32 \<notin> set text
             then [quoted e relative label @ S '' is a date with no time of day ('' @ describe e (JStr s) @ S '') '' @
                   [8212] @ S '' a run happens at an instant'']
             else if \<not> offset
             then [quoted e relative label @ S '' has no UTC offset ('' @ describe e (JStr s) @ S '') '' @ [8212] @
                   S '' a local time means nothing on another machine; use datetime.now(UTC).isoformat()'']
             else [])"

definition check_port :: "('a cenv_scheme) \<Rightarrow> pystr \<Rightarrow> pystr \<Rightarrow> json \<Rightarrow> pystr list" where
  "check_port e relative label v = (case v of
     JInt i \<Rightarrow>
       if 1 \<le> i \<and> i \<le> 65535 then []
       else [quoted e relative label @ S '' is not a usable port ('' @ describe e v @ S '') '' @ [8212] @
             S '' the skeleton's 0 has to be replaced with the port the run used'']
   | _ \<Rightarrow> [quoted e relative label @ S '' must be a port number, got '' @ describe e v])"

text \<open>A value that is not a rule's object or number: it has to be a string that is filled in.\<close>

definition check_text :: "acenv \<Rightarrow> pystr \<Rightarrow> pystr \<Rightarrow> json \<Rightarrow> json \<Rightarrow> py_exc + pystr list" where
  "check_text e relative label v rule = (case v of
     JStr s \<Rightarrow>
       if py_strip s = []
       then Inr [quoted e relative label @ S '' is empty '' @ [8212] @
              S '' the skeleton has to be filled in with the real value, got '' @ describe e v]
       else
         (case rule of
            JStr r \<Rightarrow>
              if r = S ''commit'' then Inr (check_commit e relative label s)
              else if r = S ''timestamp'' then Inr (check_timestamp e relative label s)
              else if r = S ''string'' then Inr []
              else res_bind (x_search e r s) (\<lambda>found. Inr (if found then []
                     else [quoted e relative label @ S '' does not match '' @ matching r @ S '' ('' @ describe e v @ S '')'']))
          | _ \<Rightarrow> Inr [])
   | _ \<Rightarrow> Inr [quoted e relative label @ S '' is empty '' @ [8212] @
              S '' the skeleton has to be filled in with the real value, got '' @ describe e v])"

definition k_object :: pystr where "k_object = S ''object''"

definition object_size :: "obj \<Rightarrow> nat" where
  "object_size d = size_list (size_prod (\<lambda>_. 0) size) d"

lemma object_size_member: "(k, r) \<in> set d \<Longrightarrow> size r < object_size d"
  unfolding object_size_def by (induction d) auto

lemma object_size_value: "get_or JNull d k = JObj req \<Longrightarrow> object_size req < size (JObj d)"
proof -
  assume "get_or JNull d k = JObj req"
  then have "(k, JObj req) \<in> set d" by (auto simp: get_or_def split: option.splits dest: map_of_SomeD)
  from object_size_member [OF this] show ?thesis by (simp add: object_size_def)
qed

function (sequential) check_scalar :: "acenv \<Rightarrow> pystr \<Rightarrow> pystr \<Rightarrow> json \<Rightarrow> json \<Rightarrow> py_exc + pystr list"
  and check_object :: "acenv \<Rightarrow> pystr \<Rightarrow> pystr \<Rightarrow> json \<Rightarrow> obj \<Rightarrow> py_exc + pystr list" where
  "check_scalar e relative label v (JObj d) =
     (let req = get_or JNull d k_object
      in if \<not> truthy req then check_object e relative label v []
         else (case req of
                 JObj o' \<Rightarrow> check_object e relative label v o'
               | _ \<Rightarrow> (case v of
                          JObj (p # ps) \<Rightarrow> Inl AttributeError
                        | _ \<Rightarrow> check_object e relative label v [])))"
| "check_scalar e relative label v rule =
     (if rule = JStr k_object then check_object e relative label v []
      else if rule = JStr (S ''port'') then Inr (check_port e relative label v)
      else if rule = JStr (S ''integer'')
        then Inr (case v of JInt i \<Rightarrow> []
                  | _ \<Rightarrow> [quoted e relative label @ S '' must be an integer, got '' @ describe e v])
      else check_text e relative label v rule)"
| "check_object e relative label (JObj (p # ps)) req =
     res_bind (res_map (\<lambda>(k, r). case dget (p # ps) k of
         None \<Rightarrow> Inr [quoted e relative label @ S '' is missing '' @ x_repr e (JStr k) @ S '' '' @ [8212] @
                  S '' a configuration that omits it cannot be reproduced from this manifest'']
       | Some w \<Rightarrow> check_scalar e relative (label @ S ''.'' @ k) w r) req)
     (\<lambda>fss. Inr (object_note e relative label (p # ps) @ concat fss))"
| "check_object e relative label v req = Inr [quoted e relative label @ S '' must be a non-empty object'']"
  by pat_completeness auto
termination
  by (relation "measure (\<lambda>x. case x of Inl (e, relative, label, v, rule) \<Rightarrow> Suc (2 * size rule)
                          | Inr (e, relative, label, v, req) \<Rightarrow> 2 * object_size req)")
    (auto simp: object_size_def dest: object_size_member object_size_value [OF sym] split: if_splits)

section \<open>The fields of a manifest\<close>

definition check_json_fields :: "acenv \<Rightarrow> pystr \<Rightarrow> obj \<Rightarrow> obj \<Rightarrow> py_exc + pystr list" where
  "check_json_fields e relative document spec =
     res_bind (res_map (\<lambda>(f, rule). case dget document f of
         None \<Rightarrow> Inr [relative @ S '' is missing '' @ x_repr e (JStr f)]
       | Some v \<Rightarrow> check_scalar e relative f v rule) spec) (\<lambda>fss. Inr (concat fss))"

definition json_rule :: "acenv \<Rightarrow> pystr \<Rightarrow> pystr \<Rightarrow> json \<Rightarrow> py_exc + pystr list" where
  "json_rule e relative text v = (case v of
     JObj spec \<Rightarrow>
       if text = [] then Inr []
       else (case loads_strict (builtin_int (x_cap e)) (x_depth e) text of
               Inl x \<Rightarrow> Inr [relative @ S '' is not valid JSON ('' @ a_exc e x @ S '')'']
             | Inr (JObj document) \<Rightarrow> check_json_fields e relative document spec
             | Inr _ \<Rightarrow> Inr [relative @ S '' must contain a JSON object''])
   | _ \<Rightarrow> Inr [])"

section \<open>Rows\<close>

definition cell :: "csv_row \<Rightarrow> pystr \<Rightarrow> json" where
  "cell row column = (case map_of row (Some column) of None \<Rightarrow> JStr [] | Some v \<Rightarrow> v)"

definition row_equals :: "('a cenv_scheme) \<Rightarrow> obj \<Rightarrow> csv_row \<Rightarrow> bool" where
  "row_equals e spec row \<longleftrightarrow>
     list_all (\<lambda>(c, v). py_strip (py_str (x_str e) (cell row c)) = py_str (x_str e) v) spec"

text \<open>The columns, sorted; \<open>None\<close> among them cannot be compared or joined.\<close>

definition columns_text :: "csv_row list \<Rightarrow> py_exc + pystr" where
  "columns_text rows =
     (let keys = concat (map (map fst) rows)
      in if None \<in> set keys then Inl TypeError
         else if keys = [] then Inr (S ''none'')
         else Inr (let t = join comma (sort (remdups (map the keys))) in if t = [] then S ''none'' else t))"

definition csv_row_rule :: "acenv \<Rightarrow> pystr \<Rightarrow> pystr \<Rightarrow> json \<Rightarrow> py_exc + pystr list" where
  "csv_row_rule e relative text v = (case v of
     JObj spec \<Rightarrow>
       if text = [] then Inr []
       else res_bind (a_csv e text) (\<lambda>rows.
            if list_ex (row_equals e spec) rows then Inr []
            else res_bind (columns_text rows) (\<lambda>cs.
              Inr [relative @ S '' has no row matching '' @ x_repr e v @ S '' (columns present: '' @ cs @ S '')'']))
   | _ \<Rightarrow> Inr [])"

fun row_matches :: "acenv \<Rightarrow> csv_row \<Rightarrow> obj \<Rightarrow> py_exc + bool" where
  "row_matches e row [] = Inr True"
| "row_matches e row ((c, p) # spec) =
     res_bind (x_search e (py_str (x_str e) p)
         (py_strip (if truthy (cell row c) then py_str (x_str e) (cell row c) else []))) (\<lambda>found.
       if found then row_matches e row spec else Inr False)"

fun some_row_matches :: "acenv \<Rightarrow> obj \<Rightarrow> csv_row list \<Rightarrow> py_exc + bool" where
  "some_row_matches e spec [] = Inr False"
| "some_row_matches e spec (row # rows) =
     res_bind (row_matches e row spec) (\<lambda>b. if b then Inr True else some_row_matches e spec rows)"

definition csv_matches_rule :: "acenv \<Rightarrow> pystr \<Rightarrow> pystr \<Rightarrow> json \<Rightarrow> py_exc + pystr list" where
  "csv_matches_rule e relative text v = (case v of
     JObj spec \<Rightarrow>
       if text = [] then Inr []
       else res_bind (a_csv e text) (\<lambda>rows.
            res_bind (some_row_matches e spec rows) (\<lambda>found.
              if found then Inr []
              else res_bind (columns_text rows) (\<lambda>cs.
                Inr [relative @ S '' has no single row where every column matches '' @ x_repr e v @
                     S '' (columns present: '' @ cs @ S '')''])))
   | _ \<Rightarrow> Inr [])"

section \<open>The JUnit report\<close>

definition junit_rule :: "acenv \<Rightarrow> pystr \<Rightarrow> pystr \<Rightarrow> json \<Rightarrow> pystr \<Rightarrow> pystr list" where
  "junit_rule e relative text v expected = (case v of
     JStr wanted \<Rightarrow>
       if text = [] then []
       else (case a_xml e text of
               None \<Rightarrow> [relative @ S '' is not parseable XML'']
             | Some doc \<Rightarrow>
                 (let cases = matching_cases wanted doc
                  in if cases = [] then [relative @ S '' has no testcase matching '' @ x_repr e v]
                     else (let observed = junit_outcome cases
                           in if expected \<noteq> S ''any'' \<and> expected \<notin> set (map junit_text observed)
                              then [relative @ S '': testcase '' @ x_repr e v @ S '' is '' @
                                    join (S ''/'') (map junit_text (sort observed)) @ S '', expected '' @ expected @
                                    S '' '' @ [8212] @ S '' a recorded name is not a recorded result'']
                              else [])))
   | _ \<Rightarrow> [])"

section \<open>The check\<close>

definition k_json_fields :: pystr where "k_json_fields = S ''json_fields''"

definition artifact_check :: "acenv \<Rightarrow> repo \<Rightarrow> obj \<Rightarrow> py_exc + check_result" where
  "artifact_check e rp args = (case get_or JNull args (S ''file'') of
     JStr relative \<Rightarrow>
       if relative = [] then Inl ValueError
       else
         res_bind (resolve_repo_path rp relative) (\<lambda>path.
           let (text, error) = read_artifact rp path relative
           in res_bind (each_pattern (\<lambda>v. required_match (x_search_lines e) v text
                  (\<lambda>p. relative @ S '' does not contain a match for '' @ matching p))
                  (get_or (JList []) args (S ''contains''))) (\<lambda>f1.
              res_bind (csv_row_rule e relative text (get_or JNull args (S ''csv_row''))) (\<lambda>f2.
              res_bind (csv_matches_rule e relative text (get_or JNull args (S ''csv_row_matches''))) (\<lambda>f3.
              res_bind (json_rule e relative text (get_or JNull args k_json_fields)) (\<lambda>f4.
                let f5 = junit_rule e relative text (get_or JNull args (S ''junit_testcase''))
                           (py_str (x_str e) (get_or (JStr (S ''passed'')) args (S ''junit_outcome'')));
                    failures = (if error = [] then [] else [error]) @ f1 @ f2 @ f3 @ f4 @ f5
                in Inr \<lparr>r_name = S ''artifact_check'', r_passed = (failures = []),
                     r_exit = Some (if failures = [] then 0 else 1), r_stdout = truncate_output (take 1000 text),
                     r_stderr = [], r_duration = 0,
                     r_interpretation = (if failures = []
                       then py_str (x_str e) (get_or (JStr (relative @ S '' contains the expected evidence.'')) args k_success_note)
                       else check_failed failures),
                     r_timed_out = False, r_details = []\<rparr>)))))
   | _ \<Rightarrow> Inl ValueError)"

end
