(* ===== verification/Check_Evidence.thy ===== *)
theory Check_Evidence
  imports Check_Artifact
begin

text \<open>
  What accepted evidence is: the rules of a lesson as a relation between values and rules, and the
  proof that the failure-collecting check of \<open>artifact_check\<close> accepts exactly that.
\<close>

text \<open>The rules a nested object has to satisfy; a rule without any asks for a filled-in object only.\<close>

definition required_of :: "obj \<Rightarrow> obj option" where
  "required_of rule = (case get_or JNull rule k_object of
     JObj req \<Rightarrow> Some req
   | q \<Rightarrow> if truthy q then None else Some [])"

definition filled :: "obj \<Rightarrow> bool" where
  "filled d \<longleftrightarrow> d \<noteq> [] \<and> list_all (\<lambda>(k, v). \<not> blank v) d"

definition rule_names :: "pystr list" where
  "rule_names = [k_object, S ''port'', S ''integer'', S ''commit'', S ''timestamp'', S ''string'']"

inductive fits :: "acenv \<Rightarrow> json \<Rightarrow> json \<Rightarrow> bool" for e where
  port: "1 \<le> i \<Longrightarrow> i \<le> 65535 \<Longrightarrow> fits e (JInt i) (JStr (S ''port''))"
| integer: "fits e (JInt i) (JStr (S ''integer''))"
| commit: "is_commit_id (py_strip s) \<Longrightarrow> a_commit e (py_strip s) \<Longrightarrow> fits e (JStr s) (JStr (S ''commit''))"
| timestamp: "py_strip s \<noteq> [] \<Longrightarrow> a_iso e (zulu (py_strip s)) = Some True \<Longrightarrow>
    84 \<in> set (zulu (py_strip s)) \<or> 32 \<in> set (zulu (py_strip s)) \<Longrightarrow> fits e (JStr s) (JStr (S ''timestamp''))"
| string: "py_strip s \<noteq> [] \<Longrightarrow> fits e (JStr s) (JStr (S ''string''))"
| pattern: "py_strip s \<noteq> [] \<Longrightarrow> r \<notin> set rule_names \<Longrightarrow> x_search e r s = Inr True \<Longrightarrow> fits e (JStr s) (JStr r)"
| any_rule: "py_strip s \<noteq> [] \<Longrightarrow> \<forall>r. rule \<noteq> JStr r \<Longrightarrow> \<forall>d. rule \<noteq> JObj d \<Longrightarrow> fits e (JStr s) rule"
| an_object: "filled d \<Longrightarrow> fits e (JObj d) (JStr k_object)"
| fields: "filled d \<Longrightarrow> required_of rule = Some req \<Longrightarrow>
    (\<And>k r. (k, r) \<in> set req \<Longrightarrow> \<exists>v. dget d k = Some v \<and> fits e v r) \<Longrightarrow> fits e (JObj d) (JObj rule)"

inductive_cases fitsE: "fits e v (JObj rule)"

inductive_simps fits_simps:
  "fits e v (JStr r)" "fits e v JNull" "fits e v (JBool b)" "fits e v (JInt i)" "fits e v (JFloat f)" "fits e v (JList xs)"

definition fits_object :: "acenv \<Rightarrow> json \<Rightarrow> obj \<Rightarrow> bool" where
  "fits_object e v req \<longleftrightarrow> (\<exists>d. v = JObj d \<and> filled d \<and> (\<forall>(k, r) \<in> set req. \<exists>w. dget d k = Some w \<and> fits e w r))"

lemma fits_fields: "fits e v (JObj rule) \<longleftrightarrow> (\<exists>req. required_of rule = Some req \<and> fits_object e v req)"
  by (auto simp: fits_object_def elim!: fitsE intro!: fits.fields)

lemma object_note_none: "object_note e relative label d = [] \<longleftrightarrow> list_all (\<lambda>(k, v). \<not> blank v) d"
  by (auto simp: object_note_def list_all_iff list_ex_iff)

lemma rule_names_distinct [simp]:
  "k_object \<noteq> S ''port''" "k_object \<noteq> S ''integer''" "k_object \<noteq> S ''commit''" "k_object \<noteq> S ''timestamp''"
  "k_object \<noteq> S ''string''" "S ''port'' \<noteq> k_object" "S ''integer'' \<noteq> k_object" "S ''commit'' \<noteq> k_object"
  "S ''timestamp'' \<noteq> k_object" "S ''string'' \<noteq> k_object"
  by (simp_all add: k_object_def)

lemma commit_ok: "check_commit e relative label s = [] \<longleftrightarrow> is_commit_id (py_strip s) \<and> a_commit e (py_strip s)"
  by (simp add: check_commit_def)

lemma timestamp_ok: "check_timestamp e relative label s = [] \<longleftrightarrow> a_iso e (zulu (py_strip s)) = Some True \<and>
    (84 \<in> set (zulu (py_strip s)) \<or> 32 \<in> set (zulu (py_strip s)))"
  by (auto simp: check_timestamp_def Let_def split: option.split)

lemma commit_not_blank: "is_commit_id s \<Longrightarrow> s \<noteq> []"
  by (auto simp: is_commit_id_def)

lemma check_text_fits:
  assumes "\<forall>d. rule \<noteq> JObj d" and "rule \<noteq> JStr k_object" "rule \<noteq> JStr (S ''port'')" "rule \<noteq> JStr (S ''integer'')"
  shows "check_text e relative label v rule = Inr [] \<longleftrightarrow> fits e v rule"
proof (cases rule)
  case (JStr r)
  then show ?thesis using assms
    by (cases v) (auto simp: check_text_def fits_simps rule_names_def commit_ok timestamp_ok res_simps
        dest: commit_not_blank split: if_splits)
qed (use assms in \<open>cases v; auto simp: check_text_def fits_simps\<close>)+


lemma object_req_fits:
  assumes "\<And>k r w. (k, r) \<in> set req \<Longrightarrow> dget d k = Some w \<Longrightarrow>
    check_scalar e relative (label @ S ''.'' @ k) w r = Inr [] \<longleftrightarrow> fits e w r" and "d \<noteq> []"
  shows "check_object e relative label (JObj d) req = Inr [] \<longleftrightarrow> fits_object e (JObj d) req"
proof -
  obtain p ps where d: "d = p # ps" using assms(2) by (cases d) auto
  have one: "((\<lambda>(k, r). case dget d k of
         None \<Rightarrow> Inr [quoted e relative label @ S '' is missing '' @ x_repr e (JStr k) @ S '' '' @ [8212] @
                  S '' a configuration that omits it cannot be reproduced from this manifest'']
       | Some w \<Rightarrow> check_scalar e relative (label @ S ''.'' @ k) w r) x = Inr [])
     \<longleftrightarrow> (\<lambda>(k, r). \<exists>w. dget d k = Some w \<and> fits e w r) x" if "x \<in> set req" for x
  proof (cases x)
    case (Pair k r)
    then show ?thesis using assms(1) [of k r] that by (cases "dget d k") simp_all
  qed
  have "check_object e relative label (JObj d) req = Inr [] \<longleftrightarrow> list_all (\<lambda>(k, v). \<not> blank v) d \<and>
      (\<forall>x \<in> set req. (\<lambda>(k, r). \<exists>w. dget d k = Some w \<and> fits e w r) x)"
    unfolding d check_object.simps res_map_all_nil object_note_none
    by (intro arg_cong2 [where f = conj] refl ball_cong one [unfolded d])
  then show ?thesis using assms(2) by (simp add: fits_object_def filled_def)
qed

lemma port_ok: "check_port e relative label v = [] \<longleftrightarrow> (\<exists>i. v = JInt i \<and> 1 \<le> i \<and> i \<le> 65535)"
  by (cases v) (auto simp: check_port_def)

lemma integer_ok: "(case v of JInt i \<Rightarrow> [] | _ \<Rightarrow> [x]) = [] \<longleftrightarrow> (\<exists>i. v = JInt i)"
  by (cases v) auto

lemma check_fits:
  "check_scalar e relative label v rule = Inr [] \<longleftrightarrow> fits e v rule"
  "check_object e relative label v req = Inr [] \<longleftrightarrow> fits_object e v req"
proof (induction e relative label v rule and e relative label v req rule: check_scalar_check_object.induct)
  case (1 e relative label v d)
  then show ?case
    by (auto simp: fits_fields required_of_def Let_def fits_object_def split: json.splits list.splits)
next
  case (3 e relative label p ps req)
  show ?case by (rule object_req_fits) (use 3 in auto)
qed (auto simp: fits_simps check_text_fits port_ok integer_ok rule_names_def fits_object_def filled_def)

section \<open>The verdict on a manifest\<close>

text \<open>The document the rules of a lesson ask for: one object, no key repeated, every named field as its rule says.\<close>

definition filled_in :: "acenv \<Rightarrow> pystr \<Rightarrow> obj \<Rightarrow> bool" where
  "filled_in e text spec \<longleftrightarrow> (\<exists>d. parse_raw (builtin_int (x_cap e)) (x_depth e) text = Inr (JObj d) \<and> wf_json (JObj d) \<and>
     (\<forall>(f, rule) \<in> set spec. \<exists>v. dget d f = Some v \<and> fits e v rule))"

lemma json_fields_fit:
  "check_json_fields e relative d spec = Inr [] \<longleftrightarrow>
     (\<forall>x \<in> set spec. (\<lambda>(f, rule). \<exists>v. dget d f = Some v \<and> fits e v rule) x)"
proof -
  have "((\<lambda>(f, rule). case dget d f of None \<Rightarrow> Inr [relative @ S '' is missing '' @ x_repr e (JStr f)]
      | Some v \<Rightarrow> check_scalar e relative f v rule) x = Inr []) \<longleftrightarrow>
      (\<lambda>(f, rule). \<exists>v. dget d f = Some v \<and> fits e v rule) x" for x
    by (cases x, cases "dget d (fst x)") (auto simp: check_fits)
  then show ?thesis unfolding check_json_fields_def res_map_nil by (intro ball_cong refl) blast
qed

lemma json_rule_fits:
  "json_rule e relative text (JObj spec) = Inr [] \<longleftrightarrow> text = [] \<or> filled_in e text spec"
  by (auto simp: json_rule_def filled_in_def loads_strict_eq res_simps json_fields_fit
      split: sum.splits json.splits if_splits)

lemma artifact_passed:
  assumes "artifact_check e rp args = Inr r" and "r_passed r"
  obtains relative path contents where "get_or JNull args (S ''file'') = JStr relative"
    and "resolve_repo_path rp relative = Inr path" and "read_artifact rp path relative = (contents, [])"
    and "csv_row_rule e relative contents (get_or JNull args (S ''csv_row'')) = Inr []"
    and "csv_matches_rule e relative contents (get_or JNull args (S ''csv_row_matches'')) = Inr []"
    and "json_rule e relative contents (get_or JNull args k_json_fields) = Inr []"
    and "junit_rule e relative contents (get_or JNull args (S ''junit_testcase''))
           (py_str (x_str e) (get_or (JStr (S ''passed'')) args (S ''junit_outcome''))) = []"
proof -
  obtain relative where f: "get_or JNull args (S ''file'') = JStr relative" and ne: "relative \<noteq> []"
    using assms(1) by (auto simp: artifact_check_def split: json.splits if_splits)
  obtain path where p: "resolve_repo_path rp relative = Inr path"
    using assms(1) f ne by (auto simp: artifact_check_def res_bind_Inr)
  obtain contents error where t: "read_artifact rp path relative = (contents, error)" by (cases "read_artifact rp path relative")
  obtain f1 f2 f3 f4 where fs: "csv_row_rule e relative contents (get_or JNull args (S ''csv_row'')) = Inr f2"
    "csv_matches_rule e relative contents (get_or JNull args (S ''csv_row_matches'')) = Inr f3"
    "json_rule e relative contents (get_or JNull args k_json_fields) = Inr f4"
    and "r_passed r = ((if error = [] then [] else [error]) @ f1 @ f2 @ f3 @ f4 @
        junit_rule e relative contents (get_or JNull args (S ''junit_testcase''))
           (py_str (x_str e) (get_or (JStr (S ''passed'')) args (S ''junit_outcome''))) = [])"
    using assms(1) f ne p t by (auto simp: artifact_check_def res_bind_Inr Let_def)
  then show ?thesis using that [OF f p, of contents] t assms(2) by (auto split: if_splits)
qed

lemma artifact_accepts:
  assumes "get_or JNull args (S ''file'') = JStr relative" and "relative \<noteq> []"
    and "resolve_repo_path rp relative = Inr path" and "read_artifact rp path relative = (contents, [])"
    and "each_pattern (\<lambda>v. required_match (x_search_lines e) v contents
        (\<lambda>p. relative @ S '' does not contain a match for '' @ matching p)) (get_or (JList []) args (S ''contains'')) = Inr []"
    and "csv_row_rule e relative contents (get_or JNull args (S ''csv_row'')) = Inr []"
    and "csv_matches_rule e relative contents (get_or JNull args (S ''csv_row_matches'')) = Inr []"
    and "json_rule e relative contents (get_or JNull args k_json_fields) = Inr []"
    and "junit_rule e relative contents (get_or JNull args (S ''junit_testcase''))
           (py_str (x_str e) (get_or (JStr (S ''passed'')) args (S ''junit_outcome''))) = []"
  shows "\<exists>r. artifact_check e rp args = Inr r \<and> r_passed r"
  using assms by (simp add: artifact_check_def)

text \<open>
  C21: A passing evidence check on a manifest with rules means the manifest is a single JSON object in
  which no object repeats a key, and every field the lesson names is there and holds what its rule
  asks for (a commit of this repository, an instant with an offset, a port between 1 and 65535, a
  nested configuration with its own required keys and no empty placeholder) - unless the file is empty.
\<close>

theorem evidence_manifest_sound:
  assumes "artifact_check e rp args = Inr r" and "r_passed r"
    and "get_or JNull args k_json_fields = JObj spec" and "get_or JNull args (S ''file'') = JStr relative"
  shows "\<exists>path contents. resolve_repo_path rp relative = Inr path \<and> read_artifact rp path relative = (contents, []) \<and>
    (contents = [] \<or> (\<exists>d. parse_raw (builtin_int (x_cap e)) (x_depth e) contents = Inr (JObj d) \<and> wf_json (JObj d) \<and>
       (\<forall>(f, rule) \<in> set spec. \<exists>v. dget d f = Some v \<and> fits e v rule)))"
proof (rule artifact_passed [OF assms(1,2)])
  fix relative' path contents
  assume "get_or JNull args (S ''file'') = JStr relative'" and p: "resolve_repo_path rp relative' = Inr path"
    and t: "read_artifact rp path relative' = (contents, [])"
    and j: "json_rule e relative' contents (get_or JNull args k_json_fields) = Inr []"
  then have "relative' = relative" using assms(4) by simp
  with p t j show ?thesis
    unfolding assms(3) json_rule_fits filled_in_def by blast
qed

definition evidence_cenv :: acenv where
  "evidence_cenv = cenv.extend plain_cenv \<lparr>a_commit = (\<lambda>_. True), a_iso = (\<lambda>_. Some True), a_csv = (\<lambda>_. Inr []),
     a_xml = (\<lambda>_. None), a_exc = (\<lambda>_. [])\<rparr>"

definition file_with :: "pystr \<Rightarrow> repo" where
  "file_with contents = \<lparr>rp_root = [S ''r''], rp_resolve = (\<lambda>p. [S ''r'', p]), rp_exists = (\<lambda>_. True),
     rp_is_file = (\<lambda>_. True), rp_read = (\<lambda>_. Inr contents)\<rparr>"

text \<open>Day 13's rules for the device configuration.\<close>

definition config_rules :: obj where
  "config_rules = [(S ''dut_config'', JObj [(k_object, JObj [(S ''host'', JStr (S ''string'')), (S ''port'', JStr (S ''port''))])])]"

definition manifest_args :: obj where
  "manifest_args = [(S ''file'', JStr (S ''manifest.json'')), (k_json_fields, JObj config_rules)]"

definition manifest_document :: obj where
  "manifest_document = [(S ''dut_config'', JObj [(S ''host'', JStr (S ''h'')), (S ''port'', JInt 9)])]"

definition manifest_text :: pystr where
  "manifest_text = dump (\<lambda>_. []) None 0 (JObj manifest_document)"

lemma manifest_args_get:
  "get_or JNull manifest_args (S ''file'') = JStr (S ''manifest.json'')"
  "get_or JNull manifest_args k_json_fields = JObj config_rules"
  "get_or JNull manifest_args (S ''csv_row'') = JNull" "get_or JNull manifest_args (S ''csv_row_matches'') = JNull"
  "get_or JNull manifest_args (S ''junit_testcase'') = JNull" "dget manifest_args (S ''contains'') = None"
  "get_or (JList []) manifest_args (S ''contains'') = JList []"
  by (simp_all add: manifest_args_def k_json_fields_def get_or_def)

lemma file_with_read:
  "resolve_repo_path (file_with contents) relative = Inr [S ''r'', relative]"
  "read_artifact (file_with contents) path relative = (contents, [])"
  by (simp_all add: file_with_def resolve_repo_path_def read_artifact_def)

theorem evidence_manifest_sound_witness:
  "\<exists>path contents. resolve_repo_path (file_with manifest_text) (S ''manifest.json'') = Inr path \<and>
    read_artifact (file_with manifest_text) path (S ''manifest.json'') = (contents, []) \<and>
    (contents = [] \<or> (\<exists>d. parse_raw (builtin_int (x_cap evidence_cenv)) (x_depth evidence_cenv) contents = Inr (JObj d) \<and>
       wf_json (JObj d) \<and> list_all (\<lambda>(f, rule). \<exists>v. dget d f = Some v \<and> fits evidence_cenv v rule) config_rules))"
proof -
  have "parse_raw (builtin_int (x_cap evidence_cenv)) (x_depth evidence_cenv) manifest_text = Inr (JObj manifest_document)"
    unfolding manifest_text_def
    by (rule parse_raw_dump)
      (simp_all add: manifest_document_def evidence_cenv_def plain_cenv_def cenv.extend_def str_ok_def scalar_def S_def
        builtin_int_def dec_int_def dec_nat.simps lstrip_by_def int_of_token_def digits_val_def)
  moreover have "wf_json (JObj manifest_document)"
    by (simp add: manifest_document_def dict_ok_def dkeys_def)
  moreover have "\<forall>(f, rule) \<in> set config_rules. \<exists>v. dget manifest_document f = Some v \<and> fits evidence_cenv v rule"
    by (simp add: config_rules_def manifest_document_def fits_fields fits_object_def required_of_def get_or_def
        fits_simps rule_names_def filled_def py_strip_def lstrip_by_def rstrip_by_def is_space_def S_def)
  ultimately have "json_rule evidence_cenv (S ''manifest.json'') manifest_text (JObj config_rules) = Inr []"
    unfolding json_rule_fits filled_in_def by blast
  then obtain r where "artifact_check evidence_cenv (file_with manifest_text) manifest_args = Inr r" "r_passed r"
    using artifact_accepts [OF manifest_args_get(1) _ file_with_read(1) file_with_read(2), where contents = manifest_text and e = evidence_cenv]
    by (auto simp: manifest_args_get csv_row_rule_def csv_matches_rule_def junit_rule_def each_pattern_def
        py_iter_def)
  from evidence_manifest_sound [OF this manifest_args_get(2,1)] show ?thesis
    by (auto simp: list_all_iff)
qed

text \<open>
  An evidence file that exists but is empty passes every check of a lesson that only names fields,
  rows or test cases: those rules are skipped when the text is empty, and no failure is recorded.
  The manifest lesson of day 13 and the report lessons of days 7 and 10 are of this kind.
\<close>

theorem empty_evidence_passes:
  assumes "get_or JNull args (S ''file'') = JStr relative" and "relative \<noteq> []"
    and "resolve_repo_path rp relative = Inr path" and "read_artifact rp path relative = ([], [])"
    and "dget args (S ''contains'') = None"
  shows "\<exists>r. artifact_check e rp args = Inr r \<and> r_passed r"
proof (rule artifact_accepts [OF assms(1-4)])
  show "each_pattern (\<lambda>v. required_match (x_search_lines e) v []
        (\<lambda>p. relative @ S '' does not contain a match for '' @ matching p)) (get_or (JList []) args (S ''contains'')) = Inr []"
    by (simp add: assms(5) get_or_def each_pattern_def py_iter_def)
qed (simp_all add: csv_row_rule_def csv_matches_rule_def json_rule_def junit_rule_def split: json.split)

theorem empty_evidence_passes_witness:
  "\<exists>r. artifact_check evidence_cenv (file_with []) manifest_args = Inr r \<and> r_passed r"
  by (rule empty_evidence_passes [OF manifest_args_get(1) _ file_with_read manifest_args_get(6)]) simp

end
