(* ===== verification/Check_Probe.thy ===== *)
theory Check_Probe
  imports Check_Source Lab_Client
begin

text \<open>
  The behaviour probe (\<open>learning/checks/behavior_probe.py\<close>): a device is started on a port, a script
  of requests runs on one connection, and the failures become a verdict.

  The far end of the connection is a parameter: \<open>net\<close> says, for a state \<open>'s\<close> of its own, what comes of
  \<open>sendall\<close> and of reading a line.  What the reader of \<open>makefile\<close> adds is modelled: after a timeout it
  answers every further read with an \<open>OSError\<close>.
\<close>

record penv = cenv +
  p_float :: "pyfloat \<Rightarrow> pystr"
  p_tenths :: "pyfloat \<Rightarrow> pystr"
  p_python :: pystr
  p_path :: "pystr list \<Rightarrow> pystr"

section \<open>Waiting for the port\<close>

text \<open>
  Each try is the clock at the loop's test and whether the connection came up.  Tries that end before
  the deadline are too few: the result is then \<open>OutOfFuel\<close>.
\<close>

fun wait_for_port :: "pyfloat \<Rightarrow> (rat \<times> bool) list \<Rightarrow> py_exc + bool" where
  "wait_for_port deadline [] = Inl OutOfFuel"
| "wait_for_port deadline ((now, up) # tries) =
     (if \<not> before_deadline now deadline then Inr False
      else if up then Inr True
      else wait_for_port deadline tries)"

section \<open>A response against what a step expects\<close>

fun type_name :: "json \<Rightarrow> pystr" where
  "type_name JNull = S ''NoneType''"
| "type_name (JBool b) = S ''bool''"
| "type_name (JInt i) = S ''int''"
| "type_name (JFloat f) = S ''float''"
| "type_name (JStr s) = S ''str''"
| "type_name (JList xs) = S ''list''"
| "type_name (JObj d) = S ''dict''"

definition miss :: "('a cenv_scheme) \<Rightarrow> obj \<Rightarrow> pystr \<times> json \<Rightarrow> pystr list" where
  "miss e d = (\<lambda>(k, v).
     if py_eq (get_or JNull d k) v then []
     else [S ''expected '' @ k @ S ''='' @ x_repr e v @ S '', got '' @ x_repr e (get_or JNull d k)])"

definition matches :: "('a cenv_scheme) \<Rightarrow> obj \<Rightarrow> json \<Rightarrow> pystr list" where
  "matches e expected payload = (case payload of
     JObj d \<Rightarrow> concat (map (miss e d) expected)
   | _ \<Rightarrow> [S ''expected a JSON object, got '' @ type_name payload])"

text \<open>\<open>elapsed > limit\<close> and \<open>elapsed < limit\<close> for a number of milliseconds\<close>

definition over :: "int \<Rightarrow> pyfloat \<Rightarrow> bool" where
  "over ms x = (case x of Fin q \<Rightarrow> q < of_int ms | NInf \<Rightarrow> True | _ \<Rightarrow> False)"

definition under :: "int \<Rightarrow> pyfloat \<Rightarrow> bool" where
  "under ms x = (case x of Fin q \<Rightarrow> of_int ms < q | PInf \<Rightarrow> True | _ \<Rightarrow> False)"

section \<open>One connection\<close>

datatype arrival = Timed_out | Read_error | Line bytes

record 's net =
  n_send :: "bytes \<Rightarrow> 's \<Rightarrow> pystr option \<times> 's"     \<comment> \<open>\<open>Some\<close>: the text of an \<open>OSError\<close>\<close>
  n_read :: "'s \<Rightarrow> arrival \<times> int \<times> 's"              \<comment> \<open>and the milliseconds it took\<close>

record 's link =
  far_end :: 's
  reader_spent :: bool

definition read_line :: "'s net \<Rightarrow> 's link \<Rightarrow> arrival \<times> int \<times> 's link" where
  "read_line net l =
     (let (arrived, ms, s) = n_read net (far_end l)
      in if reader_spent l then (Read_error, ms, l)
         else (arrived, ms, \<lparr>far_end = s, reader_spent = (arrived = Timed_out)\<rparr>))"

definition asked :: "obj \<Rightarrow> string \<Rightarrow> bool" where
  "asked st k = truthy (get_or JNull st (S k))"

definition newline_terminated :: "pystr \<Rightarrow> pystr" where
  "newline_terminated s = (if ends_with [10] s then s else s @ [10])"

definition step_wire :: "penv \<Rightarrow> obj \<Rightarrow> py_exc + pystr" where
  "step_wire e st =
     (if get_or JNull st (S ''send'') \<noteq> JNull
      then res_bind (json_dumps (x_cap e) (p_float e) (get_or JNull st (S ''send''))) (\<lambda>t. Inr (t @ [10]))
      else case get_or JNull st (S ''send_raw'') of
             JStr raw \<Rightarrow> Inr (newline_terminated raw)
           | _ \<Rightarrow> Inr [])"

definition py_rstrip :: "pystr \<Rightarrow> pystr" where
  "py_rstrip = rstrip_by is_space"

definition in_ms :: "int \<Rightarrow> pystr" where
  "in_ms ms = dec_int ms @ S '' ms''"

text \<open>What a decoded response is held to.\<close>

definition limits_failures :: "penv \<Rightarrow> pystr \<Rightarrow> obj \<Rightarrow> int \<Rightarrow> pystr list" where
  "limits_failures e label st ms =
     (case as_number (get_or JNull st (S ''max_elapsed_ms'')) of
        Some x \<Rightarrow> if over ms x
          then [label @ S '': response took '' @ in_ms ms @ S '', over the '' @
                py_str (x_str e) (get_or JNull st (S ''max_elapsed_ms'')) @ S '' ms budget''] else []
      | None \<Rightarrow> []) @
     (case as_number (get_or JNull st (S ''min_elapsed_ms'')) of
        Some x \<Rightarrow> if under ms x
          then [label @ S '': response took '' @ in_ms ms @ S '', expected at least '' @
                py_str (x_str e) (get_or JNull st (S ''min_elapsed_ms'')) @ S '' ms (fault did not engage?)''] else []
      | None \<Rightarrow> [])"

definition payload_failures :: "penv \<Rightarrow> pystr \<Rightarrow> obj \<Rightarrow> json \<Rightarrow> int \<Rightarrow> pystr list" where
  "payload_failures e label st payload ms =
     (case get_or JNull st (S ''expect'') of
        JObj expected \<Rightarrow> map (\<lambda>m. label @ S '': '' @ m) (matches e expected payload)
      | _ \<Rightarrow> []) @ limits_failures e label st ms"

definition line_failures :: "penv \<Rightarrow> pystr \<Rightarrow> obj \<Rightarrow> pystr \<Rightarrow> int \<Rightarrow> pystr list" where
  "line_failures e label st line ms =
     (if asked st ''expect_timeout'' \<or> asked st ''expect_closed''
      then [label @ S '': expected no response, but received one'']
      else case loads (builtin_int (x_cap e)) (x_depth e) line of
             Inl _ \<Rightarrow> if asked st ''expect_invalid_json'' then []
               else [label @ S '': response was not valid JSON: '' @ x_repr e (JStr line)]
           | Inr payload \<Rightarrow>
               if asked st ''expect_invalid_json''
               then [label @ S '': expected an unparseable response, but the DUT returned valid JSON: '' @
                     x_repr e (JStr (py_rstrip line))]
               else payload_failures e label st payload ms)"

datatype flow = Go_on | Stop

text \<open>After the send: the read, its failures, its lines of the transcript, and whether the loop goes on.\<close>

definition receive ::
    "penv \<Rightarrow> 's net \<Rightarrow> pystr \<Rightarrow> obj \<Rightarrow> 's link \<Rightarrow> py_exc + (pystr list \<times> pystr list \<times> flow \<times> 's link)" where
  "receive e net label st l =
     (let (arrived, ms, l') = read_line net l
      in case arrived of
           Line bs \<Rightarrow>
             (case utf8_strict bs of
                None \<Rightarrow> Inl ValueError
              | Some line \<Rightarrow>
                  if line = []
                  then if asked st ''expect_closed'' then Inr ([], [S ''<< (connection closed, expected)''], Go_on, l')
                       else Inr ([label @ S '': connection closed unexpectedly''], [], Stop, l')
                  else Inr (line_failures e label st line ms,
                         [S ''<< '' @ py_rstrip line @ S '' ('' @ in_ms ms @ S '')''], Go_on, l'))
         | _ \<Rightarrow>
             if asked st ''expect_timeout''
             then Inr ([], [S ''<< (timeout after '' @ in_ms ms @ S '', expected)''], Go_on, l')
             else Inr ([label @ S '': timed out waiting for a response''], [], Stop, l'))"

definition run_step ::
    "penv \<Rightarrow> 's net \<Rightarrow> pystr \<Rightarrow> obj \<Rightarrow> 's link \<Rightarrow> py_exc + (pystr list \<times> pystr list \<times> flow \<times> 's link)" where
  "run_step e net label st l =
     res_bind (step_wire e st) (\<lambda>wire.
       if wire = [] then receive e net label st l
       else if \<not> str_ok wire then Inl ValueError
       else
         (case n_send net (utf8_encode wire) (far_end l) of
            (None, s) \<Rightarrow>
              res_bind (receive e net label st (l\<lparr>far_end := s\<rparr>)) (\<lambda>(fs, ts, go, l').
                Inr (fs, (S ''>> '' @ py_rstrip wire) # ts, go, l'))
          | (Some why, s) \<Rightarrow>
              if asked st ''expect_send_error''
              then Inr ([], [S ''>> send failed as expected ('' @ why @ S '')''], Go_on, l\<lparr>far_end := s\<rparr>)
              else Inr ([label @ S '': send failed: '' @ why], [], Stop, l\<lparr>far_end := s\<rparr>)))"

fun run_steps_from ::
    "penv \<Rightarrow> 's net \<Rightarrow> nat \<Rightarrow> obj list \<Rightarrow> 's link \<Rightarrow> py_exc + pystr list \<times> pystr list" where
  "run_steps_from e net index [] l = Inr ([], [])"
| "run_steps_from e net index (st # sts) l =
     res_bind (run_step e net (S ''step '' @ dec_nat (Suc index)) st l) (\<lambda>(fs, ts, go, l').
       case go of
         Stop \<Rightarrow> Inr (fs, ts)
       | Go_on \<Rightarrow> res_bind (run_steps_from e net (Suc index) sts l') (\<lambda>(fs', ts'). Inr (fs @ fs', ts @ ts')))"

definition run_steps :: "penv \<Rightarrow> 's net \<Rightarrow> obj list \<Rightarrow> 's \<Rightarrow> py_exc + pystr list \<times> pystr" where
  "run_steps e net sts s =
     res_bind (run_steps_from e net 0 sts \<lparr>far_end = s, reader_spent = False\<rparr>) (\<lambda>(fs, ts). Inr (fs, join [10] ts))"

section \<open>The device\<close>

definition dut_argv :: "penv \<Rightarrow> repo \<Rightarrow> pystr \<Rightarrow> pystr \<Rightarrow> nat \<Rightarrow> pystr \<Rightarrow> py_exc + pystr list" where
  "dut_argv e rp implementation host port log_path =
     (let shared = [S ''--host'', host, S ''--port'', dec_nat port, S ''--log-file'', log_path];
          binary = (\<lambda>name. rp_root rp @ [S ''cpp'', S ''build'', S ''bin'', name])
      in if implementation = S ''cpp''
         then if rp_is_file rp (binary (S ''dut.exe'')) then Inr (p_path e (binary (S ''dut.exe'')) # shared)
              else if rp_is_file rp (binary (S ''dut'')) then Inr (p_path e (binary (S ''dut'')) # shared)
              else Inl FileNotFoundError
         else if implementation \<noteq> S ''python'' then Inl ValueError
         else Inr ([p_python e, S ''-m'', S ''simulator.simulator''] @ shared))"

definition not_built :: pystr where
  "not_built = S ''the C++ DUT is not built '' @ [8212] @
     S '' run: cmake -S cpp -B cpp/build && cmake --build cpp/build''"

section \<open>The verdict\<close>

definition calm_note :: pystr where
  "calm_note = S ''Check failed: this run was supposed to reproduce the fault and did not '' @ [8212] @
     S '' the DUT behaved normally, so there is no symptom to diagnose. Check the fault arguments.''"

text \<open>The failures that match the wanted pattern, none when no pattern is wanted.\<close>

definition symptoms :: "('a cenv_scheme) \<Rightarrow> json \<Rightarrow> pystr list \<Rightarrow> py_exc + pystr list" where
  "symptoms e wanted failures =
     (if truthy wanted
      then res_bind (res_map (x_search e (py_str (x_str e) wanted)) failures) (\<lambda>found.
             Inr (map fst (filter snd (zip failures found))))
      else Inr [])"

definition verdict :: "('a cenv_scheme) \<Rightarrow> obj \<Rightarrow> pystr list \<Rightarrow> py_exc + bool \<times> pystr" where
  "verdict e args failures =
     (if truthy (get_or (JBool False) args (S ''expect_failure''))
      then
        (let wanted = get_or JNull args (S ''expect_failure_matches'')
         in res_bind (symptoms e wanted failures) (\<lambda>symptom.
            let unexpected = filter (\<lambda>f. f \<notin> set symptom) failures;
                passed = (if truthy wanted then symptom \<noteq> [] \<and> unexpected = [] else failures \<noteq> [])
            in Inr (passed,
                 if passed
                 then py_str (x_str e) (get_or (JStr (S ''The symptom reproduced, which is the point: '' @
                        join (S ''; '') (if symptom \<noteq> [] then symptom else failures))) args k_success_note)
                 else if failures = [] then calm_note
                 else if symptom = []
                 then S ''Check failed: the run went red for the wrong reason. Expected a failure matching '' @
                      matching (py_str (x_str e) wanted) @ S '', got: '' @ join (S ''; '') failures
                 else S ''Check failed: the symptom reproduced, but something else went wrong too, so the run does not show what it claims: '' @
                      join (S ''; '') unexpected)))
      else Inr (failures = [],
             if failures = [] then py_str (x_str e) (get_or (JStr (S ''DUT behaved exactly as expected.'')) args k_success_note)
             else check_failed failures))"

section \<open>The probe\<close>

text \<open>
  What the run meets: the port, the start of the process, the tries for its port, \<open>poll\<close> afterwards,
  the connection (\<open>Inl\<close> when it does not come up within the response timeout), the log file, and what is left when it is reaped.
\<close>

record 's surroundings =
  w_port :: nat
  w_log_path :: pystr
  w_spawn :: "pystr list \<Rightarrow> py_exc option"
  w_tries :: "(rat \<times> bool) list"
  w_now :: rat
  w_polled :: "int option"
  w_connect :: "pyfloat \<Rightarrow> py_exc + 's"
  w_log :: "py_exc + pystr"
  w_code :: "int option"
  w_out :: pystr
  w_ms :: int

definition all_objects :: "json \<Rightarrow> obj list option" where
  "all_objects v = (case v of
     JList xs \<Rightarrow> if list_all is_dict xs then Some (map (the \<circ> as_dict) xs) else None | _ \<Rightarrow> None)"

definition plus_seconds :: "rat \<Rightarrow> pyfloat \<Rightarrow> pyfloat" where
  "plus_seconds now x = (case x of Fin d \<Rightarrow> Fin (now + d) | _ \<Rightarrow> x)"

text \<open>From the wait for the port to the end of the steps: failures and transcript.\<close>

definition probe_body ::
    "penv \<Rightarrow> (pyfloat \<Rightarrow> 's net) \<Rightarrow> 's surroundings \<Rightarrow> pyfloat \<Rightarrow> pyfloat \<Rightarrow> bool \<Rightarrow> obj list \<Rightarrow>
      py_exc + pystr list \<times> pystr" where
  "probe_body e net w reply_timeout startup_timeout wait_ready sts =
     res_bind (if wait_ready then wait_for_port (plus_seconds (w_now w) startup_timeout) (w_tries w) else Inr True)
     (\<lambda>ready.
       if \<not> ready
       then Inr ([S ''DUT did not accept connections within '' @ p_tenths e startup_timeout @ S ''s''], [])
       else (case w_polled w of
               Some code \<Rightarrow> Inr ([S ''DUT exited early with code '' @ dec_int code], [])
             | None \<Rightarrow>
                 if sts = [] then Inr ([], [])
                 else res_bind (w_connect w reply_timeout) (run_steps e (net reply_timeout) sts)))"

definition log_failures :: "penv \<Rightarrow> 's surroundings \<Rightarrow> json \<Rightarrow> py_exc + pystr list" where
  "log_failures e w v = (case v of
     JStr pattern \<Rightarrow>
       res_bind (w_log w) (\<lambda>log_text. res_bind (x_search e pattern log_text) (\<lambda>found.
         Inr (if found then [] else [S ''DUT log did not match '' @ matching pattern])))
   | _ \<Rightarrow> Inr [])"

definition exit_failures :: "penv \<Rightarrow> json \<Rightarrow> int option \<Rightarrow> pystr list" where
  "exit_failures e v code = (case as_int v of
     Some want \<Rightarrow> if code = Some want then []
       else [S ''expected DUT exit code '' @ py_str (x_str e) v @ S '', got '' @ exit_text code]
   | None \<Rightarrow> [])"

definition behavior_probe ::
    "penv \<Rightarrow> (pyfloat \<Rightarrow> 's net) \<Rightarrow> repo \<Rightarrow> 's surroundings \<Rightarrow> obj \<Rightarrow> py_exc + check_result" where
  "behavior_probe e net rp w args =
     (case all_strings (get_or (JList []) args (S ''dut_args'')) of
        None \<Rightarrow> Inl ValueError
      | Some dut_args \<Rightarrow>
     (case all_objects (get_or (JList []) args (S ''steps'')) of
        None \<Rightarrow> Inl ValueError
      | Some sts \<Rightarrow>
     res_bind (to_float (x_float e) (get_or (JFloat (Fin (3/2))) args (S ''response_timeout''))) (\<lambda>reply_timeout.
     res_bind (to_float (x_float e) (get_or (JFloat (Fin 5)) args (S ''startup_timeout''))) (\<lambda>startup_timeout.
     res_bind (clamp_timeout (x_float e) args) (\<lambda>overall.
       case dut_argv e rp (py_str (x_str e) (get_or (JStr (S ''python'')) args (S ''dut''))) (S ''127.0.0.1'')
              (w_port w) (w_log_path w) of
         Inl x \<Rightarrow>
           if x = FileNotFoundError
           then Inr \<lparr>r_name = S ''behavior_probe'', r_passed = False, r_exit = None, r_stdout = [], r_stderr = [],
                  r_duration = w_ms w, r_interpretation = S ''Check failed: '' @ not_built, r_timed_out = False,
                  r_details = []\<rparr>
           else Inl x
       | Inr argv \<Rightarrow>
           (case w_spawn w (argv @ dut_args) of
              Some x \<Rightarrow> Inl x
            | None \<Rightarrow>
                res_bind (probe_body e net w reply_timeout startup_timeout
                    (truthy (get_or (JBool True) args (S ''wait_ready''))) sts) (\<lambda>(f1, transcript).
                res_bind (log_failures e w (get_or JNull args (S ''log_expect_regex''))) (\<lambda>f2.
                  let late = (case overall of Fin q \<Rightarrow> q * 1000 < of_int (w_ms w) | NInf \<Rightarrow> True | _ \<Rightarrow> False);
                      failures = f1 @ f2 @
                        (if late then [S ''probe exceeded the '' @ x_seconds e overall @ S ''s budget''] else []) @
                        exit_failures e (get_or JNull args (S ''expect_dut_exit'')) (w_code w)
                  in res_bind (verdict e args failures) (\<lambda>(passed, note).
                     Inr \<lparr>r_name = S ''behavior_probe'', r_passed = passed, r_exit = w_code w,
                       r_stdout = truncate_output transcript, r_stderr = truncate_output (w_out w),
                       r_duration = w_ms w, r_interpretation = note, r_timed_out = late, r_details = []\<rparr>)))))))))"

end
