(* ===== verification/Check_Probe_Gates.thy ===== *)
theory Check_Probe_Gates
  imports Check_Probe
begin

text \<open>
  What the behaviour probe establishes: run against the device's own model it tells the faults apart;
  an expected failure is accepted for the stated reason only; and what a timeout does to the rest of a
  script.
\<close>

section \<open>The device as the far end\<close>

text \<open>One exchange on a fresh connection with a device of the given faults; the state is what was sent to it.\<close>

definition device_net :: "interpreter \<Rightarrow> fault_config \<Rightarrow> rat \<Rightarrow> bytes net" where
  "device_net py faults timeout =
     \<lparr>n_send = (\<lambda>bs s. (None, s @ bs)),
      n_read = (\<lambda>s. (case dut_reply py faults 0 timeout s of Io_error \<Rightarrow> Timed_out | Io_line b \<Rightarrow> Line b, 0, s))\<rparr>"

datatype expectation = Answer | Silence | Closing | Garbage

fun expecting :: "expectation \<Rightarrow> obj \<Rightarrow> obj" where
  "expecting Answer m = [(S ''expect'', JObj (expected_reply m))]"
| "expecting Silence m = [(S ''expect_timeout'', JBool True)]"
| "expecting Closing m = [(S ''expect_closed'', JBool True)]"
| "expecting Garbage m = [(S ''expect_invalid_json'', JBool True)]"

definition step_for :: "obj \<Rightarrow> expectation \<Rightarrow> obj" where
  "step_for m x = (S ''send'', JObj m) # expecting x m"

definition shows_as :: "int \<Rightarrow> rat \<Rightarrow> fault_name \<Rightarrow> expectation" where
  "shows_as delay timeout f = (case f of
     Delayed_response \<Rightarrow> if timeout * 1000 < of_int delay then Silence else Answer
   | Dropped_connection \<Rightarrow> Closing
   | Malformed_response \<Rightarrow> Garbage
   | Startup_delay \<Rightarrow> Answer
   | Process_termination \<Rightarrow> Closing)"

lemma step_for_get [simp]:
  "get_or JNull (step_for m x) (S ''send'') = JObj m"
  "asked (step_for m x) ''expect_timeout'' \<longleftrightarrow> x = Silence"
  "asked (step_for m x) ''expect_closed'' \<longleftrightarrow> x = Closing"
  "asked (step_for m x) ''expect_invalid_json'' \<longleftrightarrow> x = Garbage"
  "get_or JNull (step_for m x) (S ''expect'') = (if x = Answer then JObj (expected_reply m) else JNull)"
  "get_or JNull (step_for m x) (S ''max_elapsed_ms'') = JNull"
  "get_or JNull (step_for m x) (S ''min_elapsed_ms'') = JNull"
  by (cases x; simp add: step_for_def get_or_def asked_def)+

lemma py_eq_refl: "plain ph j \<Longrightarrow> wf_json j \<Longrightarrow> py_eq j j"
proof (induction j rule: json_induct)
  case (JList xs)
  then show ?case by (auto simp: list_all_iff in_set_zip)
next
  case (JObj ps)
  have "map_of ps k = Some v" if "(k, v) \<in> set ps" for k v
    using JObj.prems(2) that by (simp add: dict_ok_def dkeys_def)
  moreover have "py_eq v v" if "(k, v) \<in> set ps" for k v
    using JObj.IH [OF that] JObj.prems that by auto
  ultimately show ?case by (auto simp: list_all_iff)
qed auto

lemma matches_itself:
  assumes "plain ph (JObj d)" and "wf_json (JObj d)"
  shows "matches e d (JObj d) = []"
proof -
  have "py_eq (get_or JNull d k) v" if "(k, v) \<in> set d" for k v
    using assms that py_eq_refl [of ph v] by (auto simp: get_or_def dict_ok_def dkeys_def)
  then show ?thesis by (auto simp: matches_def miss_def)
qed

section \<open>One exchange\<close>

lemma sent_step:
  assumes "short_request (p_float e) m" and "client_ok (x_cap e) (x_depth e) m"
  shows "run_step e (device_net py faults timeout) label (step_for m x) \<lparr>far_end = [], reader_spent = False\<rparr> =
    res_bind (receive e (device_net py faults timeout) label (step_for m x)
        \<lparr>far_end = frame (p_float e) m, reader_spent = False\<rparr>)
      (\<lambda>(fs, ts, go, l). Inr (fs, (S ''>> '' @ py_rstrip (dumps (p_float e) (JObj m) @ [10])) # ts, go, l))"
proof -
  have p: "plain (builtin_int (x_cap e)) (JObj m)" using assms(2) by (simp add: client_ok_def)
  have "sendable (JObj m)" using assms(1) by (simp add: short_request_def)
  from wire.enc_printable [OF this, of "p_float e"] have "str_ok (dumps (p_float e) (JObj m) @ [10])"
    by (auto simp: printable_def str_ok_def scalar_def)
  then show ?thesis
    by (simp add: run_step_def step_wire_def json_dumps_plain [OF p] device_net_def frame_def)
qed

definition read_of :: "exchange \<Rightarrow> arrival" where
  "read_of x = (case x of Io_error \<Rightarrow> Timed_out | Io_line b \<Rightarrow> Line b)"

lemma read_device:
  "read_line (device_net py faults timeout) \<lparr>far_end = s, reader_spent = False\<rparr> =
     (read_of (dut_reply py faults 0 timeout s), 0,
      \<lparr>far_end = s, reader_spent = (dut_reply py faults 0 timeout s = Io_error)\<rparr>)"
  by (simp add: read_line_def device_net_def read_of_def split: exchange.split)

lemma run_one:
  "(\<exists>tr. run_steps e net [st] s = Inr ([], tr)) \<longleftrightarrow>
     (\<exists>ts go l. run_step e net (S ''step '' @ dec_nat 1) st \<lparr>far_end = s, reader_spent = False\<rparr> = Inr ([], ts, go, l))"
proof -
  have "run_steps e net [st] s =
      res_bind (run_step e net (S ''step '' @ dec_nat 1) st \<lparr>far_end = s, reader_spent = False\<rparr>)
        (\<lambda>(fs, ts, go, l). Inr (fs, join [10] ts))"
    by (cases "run_step e net (S ''step '' @ dec_nat 1) st \<lparr>far_end = s, reader_spent = False\<rparr>")
      (auto simp: run_steps_def split: flow.split)
  then show ?thesis by (auto simp: res_bind_Inr)
qed

lemma exchange_failures:
  assumes "short_request (p_float e) m" and "client_ok (x_cap e) (x_depth e) m"
  shows "(\<exists>tr. run_steps e (device_net py faults timeout) [step_for m x] [] = Inr ([], tr)) \<longleftrightarrow>
    (case dut_reply py faults 0 timeout (frame (p_float e) m) of
       Io_error \<Rightarrow> x = Silence
     | Io_line bs \<Rightarrow> (case utf8_strict bs of
         None \<Rightarrow> False
       | Some line \<Rightarrow> if line = [] then x = Closing
           else line_failures e (S ''step '' @ dec_nat 1) (step_for m x) line 0 = []))"
  unfolding run_one sent_step [OF assms]
  by (auto simp: receive_def read_device read_of_def res_bind_Inr split: exchange.splits option.splits if_splits)

section \<open>After a timeout\<close>

lemma spent_receive:
  assumes "reader_spent l"
  shows "receive e net label st l =
    Inr (if asked st ''expect_timeout''
         then ([], [S ''<< (timeout after '' @ in_ms (fst (snd (n_read net (far_end l)))) @ S '', expected)''], Go_on, l)
         else ([label @ S '': timed out waiting for a response''], [], Stop, l))"
  using assms by (simp add: receive_def read_line_def split: prod.split)

lemma spent_step:
  assumes "reader_spent l" and "\<And>bs s. fst (n_send net bs s) = None"
    and "step_wire e st = Inr wire" and "str_ok wire"
  shows "\<exists>ts s. run_step e net label st l = Inr (if asked st ''expect_timeout'' then ([], ts, Go_on, l\<lparr>far_end := s\<rparr>)
    else ([label @ S '': timed out waiting for a response''], ts, Stop, l\<lparr>far_end := s\<rparr>))"
proof -
  obtain s where s: "n_send net (utf8_encode wire) (far_end l) = (None, s)"
    using assms(2) by (metis prod.collapse)
  have l: "l = l\<lparr>far_end := far_end l\<rparr>" by simp
  show ?thesis
  proof (cases "wire = []")
    case True
    then show ?thesis
      using l assms(3) by (auto simp: run_step_def spent_receive [OF assms(1)] intro: exI [of _ "far_end l"])
  next
    case False
    have sp: "reader_spent (l\<lparr>far_end := s\<rparr>)" using assms(1) by simp
    show ?thesis
      using False assms(3,4) s by (auto simp: run_step_def spent_receive [OF sp] intro: exI [of _ s])
  qed
qed

section \<open>The verdict\<close>

lemma symptoms_filter:
  assumes "truthy wanted" and "\<And>f. x_search e (py_str (x_str e) wanted) f = Inr (m f)"
  shows "symptoms e wanted failures = Inr (filter m failures)"
proof -
  have "map fst (filter snd (zip failures (map m failures))) = filter m failures"
    by (induction failures) auto
  then show ?thesis using assms(1) res_map_all [of failures "x_search e (py_str (x_str e) wanted)" m] assms(2) by (simp add: symptoms_def)
qed

section \<open>Properties\<close>

text \<open>
  C20: The probe tells the device's faults apart.  Run against the model of the device started with any
  fault preset, a step that sends a request and expects its answer, silence, a closed connection or an
  unparseable response has no failure exactly when that is how the preset shows: a delay past the
  response timeout as silence, a dropped connection and a process termination as a closed connection,
  a malformed response as garbage, and everything else as the answer to the message sent.
\<close>

theorem probe_tells_faults_apart:
  assumes "short_request (p_float e) m" and "client_ok (x_cap e) (x_depth e) m"
    and "MAX_NESTING_DEPTH \<le> recursion_room py" and "0 < timeout"
  shows "(\<exists>tr. run_steps e (device_net py (preset delay f) timeout) [step_for m x] [] = Inr ([], tr)) \<longleftrightarrow>
    x = shows_as delay timeout f"
proof -
  have wf: "wf_json (JObj m)" using assms(1) by (simp add: short_request_def sendable_def)
  have r: "replyable (x_cap e) (x_depth e) (JObj (build_response (canon (JObj m))))"
    using response_client_ok [OF wf assms(2)] by (simp add: replyable_def)
  note ex = exchange_reply [OF r canon_expected_reply]
  have g: "utf8_strict malformed_line = Some (S ''this-is-not-json'' @ [10])"
    unfolding malformed_line_def by (rule utf8_ascii(2)) (simp add: S_def)
  have "plain (builtin_int (x_cap e)) (JObj (expected_reply m))" "wf_json (JObj (expected_reply m))"
    using r plain_canon wf_canon unfolding canon_expected_reply [symmetric] replyable_def by blast+
  note own = matches_itself [OF this]
  show ?thesis
    unfolding exchange_failures [OF assms(1,2)] dut_reply_preset [OF assms(1,3,4)]
    by (cases f; cases x)
      (simp_all add: Let_def shows_as_def ex g loads_malformed line_failures_def payload_failures_def limits_failures_def
        own del: canon.simps)
qed

definition sample_penv :: penv where
  "sample_penv = cenv.extend plain_cenv \<lparr>p_float = (\<lambda>_. []), p_tenths = (\<lambda>_. []), p_python = S ''python'',
     p_path = (\<lambda>_. [])\<rparr>"

lemma sample_penv_simps [simp]:
  "x_cap sample_penv = 4300" "x_depth sample_penv = 100" "p_float sample_penv = (\<lambda>_. [])"
  "x_search sample_penv = (\<lambda>_ _. Inr True)"
  by (simp_all add: sample_penv_def plain_cenv_def cenv.extend_def)

theorem probe_tells_faults_apart_witness:
  "\<exists>tr. run_steps sample_penv
      (device_net \<lparr>int_max_str_digits = 4300, recursion_room = 900, float_repr = \<lambda>_. []\<rparr> (preset 400 Malformed_response) (3/2))
      [step_for [(k_command, JStr (S ''status''))] Garbage] [] = Inr ([], tr)"
proof -
  let ?m = "[(k_command, JStr (S ''status''))]"
  have "length (dumps (p_float sample_penv) (JObj ?m)) \<le> MAX_LINE_BYTES"
    by (simp add: dumps_def dump_string_def S_def esc_def newline_def k_command_def MAX_LINE_BYTES_def)
  then have short: "short_request (p_float sample_penv) ?m"
    by (simp add: short_request_def sendable_def MAX_NESTING_DEPTH_def str_ok_S k_command_def dict_ok_def dkeys_def)
  have ok: "client_ok (x_cap sample_penv) (x_depth sample_penv) ?m"
    by (simp add: client_ok_def str_ok_S k_command_def)
  show ?thesis
    using probe_tells_faults_apart [OF short ok, of
        "\<lparr>int_max_str_digits = 4300, recursion_room = 900, float_repr = \<lambda>_. []\<rparr>" "3/2" 400 Malformed_response Garbage]
    by (simp add: shows_as_def MAX_NESTING_DEPTH_def)
qed

text \<open>
  An expected failure is accepted for the stated reason and that reason only: with a pattern, the
  verdict is green exactly when the run failed and every one of its failures matches.
\<close>

theorem expected_failure_exact:
  assumes "truthy (get_or (JBool False) args (S ''expect_failure''))"
    and "get_or JNull args (S ''expect_failure_matches'') = wanted" and "truthy wanted"
    and "\<And>f. x_search e (py_str (x_str e) wanted) f = Inr (m f)"
  shows "(\<exists>note. verdict e args failures = Inr (True, note)) \<longleftrightarrow> failures \<noteq> [] \<and> (\<forall>f \<in> set failures. m f)"
  using assms by (auto simp: verdict_def symptoms_filter [OF assms(3,4)] filter_empty_conv ex_in_conv)

theorem expected_failure_exact_witness:
  "\<exists>note. verdict sample_penv [(S ''expect_failure'', JBool True), (S ''expect_failure_matches'', JStr (S ''budget''))]
     [S ''over the budget''] = Inr (True, note)"
  using expected_failure_exact [of "[(S ''expect_failure'', JBool True), (S ''expect_failure_matches'', JStr (S ''budget''))]"
      "JStr (S ''budget'')" sample_penv "\<lambda>_. True" "[S ''over the budget'']"]
  by (simp add: get_or_def)



end
