(* ===== verification/App_Shutdown.thy ===== *)
theory App_Shutdown
  imports App_Service
begin

text \<open>
  A check that ends while the server is shutting down (\<open>_handle_validate\<close> in
  \<open>learning/server/app.py\<close>): the flag was clear when the check started and is set when it is over.
\<close>

definition crashed :: "check_run \<Rightarrow> bool" where
  "crashed x = (case x of Crashed trace what \<Rightarrow> True | Finished r \<Rightarrow> False)"

text \<open>A mandatory check of an available lesson that is not a red stage, as a request names it.\<close>

definition gate_check :: "curriculum \<Rightarrow> obj \<Rightarrow> lesson \<Rightarrow> obj \<Rightarrow> pystr \<Rightarrow> obj \<Rightarrow> bool" where
  "gate_check c body l b v args \<longleftrightarrow>
     (case get_or JNull body k_lesson_id of JStr lid \<Rightarrow> dget (c_lessons c) lid = Some l | _ \<Rightarrow> False) \<and> l_status l = s_available \<and>
     verify_block l (get_or JNull body k_block_id) = Some b \<and> flag b k_mandatory \<and> \<not> flag b k_historical \<and>
     get_or JNull b k_validator = JStr v \<and> get_or (JObj []) b (S ''args'') = JObj args"

lemma validate_gate:
  assumes "gate_check c body l b v args"
  shows "handle_validate e c reg False closing2 body =
    (case run_validator reg v args of
       Finished result \<Rightarrow>
         if closing2 then fail_with 503 (S ''the learning server is shutting down; this check was stopped and its result discarded'')
         else record_check e l b result False
     | Crashed trace what \<Rightarrow> record_check e l b (crash_result v trace what) True)"
proof -
  have v: "read_field b k_validator = Inr (JStr v)"
    using assms by (auto simp: gate_check_def read_field_def get_or_def split: option.splits)
  show ?thesis
    using assms by (auto simp: gate_check_def handle_validate_def with_lesson_def lesson_or_404_def v fun_eq_iff
        op_bind_def op_lift_def split: check_run.split json.splits)
qed

lemma recorded_crash:
  assumes "flag b k_mandatory" and "\<not> flag b k_historical"
  shows "snd (record_check e l b (crash_result v trace what) True s) =
    snd (record_validation (e_now e) (l_id l) (block_id b) False True [] False s)"
  using assms by (auto simp: record_check_def crash_result_def op_bind_def op_then_def op_return_def answer_def Let_def
      split: prod.split sum.split)



end
