(* ===== verification/Check_Pytest.thy ===== *)
theory Check_Pytest
  imports Check_Artifact
begin

text \<open>
  Running tests as a check (\<open>learning/checks/pytest_check.py\<close>): the selected tests run in a sandbox,
  and the exit status, the JUnit report and the output are held against what the lesson expects.

  The sandbox is a parameter: its paths, and the report pytest leaves there.
\<close>

datatype report = No_report | Unparseable | Report xml

record sandbox =
  sb_root :: pystr
  sb_junit :: pystr
  sb_basetemp :: pystr
  sb_report :: report

section \<open>The report\<close>

text \<open>The named testcases; a set is the list of its members.\<close>

definition named_cases :: "report \<Rightarrow> xml list" where
  "named_cases rep = (case rep of
     Report doc \<Rightarrow> filter (\<lambda>x. case_name x \<noteq> []) (iter_tag (S ''testcase'') doc)
   | _ \<Rightarrow> [])"

definition junit_test_names :: "report \<Rightarrow> pystr list \<times> pystr list \<times> pystr list" where
  "junit_test_names rep =
     (let names = (\<lambda>xs. remdups (map case_name xs)); cases = named_cases rep
      in (names cases, names (filter (has_child (S ''skipped'')) cases), names (filter (has_child (S ''failure'')) cases)))"

definition name_failures ::
    "('a cenv_scheme) \<Rightarrow> bool \<Rightarrow> pystr list \<times> pystr list \<times> pystr list \<Rightarrow> json \<Rightarrow> pystr list" where
  "name_failures e strict = (\<lambda>(names, skipped, failed) v. case v of
     JStr expected \<Rightarrow>
       (let found = filter (contains expected) names
        in if found = []
           then [S ''JUnit report does not contain a testcase matching '' @ x_repr e v @ S '' (found: '' @
                 (if names = [] then S ''none'' else x_repr e (JList (map JStr (sort names)))) @ S '')'']
           else if list_all (\<lambda>n. n \<in> set skipped) found
           then [S ''every test matching '' @ x_repr e v @ S '' was skipped, so nothing was actually verified'']
           else if strict \<and> \<not> list_ex (\<lambda>n. n \<in> set failed) found
           then [x_repr e v @ S '' did not fail as a test: it errored during collection or setup, which proves nothing about the behaviour under test'']
           else [])
   | _ \<Rightarrow> [])"

section \<open>The arguments\<close>

definition stdout_patterns :: "json \<Rightarrow> pystr list option" where
  "stdout_patterns v = (case v of JStr p \<Rightarrow> Some [p] | JNull \<Rightarrow> Some [] | _ \<Rightarrow> all_strings v)"

record pytest_args =
  a_nodeids :: "pystr list"
  a_fails :: bool
  a_names :: "json list"
  a_patterns :: "pystr list"
  a_strict :: bool
  a_limit :: pyfloat
  a_extra :: "pystr list"

definition raise_none :: "py_exc \<Rightarrow> 'a option \<Rightarrow> py_exc + 'a" where
  "raise_none x v = (case v of None \<Rightarrow> Inl x | Some a \<Rightarrow> Inr a)"

definition read_args :: "cenv \<Rightarrow> obj \<Rightarrow> py_exc + pytest_args" where
  "read_args e args =
     res_bind (raise_none ValueError (all_strings (get_or JNull args (S ''nodeids'')))) (\<lambda>nodeids.
     if nodeids = [] then Inl ValueError
     else
       (let expected = get_or (JStr (S ''pass'')) args (S ''expect'')
        in if expected \<noteq> JStr (S ''pass'') \<and> expected \<noteq> JStr (S ''fail'') then Inl ValueError
           else
             (case get_or (JList []) args (S ''junit_contains'') of
                JList names \<Rightarrow>
                  res_bind (raise_none ValueError (stdout_patterns (get_or JNull args (S ''expect_stdout_regex'')))) (\<lambda>ps.
                  res_bind (clamp_timeout (x_float e) args) (\<lambda>limit.
                  res_bind (raise_none ValueError (all_strings (get_or (JList []) args (S ''pytest_args'')))) (\<lambda>extra.
                    Inr \<lparr>a_nodeids = nodeids, a_fails = (expected = JStr (S ''fail'')), a_names = names, a_patterns = ps,
                         a_strict = truthy (get_or (JBool False) args (S ''require_assertion_failure'')),
                         a_limit = limit, a_extra = extra\<rparr>)))
              | _ \<Rightarrow> Inl ValueError)))"

section \<open>The check\<close>

definition pytest_argv :: "pystr \<Rightarrow> sandbox \<Rightarrow> pytest_args \<Rightarrow> pystr list" where
  "pytest_argv python sb a =
     [python, S ''-m'', S ''pytest'', S ''-v'', S ''--junitxml='' @ sb_junit sb, S ''--basetemp='' @ sb_basetemp sb,
      S ''-p'', S ''no:cacheprovider''] @ a_extra a @ a_nodeids a"

definition exit_status_failures :: "cenv \<Rightarrow> pytest_args \<Rightarrow> outcome \<Rightarrow> pystr list" where
  "exit_status_failures e a proc =
     (if o_timed_out proc then [S ''pytest did not finish within '' @ x_seconds e (a_limit a) @ S ''s'']
      else if \<not> a_fails a \<and> o_exit proc \<noteq> Some 0
      then [S ''expected tests to pass (exit 0), got exit '' @ exit_text (o_exit proc)]
      else if a_fails a \<and> o_exit proc = Some 0
      then [S ''expected at least one test failure, but pytest exited 0'']
      else [])"

definition pytest_failures :: "cenv \<Rightarrow> pytest_args \<Rightarrow> sandbox \<Rightarrow> outcome \<Rightarrow> py_exc + pystr list" where
  "pytest_failures e a sb proc =
     res_bind (res_map (\<lambda>p. required_match (x_search e) (JStr p) (o_out proc)
         (\<lambda>p. S ''pytest output did not match '' @ matching p)) (a_patterns a)) (\<lambda>unmatched.
       Inr ((exit_status_failures e a proc @
         concat (map (name_failures e (a_strict a) (junit_test_names (sb_report sb))) (a_names a))) @
         concat unmatched))"

definition pytest_note :: "obj \<Rightarrow> bool \<Rightarrow> pystr" where
  "pytest_note args fails =
     (let otherwise = (if fails
        then S ''Tests failed as expected '' @ [8212] @ S '' the failure and its evidence were produced on purpose.''
        else S ''Tests passed and produced the expected evidence.'')
      in case get_or JNull args k_success_note of
           JStr note \<Rightarrow> if note \<noteq> [] then note else otherwise
         | _ \<Rightarrow> otherwise)"

definition pytest_check ::
    "cenv \<Rightarrow> spawner \<Rightarrow> pystr dict \<Rightarrow> pystr \<Rightarrow> sandbox \<Rightarrow> obj \<Rightarrow> py_exc + check_result" where
  "pytest_check e spawn vars python sb args =
     res_bind (read_args e args) (\<lambda>a.
     res_bind (run_subprocess spawn vars (pytest_argv python sb a) (a_limit a) [(S ''EVIDENCE_DIR'', sb_root sb)]) (\<lambda>proc.
     res_bind (pytest_failures e a sb proc) (\<lambda>failures.
       let (names, skipped, failed) = junit_test_names (sb_report sb);
           listed = (\<lambda>ns. JList (map JStr (sort ns)))
       in Inr \<lparr>r_name = S ''pytest_check'', r_passed = (failures = []), r_exit = o_exit proc,
            r_stdout = truncate_output (o_out proc), r_stderr = truncate_output (o_err proc), r_duration = o_ms proc,
            r_interpretation = (if failures = [] then pytest_note args (a_fails a) else check_failed failures),
            r_timed_out = o_timed_out proc,
            r_details = [(S ''junit_testcases'', listed names), (S ''skipped'', listed skipped), (S ''failed'', listed failed)]\<rparr>)))"

section \<open>When it passes\<close>

text \<open>A testcase the report records under a name that contains the expected one.\<close>

definition recorded :: "report \<Rightarrow> pystr \<Rightarrow> xml \<Rightarrow> bool" where
  "recorded rep expected x \<longleftrightarrow> x \<in> set (named_cases rep) \<and> contains expected (case_name x)"

definition skipped_name :: "report \<Rightarrow> pystr \<Rightarrow> bool" where
  "skipped_name rep n \<longleftrightarrow> (\<exists>x \<in> set (named_cases rep). case_name x = n \<and> has_child (S ''skipped'') x)"

definition evidence_of :: "report \<Rightarrow> bool \<Rightarrow> pystr \<Rightarrow> bool" where
  "evidence_of rep strict expected \<longleftrightarrow>
     (\<exists>x. recorded rep expected x \<and> \<not> skipped_name rep (case_name x)) \<and>
     (strict \<longrightarrow> (\<exists>x. recorded rep expected x \<and> has_child (S ''failure'') x))"

lemma named_sets:
  assumes "junit_test_names rep = (names, skipped, failed)"
  shows "set names = case_name ` set (named_cases rep)" "n \<in> set skipped \<longleftrightarrow> skipped_name rep n"
    "n \<in> set failed \<longleftrightarrow> (\<exists>x \<in> set (named_cases rep). case_name x = n \<and> has_child (S ''failure'') x)"
  using assms by (auto simp: junit_test_names_def Let_def skipped_name_def)

lemma name_failures_none:
  "name_failures e strict (junit_test_names rep) (JStr expected) = [] \<longleftrightarrow> evidence_of rep strict expected"
proof -
  obtain names skipped failed where t: "junit_test_names rep = (names, skipped, failed)" by (metis prod_cases3)
  note n = named_sets [OF t]
  have "filter (contains expected) names = [] \<longleftrightarrow> \<not> (\<exists>x. recorded rep expected x)"
    unfolding filter_empty_conv n(1) recorded_def by blast
  moreover have "list_all (\<lambda>m. m \<in> set skipped) (filter (contains expected) names) \<longleftrightarrow>
      \<not> (\<exists>x. recorded rep expected x \<and> \<not> skipped_name rep (case_name x))"
    unfolding list_all_iff n(2) set_filter n(1) recorded_def by blast
  moreover have "list_ex (\<lambda>m. m \<in> set failed) (filter (contains expected) names) \<longleftrightarrow>
      (\<exists>x. recorded rep expected x \<and> has_child (S ''failure'') x)"
    unfolding list_ex_iff n(3) set_filter n(1) recorded_def by (auto; metis)
  ultimately show ?thesis by (auto simp: name_failures_def t Let_def evidence_of_def)
qed

lemma exit_status_none:
  "exit_status_failures e a proc = [] \<longleftrightarrow> \<not> o_timed_out proc \<and> (a_fails a \<longleftrightarrow> o_exit proc \<noteq> Some 0)"
  by (auto simp: exit_status_failures_def)

lemma names_none:
  "concat (map (name_failures e strict (junit_test_names rep)) vs) = [] \<longleftrightarrow>
     (\<forall>n. JStr n \<in> set vs \<longrightarrow> evidence_of rep strict n)"
proof (induction vs)
  case (Cons v vs)
  then show ?case
    by (cases v) (auto simp: name_failures_none, auto simp: name_failures_def split: prod.splits)
qed simp

lemma pytest_failures_none:
  "pytest_failures e a sb proc = Inr [] \<longleftrightarrow> \<not> o_timed_out proc \<and> (a_fails a \<longleftrightarrow> o_exit proc \<noteq> Some 0) \<and>
     (\<forall>n. JStr n \<in> set (a_names a) \<longrightarrow> evidence_of (sb_report sb) (a_strict a) n) \<and>
     (\<forall>p \<in> set (a_patterns a). x_search e p (o_out proc) = Inr True)"
  unfolding pytest_failures_def res_map_all_nil append_is_Nil_conv exit_status_none names_none required_match_none
  by auto

lemma pytest_failures_total:
  assumes "\<forall>p \<in> set (a_patterns a). \<exists>b. x_search e p (o_out proc) = Inr b"
  shows "\<exists>fs. pytest_failures e a sb proc = Inr fs"
proof -
  have "\<exists>us. res_map (\<lambda>p. required_match (x_search e) (JStr p) (o_out proc)
      (\<lambda>p. S ''pytest output did not match '' @ matching p)) ps = Inr us" if "set ps \<subseteq> set (a_patterns a)" for ps
    using that
  proof (induction ps)
    case (Cons p ps)
    then obtain b us where "x_search e p (o_out proc) = Inr b" "res_map (\<lambda>p. required_match (x_search e) (JStr p) (o_out proc)
        (\<lambda>p. S ''pytest output did not match '' @ matching p)) ps = Inr us"
      using assms by fastforce
    then show ?case by (simp add: required_match_def)
  qed simp
  then show ?thesis by (force simp: pytest_failures_def)
qed

section \<open>Properties\<close>

text \<open>
  C22: A test check is green for the stated reason only.  It passes exactly when the run finished in
  time with the exit status the lesson expects, the output matches every pattern, and for every
  testcase name asked for the report records a case of that name that was not skipped - and, where the
  lesson asks for a failed assertion, one that failed rather than errored.
\<close>

theorem pytest_gate_exact:
  assumes "read_args e args = Inr a"
    and "run_subprocess spawn vars (pytest_argv python sb a) (a_limit a) [(S ''EVIDENCE_DIR'', sb_root sb)] = Inr proc"
    and "\<forall>p \<in> set (a_patterns a). \<exists>b. x_search e p (o_out proc) = Inr b"
  shows "\<exists>r. pytest_check e spawn vars python sb args = Inr r \<and> (r_passed r \<longleftrightarrow>
    \<not> o_timed_out proc \<and> (a_fails a \<longleftrightarrow> o_exit proc \<noteq> Some 0) \<and>
    (\<forall>n. JStr n \<in> set (a_names a) \<longrightarrow> evidence_of (sb_report sb) (a_strict a) n) \<and>
    (\<forall>p \<in> set (a_patterns a). x_search e p (o_out proc) = Inr True))"
proof -
  obtain fs where fs: "pytest_failures e a sb proc = Inr fs" using pytest_failures_total [OF assms(3)] by blast
  obtain names skipped failed where t: "junit_test_names (sb_report sb) = (names, skipped, failed)" by (metis prod_cases3)
  have "fs = [] \<longleftrightarrow> pytest_failures e a sb proc = Inr []" using fs by simp
  then show ?thesis
    unfolding pytest_failures_none by (simp add: pytest_check_def assms(1,2) fs t)
qed

definition red_run :: child where
  "red_run = \<lparr>ch_first = Some ([], []), ch_killed = None, ch_code = Some 1, ch_ms = 10\<rparr>"

definition red_sandbox :: sandbox where
  "red_sandbox = \<lparr>sb_root = S ''s'', sb_junit = S ''j'', sb_basetemp = S ''b'',
     sb_report = Report (Element (S ''testsuite'') [] [Element (S ''testcase'') [(S ''name'', S ''test_ping'')]
       [Element (S ''failure'') [] []]])\<rparr>"

definition red_args :: obj where
  "red_args = [(S ''nodeids'', JList [JStr (S ''tests'')]), (S ''expect'', JStr (S ''fail'')),
     (S ''junit_contains'', JList [JStr (S ''ping'')]), (S ''require_assertion_failure'', JBool True)]"

theorem pytest_gate_exact_witness:
  "\<exists>r. pytest_check plain_cenv (\<lambda>_ _ _. Inr red_run) [] (S ''python'') red_sandbox red_args = Inr r \<and> r_passed r"
proof -
  let ?a = "\<lparr>a_nodeids = [S ''tests''], a_fails = True, a_names = [JStr (S ''ping'')], a_patterns = [],
    a_strict = True, a_limit = Fin 30, a_extra = []\<rparr>"
  let ?proc = "\<lparr>o_exit = Some 1, o_out = [], o_err = [], o_ms = 10, o_timed_out = False\<rparr>"
  have a: "read_args plain_cenv red_args = Inr ?a"
    by (simp add: read_args_def red_args_def get_or_def raise_none_def all_strings_def stdout_patterns_def clamp_timeout_def
        to_float_def f_max_from_def f_min_to_def DEFAULT_TIMEOUT_SECONDS_def MAX_TIMEOUT_SECONDS_def py_float_def)
  have p: "run_subprocess (\<lambda>_ _ _. Inr red_run) [] (pytest_argv (S ''python'') red_sandbox ?a) (a_limit ?a)
      [(S ''EVIDENCE_DIR'', sb_root red_sandbox)] = Inr ?proc"
    by (simp add: run_subprocess_def red_run_def)
  have "name_failures plain_cenv True (junit_test_names (sb_report red_sandbox)) (JStr (S ''ping'')) = []"
    by code_simp
  then show ?thesis
    using pytest_gate_exact [OF a p] by (simp add: name_failures_none)
qed

end
