(* ===== verification/Check_Toolchain.thy ===== *)
theory Check_Toolchain
  imports Check_Source
begin

text \<open>
  The checks of the native lessons (\<open>learning/checks/toolchain_check.py\<close>): which tool a lesson may
  start, how a build is configured, when an existing build tree is refused, and the verdict on a run;
  and the one orchestrated check, which wedges the device and attaches the debugger to it.

  \<open>tenv\<close> adds the platform, the detected tools, \<open>settimeout\<close> of a socket and how a path is written.
\<close>

record tenv = cenv +
  t_windows :: bool
  t_tools :: toolchain
  t_path :: "pystr list \<Rightarrow> pystr"
  t_settimeout :: "pyfloat \<Rightarrow> py_exc option"

definition ALLOWED_TOOLS :: "pystr list" where
  "ALLOWED_TOOLS = [S ''cmake'', S ''cmake-configure'', S ''ctest'', S ''gdb'', S ''dut'', S ''gdb-attach'']"

definition fail_result :: "pystr \<Rightarrow> pystr \<Rightarrow> int \<Rightarrow> check_result" where
  "fail_result name why ms = \<lparr>r_name = name, r_passed = False, r_exit = None, r_stdout = [], r_stderr = [],
     r_duration = ms, r_interpretation = why, r_timed_out = False, r_details = []\<rparr>"

section \<open>Tools\<close>

definition build_dir :: "repo \<Rightarrow> pystr list" where
  "build_dir rp = rp_root rp @ [S ''cpp'', S ''build'']"

definition dut_path :: "tenv \<Rightarrow> repo \<Rightarrow> pystr option" where
  "dut_path e rp =
     (let binary = (\<lambda>name. build_dir rp @ [S ''bin'', name])
      in if rp_is_file rp (binary (S ''dut.exe'')) then Some (t_path e (binary (S ''dut.exe'')))
         else if rp_is_file rp (binary (S ''dut'')) then Some (t_path e (binary (S ''dut'')))
         else None)"

definition tool_path :: "tenv \<Rightarrow> repo \<Rightarrow> pystr \<Rightarrow> pystr option \<times> pystr" where
  "tool_path e rp tool =
     (if tool = S ''cmake'' \<or> tool = S ''cmake-configure'' then (cmake (t_tools e), S ''cmake was not found on this machine'')
      else if tool = S ''ctest'' then (ctest (t_tools e), S ''ctest was not found on this machine'')
      else if tool = S ''gdb'' \<or> tool = S ''gdb-attach'' then (gdb (t_tools e), S ''gdb was not found on this machine'')
      else if tool = S ''dut''
      then (dut_path e rp, S ''the C++ DUT is not built yet '' @ [8212] @
             S '' run the build step first (expected cpp/build/bin/dut)'')
      else (None, S ''unknown tool '' @ x_repr e (JStr tool)))"

section \<open>The verdict on a run\<close>

definition artifact_problem :: "tenv \<Rightarrow> repo \<Rightarrow> bool \<Rightarrow> json \<Rightarrow> pystr list" where
  "artifact_problem e rp executable v = (case v of
     JStr entry \<Rightarrow>
       (let relative = (if executable \<and> t_windows e then entry @ S ''.exe'' else entry);
            target = rp_resolve rp relative
        in if take (length (rp_root rp)) target \<noteq> rp_root rp
           then [S ''artifact path '' @ x_repr e v @ S '' escapes the repository'']
           else if \<not> rp_exists rp target then [S ''expected artifact '' @ relative @ S '' does not exist'']
           else if executable \<and> \<not> rp_is_file rp target then [relative @ S '' exists but is not a file'']
           else [])
   | _ \<Rightarrow> [])"

text \<open>\<open>[v] if isinstance(v, str) else v or []\<close>\<close>

definition entries :: "json \<Rightarrow> py_exc + json list" where
  "entries v = (if is_str v then Inr [v] else if truthy v then py_iter v else Inr [])"

definition artifact_problems :: "tenv \<Rightarrow> repo \<Rightarrow> bool \<Rightarrow> json \<Rightarrow> py_exc + pystr list" where
  "artifact_problems e rp executable v =
     res_bind (entries v) (\<lambda>vs. Inr (concat (map (artifact_problem e rp executable) vs)))"

definition k_generator :: pystr where "k_generator = S ''match the generator used previously''"
definition k_ptrace :: pystr where "k_ptrace = S ''ptrace: Operation not permitted''"
definition k_no_symbols :: pystr where "k_no_symbols = S ''?? ()''"

definition advice :: "pystr \<Rightarrow> pystr \<Rightarrow> pystr" where
  "advice name combined =
     (if contains k_generator combined
      then S ''. cpp/build was configured with a different generator. That directory is entirely generated, so delete it and re-run: rm -rf cpp/build (PowerShell: Remove-Item -Recurse -Force cpp/build)''
      else []) @
     (if name = S ''gdb-attach'' \<and> contains k_ptrace combined
      then S ''. The kernel refused the attach (Yama ptrace_scope). Rebuild the DUT so it carries the PR_SET_PTRACER opt-in (cmake --build cpp/build), or relax the policy for this session: sudo sysctl -w kernel.yama.ptrace_scope=0''
      else []) @
     (if starts_with (S ''gdb'') name \<and> contains k_no_symbols combined
      then S ''. GDB resolved no symbol names (`?? ()` frames), which means this binary was not built by GCC/Clang '' @ [8212] @
        S '' most likely CMake chose Visual Studio, whose PDB symbols GDB cannot read. Reconfigure with the GNU toolchain: cmake -S cpp -B cpp/build -G Ninja -DCMAKE_CXX_COMPILER=g++ && cmake --build cpp/build''
      else [])"

definition evaluate :: "tenv \<Rightarrow> repo \<Rightarrow> pystr \<Rightarrow> obj \<Rightarrow> outcome \<Rightarrow> int \<Rightarrow> py_exc + check_result" where
  "evaluate e rp name args proc ms =
     (let combined = o_out proc @ [10] @ o_err proc; wanted = get_or (JInt 0) args (S ''expect_exit'')
      in res_bind (required_match (x_search_lines e) (get_or JNull args (S ''expect_output_regex'')) combined
             (\<lambda>p. S ''output did not match '' @ matching p)) (\<lambda>absent.
         res_bind (forbidden_match (x_search_lines e) (get_or JNull args (S ''forbid_output_regex'')) combined
             (\<lambda>p. S ''output matched '' @ matching p @ S '', which must not appear'')) (\<lambda>unwanted.
         res_bind (artifact_problems e rp False (get_or JNull args (S ''artifact''))) (\<lambda>missing.
         res_bind (artifact_problems e rp True (get_or JNull args (S ''executables''))) (\<lambda>unbuilt.
           let problems =
                 (if o_timed_out proc then [S ''the command did not finish within the time limit''] else []) @
                 (if wanted \<noteq> JNull \<and> \<not> py_eq (exit_json (o_exit proc)) wanted
                  then [S ''expected exit status '' @ py_str (x_str e) wanted @ S '', got '' @ exit_text (o_exit proc)] else []) @
                 absent @ unwanted @ missing @ unbuilt
           in Inr \<lparr>r_name = name, r_passed = (problems = []), r_exit = o_exit proc,
                r_stdout = truncate_output (o_out proc), r_stderr = truncate_output (o_err proc), r_duration = ms,
                r_interpretation = (if problems = []
                  then py_str (x_str e) (get_or (JStr (S ''Check passed.'')) args k_success_note)
                  else check_failed problems @ advice name combined),
                r_timed_out = o_timed_out proc, r_details = []\<rparr>)))))"

section \<open>An existing build tree\<close>

text \<open>\<open>s.splitlines()\<close>\<close>

definition is_break :: "nat \<Rightarrow> bool" where
  "is_break c \<longleftrightarrow> 10 \<le> c \<and> c \<le> 13 \<or> 28 \<le> c \<and> c \<le> 30 \<or> c = 133 \<or> c = 8232 \<or> c = 8233"

fun splitlines :: "pystr \<Rightarrow> pystr list" where
  "splitlines [] = []"
| "splitlines (c # s) =
     (if is_break c then [] # splitlines (if c = 13 \<and> s \<noteq> [] \<and> hd s = 10 then tl s else s)
      else case splitlines s of
             [] \<Rightarrow> [[c]]
           | l # ls \<Rightarrow> (c # l) # ls)"

definition value_part :: "pystr \<Rightarrow> pystr" where
  "value_part line = (case dropWhile ((\<noteq>) 61) line of [] \<Rightarrow> line | _ # v \<Rightarrow> v)"

definition last_component :: "pystr \<Rightarrow> pystr" where
  "last_component s = rev (takeWhile ((\<noteq>) 47) (rev s))"

definition gnu_tokens :: "pystr list" where
  "gnu_tokens = [S ''g++'', S ''gcc'', S ''clang'', S ''c++'']"

definition optimising :: "pystr list" where
  "optimising = [S ''release'', S ''minsizerel'']"

definition remedy :: pystr where
  "remedy = S ''That directory is entirely generated, so delete it and let this check reconfigure it: rm -rf cpp/build (PowerShell: Remove-Item -Recurse -Force cpp/build)''"

definition build_type :: "('a cenv_scheme) \<Rightarrow> pystr \<Rightarrow> pystr" where
  "build_type e line = x_lower e (py_strip (value_part line))"

definition compiler_of :: "('a cenv_scheme) \<Rightarrow> pystr \<Rightarrow> pystr" where
  "compiler_of e line = x_lower e (map (\<lambda>c. if c = 92 then 47 else c) (py_strip (value_part line)))"

definition k_type_entry :: pystr where "k_type_entry = S ''CMAKE_BUILD_TYPE:''"
definition k_compiler_entry :: pystr where "k_compiler_entry = S ''CMAKE_CXX_COMPILER:''"

definition refused_line :: "('a cenv_scheme) \<Rightarrow> pystr \<Rightarrow> pystr option" where
  "refused_line e line =
     (if starts_with k_type_entry line \<and> build_type e line \<in> set optimising
      then Some (S ''cpp/build was configured as a '' @ build_type e line @ S '' build, which optimises trigger_crash away '' @
             [8212] @ S '' the Day 12 backtrace check looks for it by name and would fail on a stack that never contains it. '' @ remedy)
      else if \<not> starts_with k_compiler_entry line then None
      else if list_ex (\<lambda>t. contains t (last_component (compiler_of e line))) gnu_tokens then None
      else Some (S ''cpp/build was configured with '' @
             (if compiler_of e line = [] then S ''an unknown compiler'' else compiler_of e line) @
             S '', whose debug symbols GDB cannot read '' @ [8212] @ S '' the Day 12 checks would fail on it. '' @ remedy))"

fun first_refusal :: "('a cenv_scheme) \<Rightarrow> pystr list \<Rightarrow> pystr option" where
  "first_refusal e [] = None"
| "first_refusal e (line # lines) =
     (case refused_line e line of Some why \<Rightarrow> Some why | None \<Rightarrow> first_refusal e lines)"

definition cache_path :: "repo \<Rightarrow> pystr list" where
  "cache_path rp = build_dir rp @ [S ''CMakeCache.txt'']"

definition incompatible_cached_compiler :: "tenv \<Rightarrow> repo \<Rightarrow> py_exc + pystr option" where
  "incompatible_cached_compiler e rp =
     (if \<not> rp_is_file rp (cache_path rp) \<or> \<not> present (gdb (t_tools e)) then Inr None
      else case rp_read rp (cache_path rp) of
             Inl _ \<Rightarrow> Inl OSError
           | Inr cache \<Rightarrow> Inr (first_refusal e (splitlines cache)))"

section \<open>Configuring\<close>

definition configure_argv :: "tenv \<Rightarrow> repo \<Rightarrow> pystr \<Rightarrow> pystr list" where
  "configure_argv e rp exe =
     (let argv = [exe, S ''-S'', S ''cpp'', S ''-B'', S ''cpp/build'']; t = t_tools e
      in if rp_exists rp (cache_path rp) then argv
         else argv @
           (if present (cxx t) then [S ''-DCMAKE_CXX_COMPILER='' @ the (cxx t)] else []) @
           (if present (ninja t)
            then [S ''-G'', S ''Ninja'', S ''-DCMAKE_MAKE_PROGRAM='' @ the (ninja t)]
            else if present (make_tool t)
            then [S ''-G'', if t_windows e then S ''MinGW Makefiles'' else S ''Unix Makefiles'',
                  S ''-DCMAKE_MAKE_PROGRAM='' @ the (make_tool t)]
            else []))"

section \<open>Attaching to a wedged device\<close>

text \<open>
  What the attach meets: the reserved port, the process id of the device, the clock when the wait
  begins, and the tries to poke it, each with the clock at the loop's test; then the clock's reading.
\<close>

record attach =
  g_port :: nat
  g_pid :: nat
  g_spawn :: "pystr list \<Rightarrow> py_exc option"
  g_now :: rat
  g_tries :: "(rat \<times> bool) list"
  g_ms :: int

definition attach_deadline :: "rat \<Rightarrow> pyfloat \<Rightarrow> pyfloat" where
  "attach_deadline now limit = (case f_min_to 15 limit of Fin q \<Rightarrow> Fin (now + q) | x \<Rightarrow> x)"

text \<open>The wait: \<open>sock.settimeout(float(...))\<close> is the one call in it whose error is not suppressed.\<close>

fun poke :: "tenv \<Rightarrow> json \<Rightarrow> pyfloat \<Rightarrow> (rat \<times> bool) list \<Rightarrow> py_exc + bool" where
  "poke e patience deadline [] = Inl OutOfFuel"
| "poke e patience deadline ((now, accepted) # tries) =
     (if \<not> before_deadline now deadline then Inr False
      else if \<not> accepted then poke e patience deadline tries
      else res_bind (to_float (x_float e) patience) (\<lambda>q.
             case t_settimeout e q of Some x \<Rightarrow> Inl x | None \<Rightarrow> Inr True))"

definition texts :: "('a cenv_scheme) \<Rightarrow> json \<Rightarrow> py_exc + pystr list" where
  "texts e v = res_bind (py_iter v) (\<lambda>vs. Inr (map (py_str (x_str e)) vs))"

definition gdb_argv :: "pystr \<Rightarrow> nat \<Rightarrow> pystr list \<Rightarrow> pystr list" where
  "gdb_argv exe pid commands = [exe, S ''-p'', dec_nat pid, S ''-batch''] @ concat (map (\<lambda>c. [S ''-ex'', c]) commands)"

definition run_gdb_attach ::
    "tenv \<Rightarrow> spawner \<Rightarrow> pystr dict \<Rightarrow> repo \<Rightarrow> attach \<Rightarrow> obj \<Rightarrow> pyfloat \<Rightarrow> py_exc + check_result" where
  "run_gdb_attach e spawn vars rp g args limit =
     (let name = S ''gdb-attach''
      in case tool_path e rp (S ''gdb'') of
           (None, why) \<Rightarrow> Inr (fail_result name why 0)
         | (Some exe, _) \<Rightarrow>
             (case dut_path e rp of
                None \<Rightarrow> Inr (fail_result name (S ''the C++ DUT is not built yet'') 0)
              | Some dut \<Rightarrow>
                  res_bind (texts e (get_or (JList []) args (S ''dut_args''))) (\<lambda>dut_args.
                  res_bind (texts e (get_or (JList [JStr (S ''bt'')]) args (S ''gdb_commands''))) (\<lambda>commands.
                    case g_spawn g ([dut, S ''--host'', S ''127.0.0.1'', S ''--port'', dec_nat (g_port g)] @ dut_args) of
                      Some x \<Rightarrow> Inl x
                    | None \<Rightarrow>
                        res_bind (poke e (get_or (JFloat (Fin (3/2))) args (S ''poke_timeout_seconds''))
                            (attach_deadline (g_now g) limit) (g_tries g)) (\<lambda>connected.
                          if \<not> connected
                          then Inr (fail_result name
                                 (S ''the C++ DUT never accepted a connection, so there was nothing to attach to'') (g_ms g))
                          else res_bind (run_subprocess spawn vars (gdb_argv exe (g_pid g) commands) limit []) (\<lambda>proc.
                                 evaluate e rp name args proc (g_ms g)))))))"

section \<open>The check\<close>

definition toolchain_check ::
    "tenv \<Rightarrow> spawner \<Rightarrow> pystr dict \<Rightarrow> repo \<Rightarrow> attach \<Rightarrow> obj \<Rightarrow> py_exc + check_result" where
  "toolchain_check e spawn vars rp g args =
     (let tool = py_str (x_str e) (get_or (JStr []) args (S ''tool''))
      in if tool \<notin> set ALLOWED_TOOLS
         then Inr (fail_result (S ''toolchain_check'') (S ''tool '' @ x_repr e (JStr tool) @ S '' is not allowlisted (allowed: '' @
                join comma (sort ALLOWED_TOOLS) @ S '')'') 0)
         else
           res_bind (clamp_timeout (x_float e) args) (\<lambda>limit.
             if tool = S ''gdb-attach'' then run_gdb_attach e spawn vars rp g args limit
             else
               (case tool_path e rp tool of
                  (None, why) \<Rightarrow> Inr (fail_result tool why 0)
                | (Some exe, _) \<Rightarrow>
                    if tool = S ''cmake-configure''
                    then res_bind (incompatible_cached_compiler e rp) (\<lambda>refused.
                           case refused of
                             Some why \<Rightarrow> Inr (fail_result tool why 0)
                           | None \<Rightarrow> res_bind (run_subprocess spawn vars (configure_argv e rp exe) limit []) (\<lambda>proc.
                               evaluate e rp tool args proc (o_ms proc)))
                    else res_bind (texts e (get_or (JList []) args (S ''args''))) (\<lambda>extra.
                           res_bind (run_subprocess spawn vars (exe # extra) limit []) (\<lambda>proc.
                             evaluate e rp tool args proc (o_ms proc))))))"

section \<open>When it passes\<close>

lemma artifact_problem_none:
  "artifact_problem e rp executable (JStr entry) = [] \<longleftrightarrow>
     (let target = rp_resolve rp (if executable \<and> t_windows e then entry @ S ''.exe'' else entry)
      in take (length (rp_root rp)) target = rp_root rp \<and> rp_exists rp target \<and> (executable \<longrightarrow> rp_is_file rp target))"
  by (auto simp: artifact_problem_def Let_def)

lemma splitlines_one: "s \<noteq> [] \<Longrightarrow> \<forall>c \<in> set s. \<not> is_break c \<Longrightarrow> splitlines s = [s]"
proof (induction s)
  case (Cons c s)
  then show ?case by (cases "s = []") auto
qed simp

lemma first_refusal_none: "first_refusal e lines = None \<longleftrightarrow> (\<forall>line \<in> set lines. refused_line e line = None)"
  by (induction lines) (auto split: option.split)

lemma entries_disjoint: "starts_with k_type_entry line \<Longrightarrow> \<not> starts_with k_compiler_entry line"
proof
  assume "starts_with k_type_entry line" "starts_with k_compiler_entry line"
  then have "take 7 (take (length k_type_entry) line) = take 7 k_type_entry"
    "take 7 (take (length k_compiler_entry) line) = take 7 k_compiler_entry"
    by (simp_all add: starts_with_def)
  then show False by (simp add: k_type_entry_def k_compiler_entry_def S_def)
qed

lemma refused_line_none:
  "refused_line e line = None \<longleftrightarrow>
     (starts_with k_type_entry line \<longrightarrow> build_type e line \<notin> set optimising) \<and>
     (starts_with k_compiler_entry line \<longrightarrow> (\<exists>t \<in> set gnu_tokens. contains t (last_component (compiler_of e line))))"
  by (auto simp: refused_line_def list_ex_iff dest: entries_disjoint)

text \<open>The programs a lesson may start: the detected tools and the device built in the repository.\<close>

definition known_programs :: "tenv \<Rightarrow> repo \<Rightarrow> pystr set" where
  "known_programs e rp = {p. Some p \<in> {cmake (t_tools e), ctest (t_tools e), gdb (t_tools e), dut_path e rp}}"

lemma tool_path_known: "tool_path e rp tool = (Some exe, why) \<Longrightarrow> exe \<in> known_programs e rp"
  by (auto simp: tool_path_def known_programs_def split: if_splits)

lemma run_subprocess_cong:
  assumes "\<And>env. spawn argv env limit = spawn' argv env limit"
  shows "run_subprocess spawn vars argv limit extra = run_subprocess spawn' vars argv limit extra"
  by (simp add: run_subprocess_def assms)

section \<open>Properties\<close>


definition sample_tenv :: tenv where
  "sample_tenv = \<lparr>x_cap = 4300, x_depth = 100, x_int = (\<lambda>_. Inl ValueError), x_float = (\<lambda>_. None),
     x_search = (\<lambda>_ _. Inr True), x_search_lines = (\<lambda>_ _. Inr True), x_repr = (\<lambda>_. []), x_str = (\<lambda>_. []),
     x_seconds = (\<lambda>_. []), x_lower = id, t_windows = False,
     t_tools = \<lparr>cmake = Some (S ''/bin/cmake''), ctest = None, cxx = None, gdb = Some (S ''/bin/gdb''), ninja = None, make_tool = None\<rparr>,
     t_path = (\<lambda>_. S ''dut''), t_settimeout = (\<lambda>_. None)\<rparr>"

definition built_repo :: "pystr \<Rightarrow> repo" where
  "built_repo cache = \<lparr>rp_root = [S ''r''], rp_resolve = (\<lambda>p. [S ''r'', p]), rp_exists = (\<lambda>_. True),
     rp_is_file = (\<lambda>_. True), rp_read = (\<lambda>_. Inr cache)\<rparr>"

definition cmake_args :: obj where
  "cmake_args = [(S ''tool'', JStr (S ''cmake'')), (S ''args'', JList [JStr (S ''--version'')])]"

definition green_child :: child where
  "green_child = \<lparr>ch_first = Some ([], []), ch_killed = None, ch_code = Some 0, ch_ms = 10\<rparr>"

definition no_attach :: attach where
  "no_attach = \<lparr>g_port = 1, g_pid = 1, g_spawn = (\<lambda>_. None), g_now = 0, g_tries = [], g_ms = 0\<rparr>"


text \<open>
  An existing build tree is refused exactly when gdb is there to read it and a line of its cache
  names a compiler that is not GNU or Clang by the name of its file, or one of the build types release
  and minsizerel.  The optimising type relwithdebinfo is accepted, and so is a file named clang-cl.
\<close>

theorem build_tree_refused_exactly:
  assumes "rp_read rp (cache_path rp) = Inr cache"
  shows "incompatible_cached_compiler e rp = Inr None \<longleftrightarrow>
    rp_is_file rp (cache_path rp) \<and> present (gdb (t_tools e)) \<longrightarrow>
      (\<forall>line \<in> set (splitlines cache).
        (starts_with k_type_entry line \<longrightarrow> build_type e line \<notin> set optimising) \<and>
        (starts_with k_compiler_entry line \<longrightarrow> (\<exists>t \<in> set gnu_tokens. contains t (last_component (compiler_of e line)))))"
  by (auto simp: incompatible_cached_compiler_def assms first_refusal_none refused_line_none)

theorem build_tree_refused_exactly_witness:
  "incompatible_cached_compiler sample_tenv (built_repo (k_compiler_entry @ S ''FILEPATH=cl.exe'')) \<noteq> Inr None"
proof -
  let ?line = "k_compiler_entry @ S ''FILEPATH=cl.exe''"
  have lines: "splitlines ?line = [?line]"
    by (rule splitlines_one) (simp_all add: k_compiler_entry_def S_def is_break_def)
  have "starts_with k_compiler_entry ?line \<and> \<not> (\<exists>t \<in> set gnu_tokens. contains t (last_component (compiler_of sample_tenv ?line)))"
    by code_simp
  then show ?thesis
    using build_tree_refused_exactly [of "built_repo ?line" ?line sample_tenv]
    by (auto simp: lines built_repo_def sample_tenv_def present_def)
qed

end
