(* ===== verification/Check_Registry.thy ===== *)
theory Check_Registry
  imports App_Shutdown Check_Progress Check_Pytest Check_Toolchain Check_Probe
begin

text \<open>
  The registry of checks (\<open>_build_registry\<close> in \<open>learning/server/validators.py\<close>) over the models of
  the seven checks, and what it means for a request that a check crashes.

  \<open>checkout\<close> collects what the checks take from outside: the library functions, the repository, the
  processes they start and what those meet.
\<close>

record 's checkout =
  k_show :: "py_exc \<Rightarrow> pystr \<times> pystr"     \<comment> \<open>an exception as a traceback and as a text\<close>
  k_plain :: cenv
  k_evidence :: acenv
  k_probe :: penv
  k_native :: tenv
  k_spawn :: spawner
  k_vars :: "pystr dict"
  k_python :: pystr
  k_repo :: repo
  k_parse :: "pystr \<Rightarrow> parse_result"
  k_progress :: progress_file
  k_sandbox :: sandbox
  k_net :: "pyfloat \<Rightarrow> 's net"
  k_surroundings :: "'s surroundings"
  k_attach :: attach

definition check_registry :: "'s checkout \<Rightarrow> registry" where
  "check_registry k = map (\<lambda>(name, f). (name, as_check (k_show k) f))
     [(S ''python_probe'', python_probe (k_plain k) (k_spawn k) (k_vars k) (k_python k)),
      (S ''pytest_check'', pytest_check (k_plain k) (k_spawn k) (k_vars k) (k_python k) (k_sandbox k)),
      (S ''behavior_probe'', behavior_probe (k_probe k) (k_net k) (k_repo k) (k_surroundings k)),
      (S ''source_check'', source_check (k_plain k) (k_repo k) (k_parse k)),
      (S ''artifact_check'', artifact_check (k_evidence k) (k_repo k)),
      (S ''toolchain_check'', toolchain_check (k_native k) (k_spawn k) (k_vars k) (k_repo k) (k_attach k)),
      (S ''progress_check'', progress_check (k_plain k) (k_progress k))]"

definition validator_names :: "'s checkout \<Rightarrow> pystr list" where
  "validator_names k = dkeys (check_registry k)"

lemma validator_names_eq: "validator_names k =
  [S ''python_probe'', S ''pytest_check'', S ''behavior_probe'', S ''source_check'', S ''artifact_check'',
   S ''toolchain_check'', S ''progress_check'']"
  by (simp add: validator_names_def check_registry_def dkeys_def)

lemma probe_registered:
  "run_validator (check_registry k) (S ''behavior_probe'') args =
     as_check (k_show k) (behavior_probe (k_probe k) (k_net k) (k_repo k) (k_surroundings k)) args"
  by (simp add: run_validator_def check_registry_def)

lemma crashed_as_check: "crashed (as_check render f args) \<longleftrightarrow> (\<exists>x. f args = Inl x)"
  by (auto simp: as_check_def crashed_def split: sum.split)

text \<open>
  A device that is killed after it was seen alive and before the probe connects makes the probe crash,
  so a shutdown at that moment costs the lesson its certification.
\<close>

lemma connect_race:
  assumes "(if wait_ready then wait_for_port (plus_seconds (w_now w) grace) (w_tries w) else Inr True) = Inr True"
    and "w_polled w = None" and "w_connect w reply = Inl x" and "sts \<noteq> []"
  shows "probe_body e net w reply grace wait_ready sts = Inl x"
  using assms by (simp add: probe_body_def)

end
