(* ===== verification/Spec2Isabelle.thy ===== *)
theory Spec2Isabelle
  imports Dut_Concurrency Dut_Lifecycle Lab_Client Command_Line Shutdown App_Trace App_Replies
    Check_Drill Check_Source_Gates Check_Evidence Check_Probe_Gates Check_Registry
begin

text \<open>
  The flight test lab: a simulated device, a client for it, and a course that runs on a local server.

  \<^bold>\<open>The program.\<close>  \<open>simulator/simulator.py\<close> is the device under test: a TCP server that answers
  lines of JSON and can be started with one of five faults.  \<open>src/testlab/client.py\<close> is the client
  the tests use.  \<open>python -m learning\<close> (\<open>learning/__main__.py\<close>) takes a lock on the progress file
  (\<open>learning/server/instance_lock.py\<close>), loads the curriculum (\<open>learning/server/curriculum.py\<close>) for the
  tools the machine has (\<open>learning/server/toolchain.py\<close>), and serves pages and requests
  (\<open>learning/server/app.py\<close>).  A request records progress (\<open>learning/server/progress.py\<close>), and
  \<open>/api/validate\<close> runs one of seven checks (\<open>learning/server/validators.py\<close>, \<open>learning/checks\<close>) whose
  verdict opens or closes the gate of a lesson.

  \<^bold>\<open>Shared vocabulary.\<close>  \<open>Prelude\<close>: strings as lists of code points, dicts as association lists in
  insertion order, exceptions as values (\<open>py_exc + 'a\<close>, \<open>res_bind\<close>, \<open>res_map\<close>), reachability, and the
  locale \<open>transition_invariant\<close>, interpreted by every state machine below.  \<open>Json_Value\<close>, \<open>Json_Text\<close>,
  \<open>Json_Roundtrip\<close> and \<open>Json_Bounds\<close> model what the code uses of the \<open>json\<close> module: the scanner of
  \<open>loads\<close> with its recursion limit and digit limit, and \<open>dumps\<close>.  \<open>Wire_Text\<close>: UTF-8, \<open>readline\<close>, and
  the locale \<open>line_codec\<close> for messages sent one per line, interpreted for requests (\<open>Protocol\<close>) and
  replies (\<open>Lab_Client\<close>).

  \<^bold>\<open>The device.\<close>  \<open>Fault_Config\<close>: \<open>FaultConfig\<close>, \<open>load_fault_config\<close>, \<open>resolve_fault_config\<close>.
  \<open>Protocol\<close>: \<open>exceeds_nesting_limit\<close>, \<open>_parse_int\<close>, \<open>decode_request\<close>, \<open>build_response\<close>.
  \<open>Dut_Server\<close>: \<open>DutRequestHandler.handle\<close> as the actions it performs on the bytes of one connection.
  \<open>Dut_Concurrency\<close>: the request counter shared by the handler threads, as an interleaving.
  \<open>Dut_Lifecycle\<close>: \<open>main\<close> and \<open>configure_logging\<close>, and \<open>run_server\<close> with its signal handler as a state
  machine of the main thread and the threads that call \<open>shutdown\<close>.  \<open>Lab_Client\<close>: \<open>LabClient\<close>, and one exchange with the modelled device.

  \<^bold>\<open>The course.\<close>  \<open>Toolchain\<close>, \<open>Curriculum\<close> (every schema check, and the invariant of an accepted
  curriculum), \<open>Progress\<close> (the state file, its validation and the operations of \<open>ProgressStore\<close> as state
  transformers), \<open>Progress_Gates\<close> and \<open>Progress_Queries\<close> (\<open>is_complete\<close> with its set of lessons seen,
  \<open>mark_complete\<close>, \<open>resume_lesson_id\<close>, mastery and weights).  \<open>Progress_Machine\<close>, \<open>Progress_Evidence\<close>,
  \<open>Progress_Certification\<close> and \<open>Progress_Reload\<close> hold the invariants, what each command does to the
  evidence of a lesson, and what a restart reads back; \<open>Progress_Properties\<close> states the results against
  the inductive predicate \<open>certified\<close>, the specification of a finished lesson.  \<open>Progress_Ledger\<close> is the
  abstract specification of the store: a map from lessons to what was shown for them, with a step of
  one line per command.  The store refines it, so a certified lesson can be read back as the history
  that earned it.

  \<^bold>\<open>The server.\<close>  \<open>App_Requests\<close> (admission: \<open>_same_origin\<close>, \<open>_read_body\<close>, static files),
  \<open>App_Handlers\<close> (one operation per handler), \<open>App_Properties\<close> and \<open>App_Service\<close> (\<open>do_GET\<close>, \<open>do_POST\<close>,
  sequences of requests, refinement of the progress machine).  \<open>App_Trace\<close> composes the request path
  with the ledger: over any sequence of requests, a certificate goes back to checks the server ran.
  \<open>App_Replies\<close>: \<open>_send_json\<close>, and what a reader of the reply gets.  \<open>App_Shutdown\<close>: a check that ends while
  the server stops.  \<open>Shutdown\<close>: handler threads, \<open>validator_lock\<close>, \<open>shutting_down\<close>, the registry of
  children and the sweep, interleaved.  \<open>Instance_Lock\<close>: several servers on one progress file, with
  crashes and late requests.  \<open>Command_Line\<close>: \<open>python -m learning\<close> from its arguments to its exit status,
  with \<open>build_server\<close>: what it prints, and the order of lock, socket and shutdown.

  \<^bold>\<open>The checks.\<close>  \<open>Check_Common\<close> (\<open>run_subprocess\<close> and what the checks share), \<open>Check_Progress\<close>
  (\<open>progress_check\<close>, \<open>python_probe\<close>), \<open>Python_Syntax\<close> and \<open>Check_Source\<close> (\<open>source_check\<close>),
  \<open>Check_Artifact\<close> (\<open>artifact_check\<close>), \<open>Check_Pytest\<close>, \<open>Check_Toolchain\<close>, \<open>Check_Probe\<close>
  (\<open>behavior_probe\<close>), and \<open>Check_Registry\<close>, which puts the seven together.  Their specifications are
  \<open>Check_Drill\<close> (the drill against the store's own history), \<open>Check_Source_Gates\<close> (soundness of the
  lock gate over the executions of the accepted branch), \<open>Check_Evidence\<close> (the relation \<open>fits\<close> between
  values and rules) and \<open>Check_Probe_Gates\<close> (the probe run against the model of the device).

  \<^bold>\<open>Bounds and fuel.\<close>  The JSON scanner runs on fuel \<open>Suc (2 * length)\<close> of its text, which is proved
  enough (\<open>Json_Roundtrip\<close>), and on a depth, the room left in Python's recursion limit, which is an
  argument everywhere.  Loops over a clock (\<open>wait_until_ready\<close>, \<open>wait_for_port\<close>, \<open>poke\<close>) run over the
  list of their tries; a list that ends before the deadline gives \<open>None\<close> or \<open>OutOfFuel\<close>, never a result.
  All other recursion is structural or has a termination proof.  Floats are binary64 values as
  rationals, with the rounding written out where the code computes with them.

  \<^bold>\<open>Parameters.\<close>  What is outside the repository is an argument: the network, files and processes,
  the clock, \<open>re\<close>, \<open>ast.parse\<close>, \<open>csv\<close>, the XML parser, \<open>datetime.fromisoformat\<close>, \<open>git\<close>, \<open>repr\<close> of
  values, and the platform.  The records \<open>env\<close>, \<open>cenv\<close> and its extensions \<open>acenv\<close>, \<open>penv\<close>, \<open>tenv\<close>
  collect them; \<open>checkout\<close> holds them all.

  \<^bold>\<open>Not modelled.\<close>  The framing of HTTP by \<open>http.server\<close>, the parsing of arguments by \<open>argparse\<close> (the
  models start from parsed arguments), the text of a log line, temporary directories, \<open>reserve_port\<close>,
  the caches of \<open>cached_toolchain\<close> and of the registry, and the root \<open>conftest.py\<close>, which registers one
  option: they are calls into the standard library around the logic above.  The advisory lock is the kernel's: \<open>Instance_Lock\<close> has its holder, not its system calls.  A
  child process stands for its process group, and killing it works.  XML is parsed from the decoded
  text of a report.
\<close>

end
